(* ===== verification/Prelude.thy ===== *)
theory Prelude
  imports Main "HOL-Library.Word"
begin

text \<open>
  Shared vocabulary of the development: the machine integers of the Rust code, the result
  monad in which every fallible function is written, the checked arithmetic of the 128-bit
  coin amounts, and the loops over vectors that stop at the first error.
  Nothing here is specific to one contract.
\<close>

named_theorems result_simps \<open>equations that take a monadic computation apart\<close>
named_theorems word_nat \<open>facts that move word arithmetic to natural numbers\<close>

section \<open>Machine integers\<close>

text \<open>
  Rust's unsigned integers at their width. \<open>+\<close>, \<open>-\<close> and \<open>*\<close> on these types wrap, which is
  what the native operators do in the release profile of the workspace (it sets no
  \<open>overflow-checks\<close>). An \<open>i128\<close> is a \<open>u128\<close> read through \<open>sint\<close>.
\<close>

type_synonym u32 = "32 word"
type_synonym u64 = "64 word"
type_synonym u128 = "128 word"

text \<open>
  The operators of \<open>Uint128\<close> (coin amounts) never wrap: they abort, or return an error, when
  the result does not fit. \<open>None\<close> stands for that.
\<close>

definition fit_add :: "'w::len word \<Rightarrow> 'w word \<Rightarrow> 'w word option" where
  "fit_add a b = (if a \<le> a + b then Some (a + b) else None)"

definition fit_sub :: "'w::len word \<Rightarrow> 'w word \<Rightarrow> 'w word option" where
  "fit_sub a b = (if b \<le> a then Some (a - b) else None)"

definition fit_mul :: "'w::len word \<Rightarrow> 'w word \<Rightarrow> 'w word option" where
  "fit_mul a b = (if unat a * unat b < 2 ^ LENGTH('w) then Some (a * b) else None)"

lemma fit_add_Some [word_nat]:
  "fit_add a b = Some c \<longleftrightarrow> unat c = unat a + unat b"
proof -
  have "unat c = unat a + unat b \<Longrightarrow> c = a + b \<and> a \<le> a + b"
    by (metis no_olen_add_nat unat_add_lem unsigned_less word_unat_eq_iff)
  then show ?thesis by (auto simp: fit_add_def unat_plus_simple)
qed

lemma fit_sub_Some [word_nat]:
  "fit_sub a b = Some c \<longleftrightarrow> unat a = unat c + unat b"
proof -
  have "b \<le> a \<Longrightarrow> unat (a - b) + unat b = unat a"
    by (simp add: unat_sub word_le_nat_alt)
  moreover have "unat a = unat c + unat b \<Longrightarrow> b \<le> a \<and> c = a - b"
    by (simp add: word_le_nat_alt word_unat_eq_iff unat_sub)
  ultimately show ?thesis by (auto simp: fit_sub_def)
qed

lemma fit_mul_Some [word_nat]:
  "fit_mul a b = Some c \<Longrightarrow> unat c = unat a * unat b"
  by (auto simp: fit_mul_def unat_word_ariths split: if_splits)

lemma fit_sub_None: "fit_sub a b = None \<longleftrightarrow> unat a < unat b"
  by (auto simp: fit_sub_def word_le_nat_alt)

section \<open>Results\<close>

text \<open>
  A function that may fail returns \<open>error + value\<close>. \<open>bindE\<close> is Rust's \<open>?\<close>: it passes the
  first error on. A panic is an error value like any other.
\<close>

fun bindE :: "'e + 'a \<Rightarrow> ('a \<Rightarrow> 'e + 'b) \<Rightarrow> 'e + 'b" where
  "bindE (Inl e) f = Inl e"
| "bindE (Inr x) f = f x"

fun map_err :: "('e \<Rightarrow> 'f) \<Rightarrow> 'e + 'a \<Rightarrow> 'f + 'a" where
  "map_err g (Inl e) = Inl (g e)"
| "map_err g (Inr x) = Inr x"

fun of_opt :: "'e \<Rightarrow> 'a option \<Rightarrow> 'e + 'a" where
  "of_opt e None = Inl e"
| "of_opt e (Some x) = Inr x"

lemma bindE_eq_Inr [simp, result_simps]:
  "bindE m f = Inr y \<longleftrightarrow> (\<exists>x. m = Inr x \<and> f x = Inr y)"
  by (cases m) auto

lemma bindE_assoc: "bindE (bindE m f) g = bindE m (\<lambda>x. bindE (f x) g)"
  by (cases m) simp_all

lemma bindE_eq_Inl [result_simps]:
  "bindE m f = Inl e \<longleftrightarrow> m = Inl e \<or> (\<exists>x. m = Inr x \<and> f x = Inl e)"
  by (cases m) auto

lemma map_err_eq_Inr [simp, result_simps]: "map_err g m = Inr y \<longleftrightarrow> m = Inr y"
  by (cases m) auto

lemma map_err_eq_Inl [result_simps]: "map_err g m = Inl e \<longleftrightarrow> (\<exists>e'. m = Inl e' \<and> e = g e')"
  by (cases m) auto

lemma of_opt_eq_Inr [simp, result_simps]: "of_opt e m = Inr y \<longleftrightarrow> m = Some y"
  by (cases m) auto

lemma of_opt_eq_Inl [result_simps]: "of_opt e m = Inl e' \<longleftrightarrow> m = None \<and> e' = e"
  by (cases m) auto

text \<open>A loop over a vector that threads a state and returns early on an error.\<close>

fun foldE :: "('s \<Rightarrow> 'a \<Rightarrow> 'e + 's) \<Rightarrow> 's \<Rightarrow> 'a list \<Rightarrow> 'e + 's" where
  "foldE f s [] = Inr s"
| "foldE f s (x # xs) = bindE (f s x) (\<lambda>s'. foldE f s' xs)"

text \<open>\<open>iter().try_for_each(check)\<close> and \<open>iter().map(f).collect::<Result<Vec<_>, _>>()\<close>.\<close>

fun checkE :: "('a \<Rightarrow> 'e + unit) \<Rightarrow> 'a list \<Rightarrow> 'e + unit" where
  "checkE c [] = Inr ()"
| "checkE c (x # xs) = bindE (c x) (\<lambda>_. checkE c xs)"

fun mapE :: "('a \<Rightarrow> 'e + 'b) \<Rightarrow> 'a list \<Rightarrow> 'e + 'b list" where
  "mapE f [] = Inr []"
| "mapE f (x # xs) = bindE (f x) (\<lambda>y. bindE (mapE f xs) (\<lambda>ys. Inr (y # ys)))"

lemma foldE_append:
  "foldE f s (xs @ ys) = bindE (foldE f s xs) (\<lambda>s'. foldE f s' ys)"
proof (induction xs arbitrary: s)
  case (Cons x xs)
  then show ?case by (cases "f s x") auto
qed simp

text \<open>Whatever every iteration keeps, the loop keeps.\<close>

lemma foldE_invariant:
  assumes "foldE f s xs = Inr s'" and "P s"
    and "\<And>s x s'. x \<in> set xs \<Longrightarrow> P s \<Longrightarrow> f s x = Inr s' \<Longrightarrow> P s'"
  shows "P s'"
  using assms
proof (induction xs arbitrary: s)
  case (Cons x xs)
  from Cons.prems(1) obtain s1 where "f s x = Inr s1" and r: "foldE f s1 xs = Inr s'"
    by auto
  then have "P s1" using Cons.prems by auto
  with r show ?case using Cons.prems(3) by (intro Cons.IH) auto
qed simp

text \<open>The same with an invariant that speaks of the elements still to come.\<close>

lemma foldE_rule:
  assumes "foldE f s xs = Inr s'" and "P xs s"
    and "\<And>x xs s s'. P (x # xs) s \<Longrightarrow> f s x = Inr s' \<Longrightarrow> P xs s'"
  shows "P [] s'"
  using assms(1,2)
proof (induction xs arbitrary: s)
  case (Cons x xs)
  then show ?case using assms(3) by auto
qed simp

text \<open>What an iteration relates, reflexively and transitively, the loop relates.\<close>

lemma foldE_related:
  assumes "foldE f s xs = Inr s'" and "\<And>s. R s s"
    and "\<And>a b c. R a b \<Longrightarrow> R b c \<Longrightarrow> R a c"
    and "\<And>s x s'. x \<in> set xs \<Longrightarrow> f s x = Inr s' \<Longrightarrow> R s s'"
  shows "R s s'"
  by (rule foldE_invariant [OF assms(1), of "R s"]) (auto intro: assms(2-4))

lemma mapE_Inr_length: "mapE f xs = Inr ys \<Longrightarrow> length ys = length xs"
  by (induction xs arbitrary: ys) auto

lemma mapE_Inr_all: "mapE f xs = Inr ys \<Longrightarrow> list_all2 (\<lambda>x y. f x = Inr y) xs ys"
  by (induction xs arbitrary: ys) auto

lemma checkE_Inr: "checkE c xs = Inr u \<longleftrightarrow> (\<forall>x \<in> set xs. c x = Inr ())"
  by (induction xs) auto

section \<open>Words as numbers\<close>

lemma word_of_nat_plus1 [simp]: "word_of_nat (Suc n) = word_of_nat n + 1"
  by simp

lemma unat_less_imp_Suc:
  fixes x :: "'w::len word"
  assumes "x < y"
  shows "unat (x + 1) = Suc (unat x)"
proof -
  have "unat y < 2 ^ LENGTH('w)" by simp
  with assms have "unat x + 1 < 2 ^ LENGTH('w)"
    unfolding word_less_nat_alt by linarith
  then show ?thesis by (simp add: unat_add_lem [THEN iffD1])
qed

lemma one_le_word [simp]: "(1 :: 'w::len word) \<le> x \<longleftrightarrow> x \<noteq> 0"
  by (metis linorder_not_less word_less_1)

lemma unat_u128: "unat (r :: u128) < 2 ^ 128"
  using unsigned_less [of r] by simp

lemma unat_u64: "unat (r :: u64) < 2 ^ 64"
  using unsigned_less [of r] by simp

lemma unat_u32: "unat (r :: u32) < 2 ^ 32"
  using unsigned_less [of r] by simp

lemma unat_minus_one_gt: "0 < (x :: 'w::len word) \<Longrightarrow> unat (x - 1) = unat x - 1"
  by (simp add: unat_minus_one word_gt_0)

text \<open>Casts: to a wider word the value is kept, to a narrower one it is kept if it fits.\<close>

lemma unat_ucast_fits:
  fixes x :: "'a::len word"
  shows "unat x < 2 ^ LENGTH('b::len) \<Longrightarrow> unat (ucast x :: 'b word) = unat x"
  by (simp add: unsigned_ucast_eq take_bit_nat_eq_self)

lemma unat_ucast_up:
  fixes x :: "'a::len word"
  assumes "LENGTH('a) \<le> LENGTH('b::len)"
  shows "unat (ucast x :: 'b word) = unat x"
proof (rule unat_ucast_fits)
  have "unat x < 2 ^ LENGTH('a)" by simp
  also have "(2 :: nat) ^ LENGTH('a) \<le> 2 ^ LENGTH('b)" using assms by simp
  finally show "unat x < 2 ^ LENGTH('b)" .
qed

end
