(* ===== verification/Storage.thy ===== *)
theory Storage
  imports Prelude "HOL-Library.Char_ord" "HOL-Library.List_Lexorder" "HOL-Library.Product_Lexorder"
begin

text \<open>
  The key-value storage of a contract. A \<open>Map\<close> of the contract is a list of entries in
  ascending order of the keys (the order in which \<open>range\<close> walks it): \<open>sget\<close> is \<open>may_load\<close>,
  \<open>sput\<close> is \<open>save\<close>, \<open>sdel\<close> is \<open>remove\<close>. The locale \<open>kv_store\<close> is the contract between the
  storage and its clients; the sums and counts over all entries, on which the accounting
  theorems rest, are proved from its laws alone.
\<close>

section \<open>The interface\<close>

text \<open>The sum of \<open>f key value\<close> over a list of entries.\<close>

definition tally :: "('k \<Rightarrow> 'v \<Rightarrow> 'n::comm_monoid_add) \<Rightarrow> ('k \<times> 'v) list \<Rightarrow> 'n" where
  "tally f es = sum_list (map (\<lambda>(k, v). f k v) es)"

text \<open>What one optional entry contributes to such a sum.\<close>

definition share :: "('k \<Rightarrow> 'v \<Rightarrow> 'n::comm_monoid_add) \<Rightarrow> 'k \<Rightarrow> 'v option \<Rightarrow> 'n" where
  "share f k e = (case e of None \<Rightarrow> 0 | Some v \<Rightarrow> f k v)"

lemma share_simps [simp]: "share f k None = 0" "share f k (Some v) = f k v"
  by (simp_all add: share_def)

lemma tally_simps [simp]: "tally f [] = 0" "tally f ((k, v) # es) = f k v + tally f es"
  by (simp_all add: tally_def)

lemma tally_cong:
  "(\<And>k v. (k, v) \<in> set es \<Longrightarrow> f k v = g k v) \<Longrightarrow> tally f es = tally g es"
  by (induction es) auto

lemma tally_mono:
  fixes f g :: "'k \<Rightarrow> 'v \<Rightarrow> nat"
  shows "(\<And>k v. (k, v) \<in> set es \<Longrightarrow> f k v \<le> g k v) \<Longrightarrow> tally f es \<le> tally g es"
  by (induction es) (auto intro!: add_mono)

lemma tally_member:
  fixes f :: "'k \<Rightarrow> 'v \<Rightarrow> nat"
  shows "(k, v) \<in> set es \<Longrightarrow> f k v \<le> tally f es"
  by (induction es) (auto intro: trans_le_add1 trans_le_add2)

lemma tally_of_nat:
  "of_nat (tally f es) = tally (\<lambda>k v. of_nat (f k v)) es"
  by (induction es) auto

locale kv_store =
  fixes empty :: "'m"
    and get :: "'m \<Rightarrow> 'k::linorder \<Rightarrow> 'v option"
    and put :: "'k \<Rightarrow> 'v \<Rightarrow> 'm \<Rightarrow> 'm"
    and del :: "'k \<Rightarrow> 'm \<Rightarrow> 'm"
    and entries :: "'m \<Rightarrow> ('k \<times> 'v) list"
    and wf :: "'m \<Rightarrow> bool"
  assumes get_empty: "get empty k = None"
    and get_put: "get (put k v m) k' = (if k' = k then Some v else get m k')"
    and get_del: "get (del k m) k' = (if k' = k then None else get m k')"
    and wf_empty: "wf empty"
    and wf_put: "wf m \<Longrightarrow> wf (put k v m)"
    and wf_del: "wf m \<Longrightarrow> wf (del k m)"
    and entries_get: "wf m \<Longrightarrow> (k, v) \<in> set (entries m) \<longleftrightarrow> get m k = Some v"
    and entries_ascend: "wf m \<Longrightarrow> sorted_wrt (<) (map fst (entries m))"
begin

lemma entries_distinct: "wf m \<Longrightarrow> distinct (map fst (entries m))"
  using entries_ascend strict_sorted_iff by blast

lemma finite_dom: "wf m \<Longrightarrow> finite (dom (get m))"
proof -
  assume "wf m"
  have "dom (get m) \<subseteq> fst ` set (entries m)"
  proof
    fix k
    assume "k \<in> dom (get m)"
    then obtain v where "(k, v) \<in> set (entries m)"
      using entries_get [OF \<open>wf m\<close>] by auto
    then show "k \<in> fst ` set (entries m)" by force
  qed
  then show ?thesis by (rule finite_subset) simp
qed

lemma tally_as_sum:
  assumes "wf m"
  shows "tally f (entries m) = (\<Sum>k \<in> dom (get m). f k (the (get m k)))"
proof -
  have "tally f (entries m) = (\<Sum>e \<in> set (entries m). f (fst e) (snd e))"
    unfolding tally_def
    using entries_distinct [OF assms]
    by (simp add: sum_list_distinct_conv_sum_set distinct_map case_prod_beta)
  also have "\<dots> = (\<Sum>k \<in> dom (get m). f k (the (get m k)))"
    by (rule sum.reindex_bij_witness [of _ "\<lambda>k. (k, the (get m k))" fst])
       (auto simp: entries_get [OF assms])
  finally show ?thesis .
qed

lemma sum_split_at:
  assumes "wf m"
  shows "(\<Sum>j \<in> dom (get m). g j) = (\<Sum>j \<in> dom (get m) - {k}. g j) + (if k \<in> dom (get m) then g k else 0)"
proof (cases "k \<in> dom (get m)")
  case True
  then show ?thesis using finite_dom [OF assms] by (simp add: sum.remove add.commute)
next
  case False
  then show ?thesis by simp
qed

lemma sum_others_share:
  assumes "wf m"
  shows "(\<Sum>j \<in> dom (get m) - {k}. f j (the (get m j))) + share f k (get m k) = tally f (entries m)"
  using sum_split_at [OF assms, of "\<lambda>j. f j (the (get m j))" k] assms
  by (cases "get m k") (auto simp: tally_as_sum domIff)

text \<open>Saving one entry replaces its share of every sum; removing it takes the share away.\<close>

lemma tally_put:
  assumes "wf m"
  shows "tally f (entries (put k v m)) + share f k (get m k) = tally f (entries m) + f k v"
proof -
  let ?m = "put k v m"
  have "dom (get ?m) - {k} = dom (get m) - {k}"
    by (auto simp: get_put split: if_splits)
  then have "(\<Sum>j \<in> dom (get ?m) - {k}. f j (the (get ?m j)))
      = (\<Sum>j \<in> dom (get m) - {k}. f j (the (get m j)))"
    by (intro sum.cong) (auto simp: get_put)
  then show ?thesis
    using sum_others_share [OF wf_put [OF assms, of k v], of f k, symmetric]
      sum_others_share [OF assms, of f k, symmetric]
    by (simp add: get_put add_ac)
qed

lemma tally_del:
  assumes "wf m"
  shows "tally f (entries (del k m)) + share f k (get m k) = tally f (entries m)"
proof -
  let ?m = "del k m"
  have "dom (get ?m) - {k} = dom (get m) - {k}"
    by (auto simp: get_del split: if_splits)
  then have "(\<Sum>j \<in> dom (get ?m) - {k}. f j (the (get ?m j)))
      = (\<Sum>j \<in> dom (get m) - {k}. f j (the (get m j)))"
    by (intro sum.cong) (auto simp: get_del)
  then show ?thesis
    using sum_others_share [OF wf_del [OF assms, of k], of f k, symmetric]
      sum_others_share [OF assms, of f k, symmetric]
    by (simp add: get_del)
qed

lemma tally_le:
  fixes f :: "'k \<Rightarrow> 'v \<Rightarrow> nat"
  shows "wf m \<Longrightarrow> get m k = Some v \<Longrightarrow> f k v \<le> tally f (entries m)"
  by (rule tally_member) (simp add: entries_get)

lemma tally_pos_ex:
  fixes f :: "'k \<Rightarrow> 'v \<Rightarrow> nat"
  assumes "wf m" and "0 < tally f (entries m)"
  obtains k v where "get m k = Some v" "0 < f k v"
proof -
  have "\<exists>k v. get m k = Some v \<and> 0 < f k v"
  proof (rule ccontr)
    assume "\<nexists>k v. get m k = Some v \<and> 0 < f k v"
    then have "tally f (entries m) = tally (\<lambda>_ _. 0 :: nat) (entries m)"
      by (intro tally_cong) (auto simp: entries_get [OF assms(1)])
    moreover have "tally (\<lambda>_ _. 0 :: nat) es = 0" for es :: "('k \<times> 'v) list"
      by (induction es) auto
    ultimately show False using assms(2) by simp
  qed
  then show thesis using that by blast
qed

end

section \<open>The storage model\<close>

type_synonym ('k, 'v) store = "('k \<times> 'v) list"

definition sget :: "('k, 'v) store \<Rightarrow> 'k \<Rightarrow> 'v option" where
  "sget m k = map_of m k"

fun sput :: "'k::linorder \<Rightarrow> 'v \<Rightarrow> ('k, 'v) store \<Rightarrow> ('k, 'v) store" where
  "sput k v [] = [(k, v)]"
| "sput k v (e # m) =
     (if k < fst e then (k, v) # e # m
      else if k = fst e then (k, v) # m
      else e # sput k v m)"

definition sdel :: "'k \<Rightarrow> ('k, 'v) store \<Rightarrow> ('k, 'v) store" where
  "sdel k m = filter (\<lambda>e. fst e \<noteq> k) m"

definition sorted_store :: "('k::linorder, 'v) store \<Rightarrow> bool" where
  "sorted_store m = sorted_wrt (<) (map fst m)"

text \<open>The entries after a key, and the first \<open>limit\<close> of them: one page of a listing.\<close>

definition safter :: "'k::linorder option \<Rightarrow> ('k, 'v) store \<Rightarrow> ('k, 'v) store" where
  "safter start m = (case start of None \<Rightarrow> m | Some k \<Rightarrow> filter (\<lambda>e. k < fst e) m)"

lemma sget_sput: "sget (sput k v m) k' = (if k' = k then Some v else sget m k')"
  unfolding sget_def by (induction m) auto

lemma sget_sdel: "sget (sdel k m) k' = (if k' = k then None else sget m k')"
  unfolding sget_def sdel_def by (induction m) auto

lemma keys_sput: "fst ` set (sput k v m) = insert k (fst ` set m)"
  by (induction m) auto

lemma sorted_sput: "sorted_store m \<Longrightarrow> sorted_store (sput k v m)"
  unfolding sorted_store_def
proof (induction m)
  case (Cons e m)
  have "\<forall>j \<in> fst ` set (sput k v m). fst e < j" if "fst e < k"
    using Cons.prems that by (auto simp: keys_sput)
  with Cons show ?case by (auto simp: not_less_iff_gr_or_eq intro: less_trans)
qed simp

lemma sorted_sdel: "sorted_store m \<Longrightarrow> sorted_store (sdel k m)"
  unfolding sorted_store_def sdel_def sorted_wrt_map by (rule sorted_wrt_filter)

lemma sorted_store_Nil: "sorted_store []"
  by (simp add: sorted_store_def)

lemma sorted_storeD: "sorted_store m \<Longrightarrow> sorted_wrt (<) (map fst m)"
  by (simp add: sorted_store_def)

interpretation kv: kv_store "[]" sget sput sdel "\<lambda>m. m" sorted_store
proof
  fix m :: "('k::linorder, 'v) store" and k :: 'k and v :: 'v
  assume "sorted_store m"
  then show "(k, v) \<in> set m \<longleftrightarrow> sget m k = Some v"
    unfolding sget_def sorted_store_def by (simp add: strict_sorted_iff)
qed (auto simp: sget_sput sget_sdel sorted_sput sorted_sdel sget_def [of "[]"] sorted_store_Nil
    dest: sorted_storeD)

lemmas store_simps = sget_sput sget_sdel kv.get_empty
lemmas store_wf = kv.wf_empty kv.wf_put kv.wf_del

declare store_simps [simp] store_wf [simp, intro]

end
