(* ===== verification/Digits.thy ===== *)
theory Digits
  imports Prelude
begin

text \<open>
  Numbers as strings of decimal digits: how Rust formats an integer, and the number that such a
  string denotes.
\<close>

fun digits_from :: "nat \<Rightarrow> nat \<Rightarrow> string" where
  "digits_from 0 n = ''''"
| "digits_from (Suc fuel) n =
     (if n < 10 then [char_of (48 + n)] else digits_from fuel (n div 10) @ [char_of (48 + n mod 10)])"

definition digit_value :: "char \<Rightarrow> nat" where
  "digit_value ch = of_char ch - 48"

definition is_digit :: "char \<Rightarrow> bool" where
  "is_digit ch \<longleftrightarrow> 48 \<le> (of_char ch :: nat) \<and> (of_char ch :: nat) \<le> 57"

fun read_digits :: "nat \<Rightarrow> string \<Rightarrow> nat" where
  "read_digits acc [] = acc"
| "read_digits acc (ch # cs) = read_digits (10 * acc + digit_value ch) cs"

lemma read_digits_append: "read_digits acc (xs @ ys) = read_digits (read_digits acc xs) ys"
  by (induction xs arbitrary: acc) auto

lemma digit_value_char: "n < 10 \<Longrightarrow> digit_value (char_of (48 + n)) = n"
  by (simp add: digit_value_def)

lemma is_digit_char: "n < 10 \<Longrightarrow> is_digit (char_of (48 + n))" for n :: nat
  by (simp add: is_digit_def)

lemma read_digits_from: "n < 10 ^ k \<Longrightarrow> read_digits 0 (digits_from k n) = n"
proof (induction k arbitrary: n)
  case (Suc k)
  then have "n div 10 < 10 ^ k" by (simp add: less_mult_imp_div_less)
  with Suc.IH show ?case by (simp add: read_digits_append digit_value_char)
qed simp

lemma digits_from_digits: "ch \<in> set (digits_from k n) \<Longrightarrow> is_digit ch"
proof (induction k arbitrary: n)
  case (Suc k)
  then show ?case by (auto simp: is_digit_char split: if_splits)
qed simp

text \<open>For evaluation on numerals.\<close>

lemma digits_from_rec:
  "digits_from (numeral k) n = (if n < 10 then [char_of (48 + n)]
     else digits_from (numeral k - 1) (n div 10) @ [char_of (48 + n mod 10)])"
  by (metis digits_from.simps(2) numeral_eq_Suc diff_Suc_1 pred_numeral_def)

lemma digits_from_Suc: "digits_from (Suc k) n \<noteq> []"
  by simp

lemma digits_not_blank: "CHR '' '' \<notin> set (digits_from k n)"
  using digits_from_digits [of "CHR '' ''" k n] by (auto simp: is_digit_def)

end
