(* ===== verification/Cosmwasm.thy ===== *)
theory Cosmwasm
  imports Storage Digits
begin

text \<open>
  What the contracts share with the chain and with the packages they are built on
  (\<open>cosmwasm_std\<close>, \<open>cw_utils\<close>, \<open>tg3\<close>, \<open>tg4\<close>, \<open>tg_utils\<close>, \<open>tg_voting_contract\<close>): the plain data
  of those packages, and one record of functions, \<open>cw_lib\<close>, through which the model calls
  them. The packages are not part of the repository, so every definition takes that record as
  an argument; what a theorem needs of it is a named hypothesis (\<open>decimal_law\<close>, \<open>expiry_law\<close>,
  \<open>payment_law\<close>, \<open>ballot_law\<close>, \<open>history_law\<close>, \<open>clock_law\<close>), each stating what the package documents.
  \<open>std_lib\<close> is a record that satisfies all of them, for the witnesses.
\<close>

section \<open>Data\<close>

type_synonym addr = string
type_synonym denom = string

text \<open>A \<open>Timestamp\<close> counts nanoseconds; a \<open>Decimal\<close> counts units of \<open>10^-18\<close>.\<close>

type_synonym timestamp = u64
type_synonym decimal = u128

abbreviation decimal_one :: decimal where "decimal_one \<equiv> 1000000000000000000"

definition percent :: "u128 \<Rightarrow> decimal" where
  "percent n = n * 10000000000000000"

record coin =
  c_denom :: denom
  c_amount :: u128

record block_info =
  b_height :: u64
  b_time :: timestamp

text \<open>Blocks come in order: from one to a later one neither the height nor the time goes back.\<close>

instantiation block_info_ext :: (order) order
begin

definition less_eq_block_info_ext :: "'a block_info_ext \<Rightarrow> 'a block_info_ext \<Rightarrow> bool" where
  "b \<le> b' \<longleftrightarrow> b_height b \<le> b_height b' \<and> b_time b \<le> b_time b' \<and> block_info.more b \<le> block_info.more b'"

definition less_block_info_ext :: "'a block_info_ext \<Rightarrow> 'a block_info_ext \<Rightarrow> bool" where
  "b < b' \<longleftrightarrow> b \<le> b' \<and> \<not> b' \<le> (b :: 'a block_info_ext)"

instance
  by standard (auto simp: less_eq_block_info_ext_def less_block_info_ext_def)

end

lemma block_le_iff:
  "b \<le> b' \<longleftrightarrow> b_height b \<le> b_height b' \<and> b_time b \<le> b_time b'" for b b' :: block_info
  by (simp add: less_eq_block_info_ext_def)

record env =
  e_block :: block_info
  e_contract :: addr

record message_info =
  i_sender :: addr
  i_funds :: "coin list"

datatype expiration = AtHeight u64 | AtTime timestamp | NeverExpires

datatype status = StPending | StOpen | StRejected | StPassed | StExecuted

datatype vote = VYes | VNo | VAbstain | VVeto

record member_info =
  mi_points :: u64
  mi_start_height :: "u64 option"

record ballot =
  bl_voter :: addr
  bl_vote :: vote
  bl_points :: u64

type_synonym ballots = "(u64 \<times> addr, ballot) store"

text \<open>
  The writes made to the member map, oldest first: the height, the address, and the value
  written (\<open>None\<close> for a removal). The snapshot map answers queries about past heights from it.
\<close>

type_synonym history = "(u64 \<times> addr \<times> member_info option) list"

definition last_write :: "history \<Rightarrow> addr \<Rightarrow> member_info option" where
  "last_write hs a = fold (\<lambda>(_, b, v) r. if b = a then v else r) hs None"

definition snapshot_at :: "history \<Rightarrow> addr \<Rightarrow> u64 \<Rightarrow> member_info option" where
  "snapshot_at hs a h =
     (case map fst (filter (\<lambda>(g, b, _). b = a \<and> h \<le> g) hs) of
        [] \<Rightarrow> last_write hs a
      | g # gs \<Rightarrow> last_write (takeWhile (\<lambda>(k, b, _). \<not> (b = a \<and> k = fold min gs g)) hs) a)"

lemma last_write_simps [simp]:
  "last_write [] a = None"
  "last_write (hs @ [(g, b, v)]) a = (if b = a then v else last_write hs a)"
  by (simp_all add: last_write_def)

lemma last_write_cases: "last_write hs a = None \<or> (\<exists>g. (g, a, last_write hs a) \<in> set hs)"
proof (induction hs rule: rev_induct)
  case (snoc e hs)
  then show ?case by (cases e) auto
qed simp

text \<open>A value in the past is one that was written.\<close>

lemma snapshot_at_cases: "snapshot_at hs a h = None \<or> (\<exists>g. (g, a, snapshot_at hs a h) \<in> set hs)"
proof (cases "map fst (filter (\<lambda>(g, b, _). b = a \<and> h \<le> g) hs)")
  case Nil
  then show ?thesis using last_write_cases [of hs a] by (simp add: snapshot_at_def)
next
  case (Cons g gs)
  let ?past = "takeWhile (\<lambda>(k, b, _). \<not> (b = a \<and> k = fold min gs g)) hs"
  have "snapshot_at hs a h = last_write ?past a" using Cons by (simp add: snapshot_at_def)
  then show ?thesis using last_write_cases [of ?past a] by (metis set_takeWhileD)
qed

text \<open>Once an address has been written at a height, its value at that height is settled.\<close>

lemma snapshot_at_settled:
  assumes "(h, a, v) \<in> set hs"
  shows "snapshot_at (hs @ ws) a h = snapshot_at hs a h"
proof -
  have at: "snapshot_at (hs @ zs) a h = last_write (takeWhile (\<lambda>(k, b, _). \<not> (b = a \<and> k = h)) hs) a" for zs
  proof -
    define late where "late = map fst (filter (\<lambda>(g, b, _). b = a \<and> h \<le> g) (hs @ zs))"
    have mem: "h \<in> set late" and ge: "\<forall>g \<in> set late. h \<le> g" using assms by (force simp: late_def)+
    then obtain g gs where gs: "late = g # gs" by (cases late) auto
    have "Min (set late) = h" using mem ge by (intro Min_eqI) auto
    then have "fold min gs g = h" unfolding gs Min.set_eq_fold .
    moreover have "takeWhile (\<lambda>(k, b, _). \<not> (b = a \<and> k = h)) (hs @ zs) = takeWhile (\<lambda>(k, b, _). \<not> (b = a \<and> k = h)) hs"
      using assms by (intro takeWhile_append1) auto
    ultimately show ?thesis unfolding snapshot_at_def late_def [symmetric] gs by simp
  qed
  from at [of ws] at [of "[]"] show ?thesis by simp
qed

datatype std_error = NotFound | GenericErr string | Overflow

text \<open>The outcome of a raw contract-info query, as the code takes it apart.\<close>

datatype system_error = NoSuchContract | OtherSystemError string
datatype contract_result = ContractErr string | ContractOk
datatype system_result = SystemErr system_error | SystemOk contract_result

text \<open>What a response carries: messages to the chain, attributes and events.\<close>

datatype attr_val =
  AStr string | AU64 u64 | AU128 u128 | ADec decimal | ABool bool | AStatus status
| ANat nat | AStrs "string list" | ATime timestamp

type_synonym attr = "string \<times> attr_val"

record event =
  ev_type :: string
  ev_attrs :: "attr list"

datatype bank_msg = BankSend addr "coin list" | BankBurn "coin list"

text \<open>How many coins a message moves.\<close>

definition coins_amount :: "coin list \<Rightarrow> nat" where
  "coins_amount cs = sum_list (map (\<lambda>c. unat (c_amount c)) cs)"

fun msg_amount :: "bank_msg \<Rightarrow> nat" where
  "msg_amount (BankSend _ cs) = coins_amount cs"
| "msg_amount (BankBurn cs) = coins_amount cs"

definition sent :: "bank_msg list \<Rightarrow> nat" where
  "sent msgs = sum_list (map msg_amount msgs)"

lemma sent_simps [simp]:
  "sent [] = 0" "sent (m # ms) = msg_amount m + sent ms" "sent (ms @ ns) = sent ms + sent ns"
  "coins_amount [c] = unat (c_amount c)" "coins_amount [] = 0"
  by (simp_all add: sent_def coins_amount_def)

record 'm response =
  r_messages :: "'m list"
  r_attrs :: "attr list"
  r_events :: "event list"

definition new_response :: "'m response" where
  "new_response = \<lparr>r_messages = [], r_attrs = [], r_events = []\<rparr>"

definition add_attr :: "string \<Rightarrow> attr_val \<Rightarrow> 'm response \<Rightarrow> 'm response" where
  "add_attr k v r = r\<lparr>r_attrs := r_attrs r @ [(k, v)]\<rparr>"

definition add_attrs :: "attr list \<Rightarrow> 'm response \<Rightarrow> 'm response" where
  "add_attrs as r = r\<lparr>r_attrs := r_attrs r @ as\<rparr>"

definition add_event :: "event \<Rightarrow> 'm response \<Rightarrow> 'm response" where
  "add_event e r = r\<lparr>r_events := r_events r @ [e]\<rparr>"

definition add_events :: "event list \<Rightarrow> 'm response \<Rightarrow> 'm response" where
  "add_events es r = r\<lparr>r_events := r_events r @ es\<rparr>"

definition add_message :: "'m \<Rightarrow> 'm response \<Rightarrow> 'm response" where
  "add_message m r = r\<lparr>r_messages := r_messages r @ [m]\<rparr>"

lemma response_messages [simp]:
  "r_messages new_response = []"
  "r_messages (add_attr k v r) = r_messages r"
  "r_messages (add_attrs as r) = r_messages r"
  "r_messages (add_event e r) = r_messages r"
  "r_messages (add_events es r) = r_messages r"
  "r_messages (add_message m r) = r_messages r @ [m]"
  by (simp_all add: new_response_def add_attr_def add_attrs_def add_event_def add_events_def
      add_message_def)

lemmas response_defs =
  new_response_def add_attr_def add_attrs_def add_event_def add_events_def add_message_def

definition show_u64 :: "u64 \<Rightarrow> string" where
  "show_u64 n = digits_from 20 (unat n)"

section \<open>The packages, as parameters\<close>

record cw_lib =
  l_addr_validate :: "string \<Rightarrow> std_error + addr"
  l_is_expired :: "expiration \<Rightarrow> block_info \<Rightarrow> bool"
  l_seconds :: "timestamp \<Rightarrow> u64"
  l_from_seconds :: "u64 \<Rightarrow> timestamp"
  l_plus_seconds :: "timestamp \<Rightarrow> u64 \<Rightarrow> timestamp"
  l_mul_decimal :: "u128 \<Rightarrow> decimal \<Rightarrow> u128 option"
  l_must_pay :: "message_info \<Rightarrow> denom \<Rightarrow> string + u128"
  l_nonpayable :: "message_info \<Rightarrow> string + unit"
  l_member_key :: "string \<Rightarrow> string"
  l_at_height :: "history \<Rightarrow> addr \<Rightarrow> u64 \<Rightarrow> member_info option"
  l_create_ballot :: "ballots \<Rightarrow> addr \<Rightarrow> u64 \<Rightarrow> u64 \<Rightarrow> vote \<Rightarrow> string + ballots"

text \<open>Queries to the chain; their answers are those of the moment of the call.\<close>

record querier =
  q_contract_info :: "addr \<Rightarrow> system_result"
  q_wasm_raw :: "addr \<Rightarrow> string \<Rightarrow> std_error + string option"
  q_balance :: "addr \<Rightarrow> denom \<Rightarrow> std_error + coin"

text \<open>\<open>Uint128 * Decimal\<close> rounds down, and aborts when the result does not fit.\<close>

definition decimal_law :: "cw_lib \<Rightarrow> bool" where
  "decimal_law L \<longleftrightarrow> (\<forall>v d. let r = unat v * unat d div 10 ^ 18 in
     l_mul_decimal L v d = (if r < 2 ^ 128 then Some (of_nat r) else None))"

text \<open>An expiration is reached at its height or time, not only after it.\<close>

definition expiry_law :: "cw_lib \<Rightarrow> bool" where
  "expiry_law L \<longleftrightarrow> (\<forall>b. (\<forall>h. l_is_expired L (AtHeight h) b \<longleftrightarrow> h \<le> b_height b)
     \<and> (\<forall>t. l_is_expired L (AtTime t) b \<longleftrightarrow> t \<le> b_time b)
     \<and> \<not> l_is_expired L NeverExpires b)"

text \<open>
  \<open>must_pay\<close> accepts exactly one nonzero coin of the denomination and returns its amount;
  \<open>nonpayable\<close> accepts no coins.
\<close>

definition payment_law :: "cw_lib \<Rightarrow> bool" where
  "payment_law L \<longleftrightarrow> (\<forall>i.
     (\<forall>d a. l_must_pay L i d = Inr a \<longleftrightarrow>
        (a \<noteq> 0 \<and> i_funds i = [\<lparr>c_denom = d, c_amount = a\<rparr>]))
     \<and> (l_nonpayable L i = Inr () \<longleftrightarrow> i_funds i = []))"

text \<open>\<open>create_ballot\<close> records the vote unless the voter has one on this proposal already.\<close>

definition ballot_law :: "cw_lib \<Rightarrow> bool" where
  "ballot_law L \<longleftrightarrow> (\<forall>bs a i p v bs'. l_create_ballot L bs a i p v = Inr bs' \<longleftrightarrow>
     (sget bs (i, a) = None
      \<and> bs' = sput (i, a) \<lparr>bl_voter = a, bl_vote = v, bl_points = p\<rparr> bs))"

text \<open>
  The snapshot map answers from its log of changes, in which each height has the value that an
  address had before the first write at that height: it returns the entry of the lowest height
  not below the one asked for, and the present value when there is none.
\<close>

definition history_law :: "cw_lib \<Rightarrow> bool" where
  "history_law L \<longleftrightarrow> (\<forall>hs a h. l_at_height L hs a h = snapshot_at hs a h)"

text \<open>Timestamps and seconds convert by the factor \<open>10^9\<close>, rounding down.\<close>

definition clock_law :: "cw_lib \<Rightarrow> bool" where
  "clock_law L \<longleftrightarrow> (\<forall>t s. l_seconds L t = t div 1000000000
     \<and> l_from_seconds L s = s * 1000000000
     \<and> l_plus_seconds L t s = t + s * 1000000000)"

definition std_lib :: cw_lib where
  "std_lib = \<lparr>
     l_addr_validate = (\<lambda>s. if s = '''' then Inl (GenericErr ''empty address'') else Inr s),
     l_is_expired = (\<lambda>e b. case e of AtHeight h \<Rightarrow> h \<le> b_height b | AtTime t \<Rightarrow> t \<le> b_time b
        | NeverExpires \<Rightarrow> False),
     l_seconds = (\<lambda>t. t div 1000000000),
     l_from_seconds = (\<lambda>s. s * 1000000000),
     l_plus_seconds = (\<lambda>t s. t + s * 1000000000),
     l_mul_decimal = (\<lambda>v d. let r = unat v * unat d div 10 ^ 18 in
        if r < 2 ^ 128 then Some (of_nat r) else None),
     l_must_pay = (\<lambda>i d. case i_funds i of
          [c] \<Rightarrow> (if c_denom c = d \<and> c_amount c \<noteq> 0 then Inr (c_amount c) else Inl ''wrong coin'')
        | _ \<Rightarrow> Inl ''one coin expected''),
     l_nonpayable = (\<lambda>i. if i_funds i = [] then Inr () else Inl ''no coins expected''),
     l_member_key = (\<lambda>a. ''members'' @ a),
     l_at_height = snapshot_at,
     l_create_ballot = (\<lambda>bs a i p v. if sget bs (i, a) = None
        then Inr (sput (i, a) \<lparr>bl_voter = a, bl_vote = v, bl_points = p\<rparr> bs)
        else Inl ''already voted'')\<rparr>"

lemma std_decimal_law [simp]: "decimal_law std_lib"
  by (simp add: decimal_law_def std_lib_def Let_def)

lemma std_expiry_law [simp]: "expiry_law std_lib"
  by (simp add: expiry_law_def std_lib_def)

lemma std_payment_law [simp]: "payment_law std_lib"
proof -
  have "c = \<lparr>c_denom = d, c_amount = a\<rparr> \<longleftrightarrow> c_denom c = d \<and> c_amount c = a" for c :: coin and d a
    by (cases c) auto
  then show ?thesis
    by (auto simp: payment_law_def std_lib_def split: list.splits)
qed

lemma std_ballot_law [simp]: "ballot_law std_lib"
  by (auto simp: ballot_law_def std_lib_def)

lemma std_history_law [simp]: "history_law std_lib"
  by (simp add: history_law_def std_lib_def)

lemma std_clock_law [simp]: "clock_law std_lib"
  by (simp add: clock_law_def std_lib_def)

lemma must_pay_amount:
  "payment_law L \<Longrightarrow> l_must_pay L i d = Inr a \<Longrightarrow> a \<noteq> 0 \<and> i_funds i = [\<lparr>c_denom = d, c_amount = a\<rparr>]"
  by (simp add: payment_law_def)

lemma create_ballot_Inr:
  "ballot_law L \<Longrightarrow> l_create_ballot L bs a i p v = Inr bs' \<Longrightarrow>
     sget bs (i, a) = None \<and> bs' = sput (i, a) \<lparr>bl_voter = a, bl_vote = v, bl_points = p\<rparr> bs"
  unfolding ballot_law_def by blast

lemma mul_decimal_Some:
  "decimal_law L \<Longrightarrow> l_mul_decimal L v d = Some r \<longleftrightarrow> unat r = unat v * unat d div 10 ^ 18"
proof -
  assume "decimal_law L"
  then have eq: "l_mul_decimal L v d = (if unat v * unat d div 10 ^ 18 < 2 ^ 128
      then Some (of_nat (unat v * unat d div 10 ^ 18)) else None)"
    by (simp add: decimal_law_def Let_def)
  show ?thesis
  proof (cases "unat v * unat d div 10 ^ 18 < 2 ^ 128")
    case True
    then show ?thesis by (auto simp: eq unat_of_nat word_unat_eq_iff)
  next
    case False
    moreover have "unat r < 2 ^ 128" by (rule unat_u128)
    ultimately show ?thesis by (auto simp: eq)
  qed
qed

lemma mul_decimal_total:
  assumes "decimal_law L" and "unat v * unat d div 10 ^ 18 < 2 ^ 128"
  obtains r where "l_mul_decimal L v d = Some r" "unat r = unat v * unat d div 10 ^ 18"
  using assms by (auto simp: decimal_law_def Let_def unat_of_nat)

lemma mul_decimal_le_one:
  assumes "decimal_law L" and "d \<le> decimal_one" and "l_mul_decimal L v d = Some r"
  shows "r \<le> v"
proof -
  have "unat d \<le> 10 ^ 18" using assms(2) by (simp add: word_le_nat_alt)
  then have "unat v * unat d div 10 ^ 18 \<le> unat v * 10 ^ 18 div 10 ^ 18"
    by (intro div_le_mono mult_le_mono2)
  moreover have "unat r = unat v * unat d div 10 ^ 18"
    using assms mul_decimal_Some by blast
  ultimately show ?thesis by (simp add: word_le_nat_alt)
qed

end
