(* ===== verification/Voting_Math.thy ===== *)
theory Voting_Math
  imports Cosmwasm
begin

text \<open>
  The arithmetic of tallying, shared by every contract that counts votes. \<open>quota p d\<close> is the
  number of votes that make up the share \<open>d\<close> (in units of \<open>10^-18\<close>) of \<open>p\<close> points, rounded up
  after a fixed-point product with nine digits, which is how the code computes it.
  \<open>tally_passes\<close> is the abstract decision rule on natural numbers that the \<open>is_passed\<close>
  functions are proved to implement; that an early decision cannot be overturned by votes
  still to come is a theorem about this rule. The locale \<open>quota_rule\<close> is what a contract's
  own \<open>votes_needed\<close> promises to its clients.
\<close>

section \<open>Quotas\<close>

definition quota :: "nat \<Rightarrow> nat \<Rightarrow> nat" where
  "quota p d = (p * d div 10 ^ 9 + (10 ^ 9 - 1)) div 10 ^ 9"

lemma div_up_le_iff: "0 < c \<Longrightarrow> (x + (c - 1)) div c \<le> n \<longleftrightarrow> x \<le> n * (c :: nat)"
proof -
  assume c: "0 < c"
  have "(x + (c - 1)) div c \<le> n \<longleftrightarrow> x + (c - 1) < Suc n * c"
    unfolding div_less_iff_less_mult [OF c, symmetric] by (rule less_Suc_eq_le [symmetric])
  also have "\<dots> \<longleftrightarrow> x \<le> n * c" using c by auto
  finally show ?thesis .
qed

lemma quota_le_iff: "quota p d \<le> n \<longleftrightarrow> p * d div 10 ^ 9 \<le> n * 10 ^ 9"
  unfolding quota_def by (rule div_up_le_iff) simp

lemma quota_mono: "p \<le> p' \<Longrightarrow> d \<le> d' \<Longrightarrow> quota p d \<le> quota p' d'"
  unfolding quota_def by (intro div_le_mono add_right_mono mult_le_mono)

lemma quota_le: "d \<le> 10 ^ 18 \<Longrightarrow> quota p d \<le> p"
proof -
  assume "d \<le> 10 ^ 18"
  then have "p * d div 10 ^ 9 \<le> p * 10 ^ 18 div 10 ^ 9"
    by (intro div_le_mono mult_le_mono2)
  then show ?thesis by (simp add: quota_le_iff)
qed

lemma quota_zero [simp]: "quota 0 d = 0"
  by (simp add: quota_def)

lemma quota_pos: "0 < p \<Longrightarrow> 10 ^ 9 \<le> d \<Longrightarrow> 0 < quota p d"
proof -
  assume "0 < p" "10 ^ 9 \<le> d"
  then have "1 * 10 ^ 9 \<le> p * d" by (intro mult_le_mono) auto
  then have "1 \<le> p * d div 10 ^ 9" by (simp add: less_eq_div_iff_mult_less_eq)
  then have "\<not> quota p d \<le> 0" unfolding quota_le_iff by simp
  then show ?thesis by simp
qed

text \<open>
  The exact quota is the least number of votes that is at least the share \<open>p * d / 10^18\<close>.
  The fixed-point product can fall short of it by one vote, only when the share misses an
  integer by less than \<open>10^-9\<close>; a percentage with at most nine digits is exact.
\<close>

definition exact_quota :: "nat \<Rightarrow> nat \<Rightarrow> nat" where
  "exact_quota p d = (p * d + (10 ^ 18 - 1)) div 10 ^ 18"

lemma exact_quota_le_iff: "exact_quota p d \<le> n \<longleftrightarrow> p * d \<le> n * 10 ^ 18"
  unfolding exact_quota_def by (rule div_up_le_iff) simp

lemma quota_le_exact: "quota p d \<le> exact_quota p d"
proof -
  have "p * d \<le> exact_quota p d * 10 ^ 18"
    using exact_quota_le_iff [of p d "exact_quota p d"] by simp
  then have "p * d div 10 ^ 9 \<le> exact_quota p d * 10 ^ 18 div 10 ^ 9"
    by (rule div_le_mono)
  then show ?thesis by (simp add: quota_le_iff)
qed

lemma exact_quota_le_Suc: "exact_quota p d \<le> Suc (quota p d)"
proof -
  have "p * d div 10 ^ 9 \<le> quota p d * 10 ^ 9"
    using quota_le_iff [of p d "quota p d"] by simp
  then have "p * d < (quota p d * 10 ^ 9 + 1) * 10 ^ 9"
    by (simp add: div_less_iff_less_mult [symmetric] less_Suc_eq_le)
  also have "\<dots> \<le> Suc (quota p d) * 10 ^ 18" by (simp add: algebra_simps)
  finally show ?thesis by (simp add: exact_quota_le_iff)
qed

lemma quota_exact_nine_digits: "10 ^ 9 dvd d \<Longrightarrow> quota p d = exact_quota p d"
proof (rule antisym [OF quota_le_exact])
  assume "10 ^ 9 dvd d"
  then obtain k where d: "d = k * 10 ^ 9" by (auto elim: dvdE)
  have "p * d div 10 ^ 9 \<le> quota p d * 10 ^ 9"
    using quota_le_iff [of p d "quota p d"] by simp
  then have "p * k \<le> quota p d * 10 ^ 9" by (simp add: d mult.assoc [symmetric])
  then have "p * k * 10 ^ 9 \<le> quota p d * 10 ^ 9 * 10 ^ 9" by (rule mult_le_mono1)
  then show "exact_quota p d \<le> quota p d"
    by (simp add: exact_quota_le_iff d mult.assoc [symmetric])
qed

text \<open>A share and its complement: more than the complement's quota against leaves too few in favour.\<close>

lemma quota_complement:
  assumes "d \<le> 10 ^ 18" and "y + n \<le> p" and "quota p (10 ^ 18 - d) < n"
  shows "y < quota p d"
proof (rule ccontr)
  assume "\<not> y < quota p d"
  then have y: "p * d div 10 ^ 9 \<le> y * 10 ^ 9" using quota_le_iff [of p d y] by linarith
  have n: "p * (10 ^ 18 - d) div 10 ^ 9 \<le> (n - 1) * 10 ^ 9"
    using assms(3) quota_le_iff [of p "10 ^ 18 - d" "n - 1"] by linarith
  let ?a = "p * d" and ?b = "p * (10 ^ 18 - d)"
  have sum: "?a + ?b = p * 10 ^ 18"
    using assms(1) by (simp add: distrib_left [symmetric])
  have "?a < (y * 10 ^ 9 + 1) * 10 ^ 9" and "?b < ((n - 1) * 10 ^ 9 + 1) * 10 ^ 9"
    using y n by (simp_all add: div_less_iff_less_mult [symmetric] less_Suc_eq_le)
  with sum have "p * 10 ^ 18 < (y + (n - 1)) * 10 ^ 18 + 2 * 10 ^ 9"
    by (simp add: algebra_simps)
  moreover have "(y + (n - 1)) * 10 ^ 18 + 10 ^ 18 \<le> p * 10 ^ 18"
  proof -
    have "Suc (y + (n - 1)) \<le> p" using assms(2,3) by linarith
    then have "Suc (y + (n - 1)) * 10 ^ 18 \<le> p * 10 ^ 18" by (rule mult_le_mono1)
    then show ?thesis by simp
  qed
  ultimately have "(y + (n - 1)) * 10 ^ 18 + 10 ^ 18 < (y + (n - 1)) * 10 ^ 18 + 2 * 10 ^ 9"
    by (rule le_less_trans [rotated])
  then show False unfolding add_less_cancel_left by simp
qed

section \<open>The decision rule\<close>

record tally_nat =
  t_yes :: nat
  t_no :: nat
  t_abstain :: nat
  t_veto :: nat

definition t_total :: "tally_nat \<Rightarrow> nat" where
  "t_total t = t_yes t + t_no t + t_abstain t + t_veto t"

text \<open>More votes have come in, nobody has changed one, and no more than \<open>p\<close> points can vote.\<close>

definition t_extends :: "nat \<Rightarrow> tally_nat \<Rightarrow> tally_nat \<Rightarrow> bool" where
  "t_extends p t t' \<longleftrightarrow> t_yes t \<le> t_yes t' \<and> t_no t \<le> t_no t' \<and> t_abstain t \<le> t_abstain t'
     \<and> t_veto t \<le> t_veto t' \<and> t_total t' \<le> p"

text \<open>
  Quorum \<open>q\<close> of all points \<open>p\<close> must have voted. At the end, \<open>thr\<close> of the opinions voted must be
  yes; before the end, \<open>thr\<close> of all the opinions there can still be.
\<close>

definition tally_passes :: "bool \<Rightarrow> nat \<Rightarrow> nat \<Rightarrow> nat \<Rightarrow> tally_nat \<Rightarrow> bool" where
  "tally_passes ended p q thr t \<longleftrightarrow> quota p q \<le> t_total t \<and>
     quota ((if ended then t_total t else p) - t_abstain t) thr \<le> t_yes t"

text \<open>Early approval is final: however the remaining points vote, the tally still passes.\<close>

lemma early_pass_final:
  assumes "tally_passes False p q thr t" and "t_extends p t t'"
  shows "tally_passes ended p q thr t'"
proof -
  have "quota p q \<le> t_total t'"
    using assms by (auto simp: tally_passes_def t_extends_def t_total_def)
  moreover have "quota ((if ended then t_total t' else p) - t_abstain t') thr \<le> t_yes t'"
  proof -
    have "(if ended then t_total t' else p) - t_abstain t' \<le> p - t_abstain t"
      using assms(2) by (auto simp: t_extends_def)
    then have "quota ((if ended then t_total t' else p) - t_abstain t') thr
        \<le> quota (p - t_abstain t) thr"
      by (rule quota_mono) simp
    then show ?thesis using assms by (simp add: tally_passes_def t_extends_def)
  qed
  ultimately show ?thesis by (simp add: tally_passes_def)
qed

text \<open>
  Early approval is also not withheld: a tally that does not pass early has a continuation
  that fails at the end (everyone else votes no, or nobody else votes).
\<close>

lemma not_early_pass_can_fail:
  assumes "\<not> tally_passes False p q thr t" and "t_total t \<le> p"
  shows "\<exists>t'. t_extends p t t' \<and> \<not> tally_passes True p q thr t'"
proof (cases "quota p q \<le> t_total t")
  case False
  then have "\<not> tally_passes True p q thr t" by (simp add: tally_passes_def)
  moreover have "t_extends p t t" using assms(2) by (simp add: t_extends_def)
  ultimately show ?thesis by blast
next
  case True
  define t' where "t' = t\<lparr>t_no := t_no t + (p - t_total t)\<rparr>"
  have tot: "t_total t' = p" using assms(2) by (simp add: t'_def t_total_def)
  then have "t_extends p t t'" by (simp add: t_extends_def t'_def)
  moreover have "\<not> tally_passes True p q thr t'"
    using assms(1) True by (simp add: tally_passes_def tot) (simp add: t'_def)
  ultimately show ?thesis by blast
qed

section \<open>The computation on machine words\<close>

text \<open>
  Every contract computes the quota with the same \<open>u128\<close> arithmetic: nine more digits, the
  product with the percentage, and a division that rounds up. Nothing overflows.
\<close>

lemma quota_word:
  assumes "decimal_law L" and "d \<le> decimal_one"
  shows "\<exists>a. l_mul_decimal L (1000000000 * ucast (p :: u64)) d = Some a
    \<and> unat (ucast ((a + 1000000000 - 1) div 1000000000) :: u64) = quota (unat p) (unat d)"
proof -
  let ?v = "1000000000 * ucast p :: u128"
  have p: "unat p < 2 ^ 64" by (rule unat_u64)
  have d: "unat d \<le> 10 ^ 18" using assms(2) by (simp add: word_le_nat_alt)
  have up: "unat (ucast p :: u128) = unat p" by (rule unat_ucast_up) simp
  have v: "unat ?v = 10 ^ 9 * unat p"
    using p by (simp add: unat_word_ariths up)
  have "10 ^ 9 * unat p * unat d div 10 ^ 18 = (unat p * unat d) * 10 ^ 9 div (10 ^ 9 * 10 ^ 9)"
    by (simp add: mult_ac)
  also have "\<dots> = unat p * unat d div 10 ^ 9" by (subst div_mult_mult2) simp_all
  finally have r: "unat ?v * unat d div 10 ^ 18 = unat p * unat d div 10 ^ 9" by (simp add: v)
  have "unat p * unat d div 10 ^ 9 \<le> unat p * 10 ^ 18 div 10 ^ 9"
    using d by (intro div_le_mono mult_le_mono2)
  then have small: "unat p * unat d div 10 ^ 9 \<le> unat p * 10 ^ 9" by simp
  have fits: "unat p * unat d div 10 ^ 9 < 2 ^ 100"
  proof -
    have "unat p * 10 ^ 9 < 2 ^ 64 * 10 ^ 9" using p by simp
    with small show ?thesis by simp
  qed
  then obtain a where a: "l_mul_decimal L ?v d = Some a" "unat a = unat p * unat d div 10 ^ 9"
    using mul_decimal_total [OF assms(1), of ?v d] r by auto
  have "unat (999999999 + a) = 999999999 + unat a"
    using a(2) fits by (simp add: unat_word_ariths)
  moreover have "a + 1000000000 - 1 = 999999999 + a" by simp
  moreover have "unat (1000000000 :: u128) = 1000000000" by simp
  ultimately have q: "unat ((a + 1000000000 - 1) div 1000000000) = quota (unat p) (unat d)"
    unfolding unat_div quota_def a(2) by (simp only:) (simp add: ac_simps)
  have "quota (unat p) (unat d) < 2 ^ 64" using quota_le [OF d, of "unat p"] p by linarith
  with q have "unat ((a + 1000000000 - 1) div 1000000000) < 2 ^ LENGTH(64)"
    by simp
  then have "unat (ucast ((a + 1000000000 - 1) div 1000000000) :: u64) = quota (unat p) (unat d)"
    unfolding q [symmetric] by (rule unat_ucast_fits)
  then show ?thesis using a(1) by blast
qed

lemma sum4_unat:
  fixes a b c d p :: u64
  assumes "unat a + unat b + unat c + unat d \<le> unat p"
  shows "unat (a + b + c + d) = unat a + unat b + unat c + unat d"
proof -
  have "unat p < 2 ^ 64" by (rule unat_u64)
  then have "unat a + unat b + unat c + unat d < 2 ^ 64" using assms by linarith
  then show ?thesis by (simp add: unat_word_ariths)
qed

section \<open>What a contract's vote count promises\<close>

locale quota_rule =
  fixes needed :: "cw_lib \<Rightarrow> u64 \<Rightarrow> decimal \<Rightarrow> 'e + u64"
  assumes needed_quota: "decimal_law L \<Longrightarrow> d \<le> decimal_one \<Longrightarrow>
    \<exists>n. needed L p d = Inr n \<and> unat n = quota (unat p) (unat d)"
begin

lemma needed_Inr:
  "decimal_law L \<Longrightarrow> d \<le> decimal_one \<Longrightarrow> needed L p d = Inr n \<Longrightarrow> unat n = quota (unat p) (unat d)"
  using needed_quota [of L d p] by auto

lemma needed_le:
  assumes "decimal_law L" "d \<le> decimal_one" "needed L p d = Inr n"
  shows "n \<le> p"
  using needed_Inr [OF assms] quota_le [of "unat d" "unat p"] assms(2)
  by (simp add: word_le_nat_alt)

lemma needed_mono:
  assumes "decimal_law L" "d' \<le> decimal_one" "p \<le> p'" "d \<le> d'"
    and "needed L p d = Inr n" "needed L p' d' = Inr n'"
  shows "n \<le> n'"
proof -
  have "d \<le> decimal_one" using assms(2,4) by (rule order_trans [rotated])
  then show ?thesis
    using assms needed_Inr [of L d p n] needed_Inr [of L d' p' n']
    by (simp add: word_le_nat_alt quota_mono)
qed

text \<open>The count is the exact one or one vote below it.\<close>

lemma needed_near_exact:
  assumes "decimal_law L" "d \<le> decimal_one" "needed L p d = Inr n"
  shows "unat n \<le> exact_quota (unat p) (unat d) \<and> exact_quota (unat p) (unat d) \<le> Suc (unat n)"
  using needed_Inr [OF assms] quota_le_exact exact_quota_le_Suc by simp

end

end
