(* ===== verification/TC_State.thy ===== *)
theory TC_State
  imports Voting_Math
begin

text \<open>
  The data of the trusted-circle contract (\<open>contracts/tgrade-trusted-circle/src/state.rs\<close> and
  \<open>error.rs\<close>) and the functions on that data that do not touch storage: validation of the
  rules and of the circle, adjustments, vote counting, the status of a proposal.
\<close>

section \<open>Members\<close>

datatype member_status =
  NonVoting
| Pending u64
| PendingPaid u64
| Voting
| Leaving u64

definition is_pending_paid :: "member_status \<Rightarrow> bool" where
  "is_pending_paid st = (case st of PendingPaid _ \<Rightarrow> True | _ \<Rightarrow> False)"

definition is_voting :: "member_status \<Rightarrow> bool" where
  "is_voting st = (case st of Voting \<Rightarrow> True | _ \<Rightarrow> False)"

lemma is_pending_paid_iff: "is_pending_paid st \<longleftrightarrow> (\<exists>p. st = PendingPaid p)"
  by (cases st) (auto simp: is_pending_paid_def)

lemma is_voting_iff [simp]: "is_voting st \<longleftrightarrow> st = Voting"
  by (cases st) (auto simp: is_voting_def)

fun fmt_member_status :: "member_status \<Rightarrow> string" where
  "fmt_member_status NonVoting = ''Non-Voting''"
| "fmt_member_status (Pending _) = ''Pending''"
| "fmt_member_status (PendingPaid _) = ''Pending, Paid''"
| "fmt_member_status Voting = ''Voting''"
| "fmt_member_status (Leaving _) = ''Leaving''"

record escrow_status =
  es_paid :: u128
  es_status :: member_status

definition escrow_non_voting :: escrow_status where
  "escrow_non_voting = \<lparr>es_paid = 0, es_status = NonVoting\<rparr>"

definition escrow_pending_for :: "u64 \<Rightarrow> escrow_status" where
  "escrow_pending_for proposal_id = \<lparr>es_paid = 0, es_status = Pending proposal_id\<rparr>"

section \<open>Errors\<close>

text \<open>
  The contract's errors, in the order of the source. \<open>Panic\<close> is not one of them: it stands
  for an aborted execution (an overflow of a coin amount, a division by zero).
\<close>

datatype tc_error =
  Std std_error
| Unauthorized string
| EmptyName
| LongName
| InvalidQuorum decimal
| InvalidThreshold decimal
| InvalidVotingPeriod u32
| InvalidEscrow u128
| InvalidPendingEscrow u128
| NoFunds
| InsufficientFunds u128
| Payment string
| PendingEscrowAlreadySet
| VotingMember string
| NotAMember
| NoMembers
| InvalidStatus member_status
| CannotClaimYet u64
| NotOpen
| Expired
| NotExpired
| AlreadyVoted
| AlreadyUsedProposal u64
| NoPunishments
| InvalidSlashingPercentage addr decimal
| PunishInvalidMemberStatus addr member_status
| EmptyDistributionList
| WrongExecuteStatus
| WrongCloseStatus
| NotAContract string
| NotAHuman string
| FromUtf8
| DeniedAddress string addr
| FrozenRules
| NoMembersToDistributeTo
| VotingContract string
| Panic

text \<open>\<open>From<OverflowError>\<close>: an overflow reported by a checked operation is a standard error.\<close>

definition of_overflow :: "'a option \<Rightarrow> tc_error + 'a" where
  "of_overflow r = of_opt (Std Overflow) r"

definition or_panic :: "'a option \<Rightarrow> tc_error + 'a" where
  "or_panic r = of_opt Panic r"

definition load :: "'a option \<Rightarrow> tc_error + 'a" where
  "load r = of_opt (Std NotFound) r"

lemma opt_results [simp]:
  "of_overflow r = Inr x \<longleftrightarrow> r = Some x"
  "or_panic r = Inr x \<longleftrightarrow> r = Some x"
  "load r = Inr x \<longleftrightarrow> r = Some x"
  "load (Some x) = Inr x"
  "or_panic (Some x) = Inr x"
  "of_overflow (Some x) = Inr x"
  by (simp_all add: of_overflow_def or_panic_def load_def)

lemmas opt_result_defs = of_overflow_def or_panic_def load_def

section \<open>Voting rules\<close>

record voting_rules =
  vr_voting_period :: u32
  vr_quorum :: decimal
  vr_threshold :: decimal
  vr_allow_end_early :: bool

definition validate_rules :: "voting_rules \<Rightarrow> tc_error + unit" where
  "validate_rules r =
     (let zero = percent 0; hundred = percent 100 in
      if vr_quorum r = zero \<or> hundred < vr_quorum r then Inl (InvalidQuorum (vr_quorum r))
      else if vr_threshold r < percent 50 \<or> hundred < vr_threshold r
        then Inl (InvalidThreshold (vr_threshold r))
      else if vr_voting_period r = 0 \<or> 365 < vr_voting_period r
        then Inl (InvalidVotingPeriod (vr_voting_period r))
      else Inr ())"

definition voting_period_secs :: "voting_rules \<Rightarrow> u64" where
  "voting_period_secs r = ucast (vr_voting_period r) * 86400"

section \<open>The circle\<close>

abbreviation one_tgd :: u128 where "one_tgd \<equiv> 1000000"

record pending_escrow =
  pe_proposal_id :: u64
  pe_amount :: u128
  pe_grace_ends_at :: u64

record trusted_circle =
  tc_name :: string
  tc_denom :: denom
  tc_escrow_amount :: u128
  tc_escrow_pending :: "pending_escrow option"
  tc_rules :: voting_rules
  tc_deny_list :: "addr option"
  tc_edit_disabled :: bool

record adjustments =
  ad_name :: "string option"
  ad_escrow_amount :: "u128 option"
  ad_voting_period :: "u32 option"
  ad_quorum :: "decimal option"
  ad_threshold :: "decimal option"
  ad_allow_end_early :: "bool option"
  ad_edit_disabled :: "bool option"

text \<open>
  \<open>name.trim().is_empty()\<close>: only white space (the Unicode property, on the UTF-8 bytes of the
  name) is in the string.
\<close>

fun blank_bytes :: "nat list \<Rightarrow> bool" where
  "blank_bytes [] = True"
| "blank_bytes (a # r) =
     (if a = 32 \<or> 9 \<le> a \<and> a \<le> 13 then blank_bytes r
      else case r of
        [] \<Rightarrow> False
      | b # r' \<Rightarrow>
          if a = 194 \<and> (b = 133 \<or> b = 160) then blank_bytes r'
          else (case r' of
              [] \<Rightarrow> False
            | c # r'' \<Rightarrow>
                if a = 225 \<and> b = 154 \<and> c = 128
                 \<or> a = 226 \<and> b = 128 \<and> (128 \<le> c \<and> c \<le> 138 \<or> c = 168 \<or> c = 169 \<or> c = 175)
                 \<or> a = 226 \<and> b = 129 \<and> c = 159
                 \<or> a = 227 \<and> b = 128 \<and> c = 128
                then blank_bytes r'' else False))"

definition trimmed_empty :: "string \<Rightarrow> bool" where
  "trimmed_empty s = blank_bytes (map of_char s)"

definition validate_circle :: "trusted_circle \<Rightarrow> tc_error + unit" where
  "validate_circle tc = bindE (validate_rules (tc_rules tc)) (\<lambda>_.
     if trimmed_empty (tc_name tc) then Inl EmptyName
     else if 1024 < length (tc_name tc) then Inl LongName
     else if tc_escrow_amount tc < one_tgd then Inl (InvalidEscrow (tc_escrow_amount tc))
     else case tc_escrow_pending tc of
       None \<Rightarrow> Inr ()
     | Some pe \<Rightarrow> if pe_amount pe < one_tgd then Inl (InvalidPendingEscrow (pe_amount pe)) else Inr ())"

definition adjust_escrow ::
  "cw_lib \<Rightarrow> env \<Rightarrow> u64 \<Rightarrow> u128 option \<Rightarrow> trusted_circle \<Rightarrow> tc_error + trusted_circle" where
  "adjust_escrow L env proposal_id amount tc =
     (case amount of
        None \<Rightarrow> Inr tc
      | Some escrow_amount \<Rightarrow>
          if tc_escrow_pending tc \<noteq> None then Inl PendingEscrowAlreadySet
          else if escrow_amount \<noteq> tc_escrow_amount tc then
            Inr (tc\<lparr>tc_escrow_pending := Some
              \<lparr>pe_proposal_id = proposal_id, pe_amount = escrow_amount,
               pe_grace_ends_at = l_seconds L (l_plus_seconds L (b_time (e_block env))
                 (voting_period_secs (tc_rules tc)))\<rparr>\<rparr>)
          else Inr tc)"

definition apply_adjustments ::
  "cw_lib \<Rightarrow> env \<Rightarrow> u64 \<Rightarrow> adjustments \<Rightarrow> trusted_circle \<Rightarrow> tc_error + trusted_circle" where
  "apply_adjustments L env proposal_id ad tc =
     (let tc = (case ad_name ad of None \<Rightarrow> tc | Some name \<Rightarrow> tc\<lparr>tc_name := name\<rparr>);
          tc = (case ad_voting_period ad of None \<Rightarrow> tc
            | Some p \<Rightarrow> tc\<lparr>tc_rules := (tc_rules tc)\<lparr>vr_voting_period := p\<rparr>\<rparr>)
      in bindE (adjust_escrow L env proposal_id (ad_escrow_amount ad) tc) (\<lambda>tc.
      let tc = (case ad_quorum ad of None \<Rightarrow> tc
            | Some q \<Rightarrow> tc\<lparr>tc_rules := (tc_rules tc)\<lparr>vr_quorum := q\<rparr>\<rparr>);
          tc = (case ad_threshold ad of None \<Rightarrow> tc
            | Some t \<Rightarrow> tc\<lparr>tc_rules := (tc_rules tc)\<lparr>vr_threshold := t\<rparr>\<rparr>);
          tc = (case ad_allow_end_early ad of None \<Rightarrow> tc
            | Some b \<Rightarrow> tc\<lparr>tc_rules := (tc_rules tc)\<lparr>vr_allow_end_early := b\<rparr>\<rparr>);
          tc = (case ad_edit_disabled ad of None \<Rightarrow> tc | Some b \<Rightarrow> tc\<lparr>tc_edit_disabled := b\<rparr>)
      in Inr tc))"

definition get_escrow :: "trusted_circle \<Rightarrow> u128" where
  "get_escrow tc = max (tc_escrow_amount tc)
     (case tc_escrow_pending tc of None \<Rightarrow> 0 | Some pe \<Rightarrow> pe_amount pe)"

definition opt_attr :: "string \<Rightarrow> ('a \<Rightarrow> attr_val) \<Rightarrow> 'a option \<Rightarrow> attr list" where
  "opt_attr k f v = (case v of None \<Rightarrow> [] | Some x \<Rightarrow> [(k, f x)])"

definition adjustment_attributes :: "adjustments \<Rightarrow> attr list" where
  "adjustment_attributes ad =
     opt_attr ''name'' AStr (ad_name ad)
     @ opt_attr ''escrow_amount'' AU128 (ad_escrow_amount ad)
     @ opt_attr ''voting_period'' (\<lambda>p. AU64 (ucast p)) (ad_voting_period ad)
     @ opt_attr ''quorum'' ADec (ad_quorum ad)
     @ opt_attr ''threshold'' ADec (ad_threshold ad)
     @ opt_attr ''allow_end_early'' ABool (ad_allow_end_early ad)"

section \<open>Punishments and proposals\<close>

datatype punishment =
  DistributeEscrow (pun_member: string) (pun_slashing: decimal)
    (pun_distribution: "string list") (pun_kick_out: bool)
| BurnEscrow (pun_member: string) (pun_slashing: decimal) (pun_kick_out: bool)

definition punishment_event :: "punishment \<Rightarrow> u32 \<Rightarrow> event" where
  "punishment_event p punishment_id = \<lparr>ev_type = ''punishment'',
     ev_attrs = (''punishment_id'', AU64 (ucast punishment_id)) #
      (case p of
         DistributeEscrow member slashing dist kick \<Rightarrow>
           [(''member'', AStr member), (''slashing_percentage'', ADec slashing),
            (''slashed_escrow'', AStr ''distribute''), (''distribution_list'', AStrs dist),
            (''kick_out'', ABool kick)]
       | BurnEscrow member slashing kick \<Rightarrow>
           [(''member'', AStr member), (''slashing_percentage'', ADec slashing),
            (''slashed_escrow'', AStr ''burn''), (''kick_out'', ABool kick)])\<rparr>"

datatype proposal_content =
  AddRemoveNonVotingMembers (pc_remove: "string list") (pc_add: "string list")
| EditTrustedCircle adjustments
| AddVotingMembers "string list"
| PunishMembers "punishment list"
| WhitelistContract string
| RemoveContract string

record votes =
  v_yes :: u64
  v_no :: u64
  v_abstain :: u64
  v_veto :: u64

definition votes_total :: "votes \<Rightarrow> u64" where
  "votes_total v = v_yes v + v_no v + v_abstain v + v_veto v"

definition votes_yes :: "u64 \<Rightarrow> votes" where
  "votes_yes init_points = \<lparr>v_yes = init_points, v_no = 0, v_abstain = 0, v_veto = 0\<rparr>"

fun add_vote :: "vote \<Rightarrow> u64 \<Rightarrow> votes \<Rightarrow> votes" where
  "add_vote VYes points v = v\<lparr>v_yes := v_yes v + points\<rparr>"
| "add_vote VAbstain points v = v\<lparr>v_abstain := v_abstain v + points\<rparr>"
| "add_vote VNo points v = v\<lparr>v_no := v_no v + points\<rparr>"
| "add_vote VVeto points v = v\<lparr>v_veto := v_veto v + points\<rparr>"

record proposal =
  pr_title :: string
  pr_description :: string
  pr_start_height :: u64
  pr_expires :: expiration
  pr_proposal :: proposal_content
  pr_status :: status
  pr_rules :: voting_rules
  pr_total_points :: u64
  pr_votes :: votes

abbreviation precision_factor :: u128 where "precision_factor \<equiv> 1000000000"

definition votes_needed :: "cw_lib \<Rightarrow> u64 \<Rightarrow> decimal \<Rightarrow> tc_error + u64" where
  "votes_needed L points percentage =
     bindE (or_panic (l_mul_decimal L (precision_factor * ucast points) percentage)) (\<lambda>applied.
     Inr (ucast ((applied + precision_factor - 1) div precision_factor)))"

definition is_passed :: "cw_lib \<Rightarrow> proposal \<Rightarrow> block_info \<Rightarrow> tc_error + bool" where
  "is_passed L p block =
     (let rules = pr_rules p; votes = pr_votes p in
      bindE (votes_needed L (pr_total_points p) (vr_quorum rules)) (\<lambda>quorum_votes.
      if votes_total votes < quorum_votes then Inr False
      else if l_is_expired L (pr_expires p) block then
        let opinions = votes_total votes - v_abstain votes in
        bindE (votes_needed L opinions (vr_threshold rules)) (\<lambda>n. Inr (n \<le> v_yes votes))
      else if vr_allow_end_early rules then
        let possible_opinions = pr_total_points p - v_abstain votes in
        bindE (votes_needed L possible_opinions (vr_threshold rules)) (\<lambda>n. Inr (n \<le> v_yes votes))
      else Inr False))"

definition current_status :: "cw_lib \<Rightarrow> proposal \<Rightarrow> block_info \<Rightarrow> tc_error + status" where
  "current_status L p block =
     bindE (if pr_status p = StOpen then is_passed L p block else Inr False) (\<lambda>passed.
     let status = (if passed then StPassed else pr_status p) in
     Inr (if status = StOpen \<and> l_is_expired L (pr_expires p) block then StRejected else status))"

definition update_status :: "cw_lib \<Rightarrow> block_info \<Rightarrow> proposal \<Rightarrow> tc_error + proposal" where
  "update_status L block p =
     bindE (current_status L p block) (\<lambda>status. Inr (p\<lparr>pr_status := status\<rparr>))"

end
