(* ===== verification/TC_Distribution.thy ===== *)
theory TC_Distribution
  imports TC_State
begin

text \<open>
  The reward ledger of the trusted circle
  (\<open>contracts/tgrade-trusted-circle/src/distribution.rs\<close>): rewards are credited to all voting
  points at once by raising the worth of a point, and each address has a correction that
  makes up for the time it had no points. The arithmetic is that of the code, \<open>u128\<close> with the
  wrap-around of the release build; \<open>i128\<close> values are the same words read as signed.
\<close>

abbreviation points_shift :: nat where "points_shift \<equiv> 32"

record dist_config =
  dc_denom :: denom
  dc_points_per_points :: u128
  dc_points_leftover :: u64
  dc_distributed_total :: u128
  dc_withdrawable_total :: u128

record withdraw_adjustment =
  wa_points_correction :: u128
  wa_withdrawn_funds :: u128

record distribution =
  d_config :: "dist_config option"
  d_adjustment :: "(addr, withdraw_adjustment) store"

definition empty_adjustment :: withdraw_adjustment where
  "empty_adjustment = \<lparr>wa_points_correction = 0, wa_withdrawn_funds = 0\<rparr>"

definition adjustment_of :: "distribution \<Rightarrow> addr \<Rightarrow> withdraw_adjustment" where
  "adjustment_of d a = (case sget (d_adjustment d) a of None \<Rightarrow> empty_adjustment | Some w \<Rightarrow> w)"

definition mk_coin :: "u128 \<Rightarrow> denom \<Rightarrow> coin" where
  "mk_coin amount denom = \<lparr>c_denom = denom, c_amount = amount\<rparr>"

lemma mk_coin_simps [simp]: "c_denom (mk_coin a d) = d" "c_amount (mk_coin a d) = a"
  by (simp_all add: mk_coin_def)

definition dist_init :: "denom \<Rightarrow> distribution \<Rightarrow> distribution" where
  "dist_init denom d = d\<lparr>d_config := Some
     \<lparr>dc_denom = denom, dc_points_per_points = 0, dc_points_leftover = 0,
      dc_distributed_total = 0, dc_withdrawable_total = 0\<rparr>\<rparr>"

definition distribute_rewards ::
  "querier \<Rightarrow> env \<Rightarrow> u128 \<Rightarrow> distribution \<Rightarrow> tc_error + (distribution \<times> coin)" where
  "distribute_rewards Q env all_points d =
     (if all_points = 0 then Inl NoMembersToDistributeTo
      else bindE (load (d_config d)) (\<lambda>c.
        bindE (map_err Std (q_balance Q (e_contract env) (dc_denom c))) (\<lambda>balance.
        let amount = c_amount balance - dc_withdrawable_total c in
        if amount = 0 then Inr (d, mk_coin 0 (dc_denom c))
        else
          let leftover = ucast (dc_points_leftover c) :: u128;
              points = push_bit points_shift amount + leftover;
              points_per_share = points div all_points;
              left = (ucast (points mod all_points) :: u64)
          in bindE (or_panic (fit_add (dc_points_per_points c) points_per_share)) (\<lambda>ppp.
             bindE (or_panic (fit_add (dc_distributed_total c) amount)) (\<lambda>distributed.
             bindE (or_panic (fit_add (dc_withdrawable_total c) amount)) (\<lambda>withdrawable.
             Inr (d\<lparr>d_config := Some (c\<lparr>dc_points_per_points := ppp, dc_points_leftover := left,
                    dc_distributed_total := distributed, dc_withdrawable_total := withdrawable\<rparr>)\<rparr>,
                  mk_coin amount (dc_denom c))))))))"

definition withdrawable_rewards :: "u128 \<Rightarrow> dist_config \<Rightarrow> withdraw_adjustment \<Rightarrow> coin" where
  "withdrawable_rewards points c adj =
     (let points = dc_points_per_points c * points + wa_points_correction adj;
          amount = drop_bit points_shift points;
          amount = amount - wa_withdrawn_funds adj
      in mk_coin amount (dc_denom c))"

definition withdraw_rewards ::
  "addr \<Rightarrow> u128 \<Rightarrow> distribution \<Rightarrow> tc_error + (distribution \<times> coin)" where
  "withdraw_rewards owner points d =
     bindE (load (d_config d)) (\<lambda>c.
     let adj = adjustment_of d owner; token = withdrawable_rewards points c adj in
     if c_amount token = 0 then Inr (d, mk_coin 0 (dc_denom c))
     else bindE (or_panic (fit_add (wa_withdrawn_funds adj) (c_amount token))) (\<lambda>withdrawn.
       let adj = adj\<lparr>wa_withdrawn_funds := withdrawn\<rparr> in
       bindE (or_panic (fit_sub (dc_withdrawable_total c) (c_amount token))) (\<lambda>withdrawable.
       Inr (d\<lparr>d_config := Some (c\<lparr>dc_withdrawable_total := withdrawable\<rparr>),
              d_adjustment := sput owner adj (d_adjustment d)\<rparr>, token))))"

definition adjusted_withdrawable_rewards ::
  "addr \<Rightarrow> u128 \<Rightarrow> distribution \<Rightarrow> tc_error + coin" where
  "adjusted_withdrawable_rewards owner points d =
     bindE (load (d_config d)) (\<lambda>c. Inr (withdrawable_rewards points c (adjustment_of d owner)))"

definition distributed_rewards :: "distribution \<Rightarrow> tc_error + coin" where
  "distributed_rewards d =
     bindE (load (d_config d)) (\<lambda>c. Inr (mk_coin (dc_distributed_total c) (dc_denom c)))"

definition undistributed_rewards :: "querier \<Rightarrow> env \<Rightarrow> distribution \<Rightarrow> tc_error + coin" where
  "undistributed_rewards Q env d =
     bindE (load (d_config d)) (\<lambda>c.
     bindE (map_err Std (q_balance Q (e_contract env) (dc_denom c))) (\<lambda>balance.
     bindE (or_panic (fit_sub (c_amount balance) (dc_withdrawable_total c))) (\<lambda>amount.
     Inr (mk_coin amount (dc_denom c)))))"

definition correct_points :: "u128 \<Rightarrow> distribution \<Rightarrow> addr \<times> u128 \<Rightarrow> tc_error + distribution" where
  "correct_points ppp d e =
     (case e of (a, diff) \<Rightarrow>
        let old = adjustment_of d a in
        Inr (d\<lparr>d_adjustment := sput a
          (old\<lparr>wa_points_correction := wa_points_correction old - ppp * diff\<rparr>) (d_adjustment d)\<rparr>))"

definition apply_points_correction ::
  "(addr \<times> u128) list \<Rightarrow> distribution \<Rightarrow> tc_error + distribution" where
  "apply_points_correction diff d =
     bindE (load (d_config d)) (\<lambda>c. foldE (correct_points (dc_points_per_points c)) d diff)"

end
