(* ===== verification/TC_Store.thy ===== *)
theory TC_Store
  imports TC_Distribution
begin

text \<open>
  The storage of the trusted circle as one record, with the loads and saves that the
  handlers are written in. The member map is a snapshot map: every write is also recorded
  with its height (\<open>s_history\<close>), from which past values are answered.
\<close>

record batch =
  ba_grace_ends_at :: u64
  ba_waiting_escrow :: u32
  ba_promoted :: bool
  ba_members :: "addr list"

record tc_state =
  s_version :: "(string \<times> string) option"
  s_circle :: "trusted_circle option"
  s_escrows :: "(addr, escrow_status) store"
  s_members :: "(addr, member_info) store"
  s_history :: history
  s_total :: "u64 option"
  s_batches :: "(u64, batch) store"
  s_proposal_count :: "u64 option"
  s_proposals :: "(u64, proposal) store"
  s_by_expiry :: "(u64, u64) store"
  s_ballots :: ballots
  s_dist :: distribution

definition empty_state :: tc_state where
  "empty_state = \<lparr>s_version = None, s_circle = None, s_escrows = [], s_members = [],
     s_history = [], s_total = None, s_batches = [], s_proposal_count = None,
     s_proposals = [], s_by_expiry = [], s_ballots = [],
     s_dist = \<lparr>d_config = None, d_adjustment = []\<rparr>\<rparr>"

abbreviation voting_points :: u64 where "voting_points \<equiv> 1"

definition member_info_new :: "u64 \<Rightarrow> member_info" where
  "member_info_new points = \<lparr>mi_points = points, mi_start_height = None\<rparr>"

lemma mi_points_new [simp]: "mi_points (member_info_new p) = p"
  by (simp add: member_info_new_def)

definition save_escrow :: "addr \<Rightarrow> escrow_status \<Rightarrow> tc_state \<Rightarrow> tc_state" where
  "save_escrow a e s = s\<lparr>s_escrows := sput a e (s_escrows s)\<rparr>"

definition remove_escrow :: "addr \<Rightarrow> tc_state \<Rightarrow> tc_state" where
  "remove_escrow a s = s\<lparr>s_escrows := sdel a (s_escrows s)\<rparr>"

definition save_member :: "addr \<Rightarrow> u64 \<Rightarrow> u64 \<Rightarrow> tc_state \<Rightarrow> tc_state" where
  "save_member a points height s =
     s\<lparr>s_members := sput a (member_info_new points) (s_members s),
       s_history := s_history s @ [(height, a, Some (member_info_new points))]\<rparr>"

definition remove_member :: "addr \<Rightarrow> u64 \<Rightarrow> tc_state \<Rightarrow> tc_state" where
  "remove_member a height s =
     s\<lparr>s_members := sdel a (s_members s), s_history := s_history s @ [(height, a, None)]\<rparr>"

definition save_batch :: "u64 \<Rightarrow> batch \<Rightarrow> tc_state \<Rightarrow> tc_state" where
  "save_batch i b s = s\<lparr>s_batches := sput i b (s_batches s)\<rparr>"

definition save_proposal :: "u64 \<Rightarrow> proposal \<Rightarrow> tc_state \<Rightarrow> tc_state" where
  "save_proposal i p s = s\<lparr>s_proposals := sput i p (s_proposals s)\<rparr>"

text \<open>\<open>TOTAL.update\<close> with \<open>old + points\<close>, and with \<open>checked_sub(VOTING_POINTS)\<close>.\<close>

definition total_add :: "u64 \<Rightarrow> tc_state \<Rightarrow> tc_error + tc_state" where
  "total_add points s = bindE (load (s_total s)) (\<lambda>old. Inr (s\<lparr>s_total := Some (old + points)\<rparr>))"

definition total_sub :: "tc_state \<Rightarrow> tc_error + tc_state" where
  "total_sub s = bindE (load (s_total s)) (\<lambda>old.
     bindE (of_opt (Std (GenericErr ''Total underflow'')) (fit_sub old voting_points)) (\<lambda>new.
     Inr (s\<lparr>s_total := Some new\<rparr>)))"

text \<open>\<open>DISTRIBUTION.apply_points_correction\<close> on the state; \<open>-1\<close> is the \<open>i128\<close> minus one.\<close>

definition correct :: "(addr \<times> u128) list \<Rightarrow> tc_state \<Rightarrow> tc_error + tc_state" where
  "correct diff s = bindE (apply_points_correction diff (s_dist s)) (\<lambda>d. Inr (s\<lparr>s_dist := d\<rparr>))"

definition can_promote :: "cw_lib \<Rightarrow> block_info \<Rightarrow> batch \<Rightarrow> bool" where
  "can_promote L block b \<longleftrightarrow>
     ba_waiting_escrow b = 0 \<or> l_from_seconds L (ba_grace_ends_at b) \<le> b_time block"

definition create_batch ::
  "cw_lib \<Rightarrow> env \<Rightarrow> u64 \<Rightarrow> u64 \<Rightarrow> addr list \<Rightarrow> tc_state \<Rightarrow> tc_error + tc_state" where
  "create_batch L env proposal_id grace_period addrs s =
     (if addrs \<noteq> [] then
        let b = \<lparr>ba_grace_ends_at = l_seconds L (l_plus_seconds L (b_time (e_block env)) grace_period),
                 ba_waiting_escrow = of_nat (length addrs), ba_promoted = False,
                 ba_members = addrs\<rparr>
        in (case sget (s_batches s) proposal_id of
              Some _ \<Rightarrow> Inl (AlreadyUsedProposal proposal_id)
            | None \<Rightarrow> Inr (save_batch proposal_id b s))
      else Inr s)"

definition create_proposal :: "cw_lib \<Rightarrow> proposal \<Rightarrow> tc_state \<Rightarrow> tc_error + (tc_state \<times> u64)" where
  "create_proposal L p s =
     bindE (case pr_expires p of
          AtTime t \<Rightarrow> Inr (l_seconds L t)
        | _ \<Rightarrow> Inl (Std (GenericErr ''proposals only expire on timestamp''))) (\<lambda>expiry.
     let i = (case s_proposal_count s of None \<Rightarrow> 0 | Some n \<Rightarrow> n) + 1;
         s = s\<lparr>s_proposal_count := Some i\<rparr>;
         s = save_proposal i p s
     in Inr (s\<lparr>s_by_expiry := sput expiry i (s_by_expiry s)\<rparr>, i))"

section \<open>What each save leaves alone\<close>

lemmas save_defs =
  save_escrow_def remove_escrow_def save_member_def remove_member_def save_batch_def
  save_proposal_def

lemma total_add_Inr [simp]:
  "total_add p s = Inr s' \<longleftrightarrow> (\<exists>t. s_total s = Some t \<and> s' = s\<lparr>s_total := Some (t + p)\<rparr>)"
  by (auto simp: total_add_def)

lemma total_sub_Inr [simp]:
  "total_sub s = Inr s' \<longleftrightarrow> (\<exists>t. s_total s = Some t \<and> t \<noteq> 0 \<and> s' = s\<lparr>s_total := Some (t - 1)\<rparr>)"
  by (auto simp: total_sub_def fit_sub_def)

lemma create_batch_Inr:
  "create_batch L env i g as s = Inr s' \<longleftrightarrow>
     (if as = [] then s' = s
      else sget (s_batches s) i = None \<and> s' = save_batch i
        \<lparr>ba_grace_ends_at = l_seconds L (l_plus_seconds L (b_time (e_block env)) g),
         ba_waiting_escrow = of_nat (length as), ba_promoted = False, ba_members = as\<rparr> s)"
  by (auto simp: create_batch_def Let_def split: option.splits)

end
