(* ===== verification/TC_Members.thy ===== *)
theory TC_Members
  imports TC_Store
begin

text \<open>
  The life of a member (\<open>contracts/tgrade-trusted-circle/src/contract.rs\<close>): paying escrow in and
  out, the promotion of paid members in batches, the enforcement of a changed escrow, leaving.
  Every handler takes the state and returns the new state with the response, or an error; the
  chain discards the state changes of a call that returns an error.
\<close>

type_synonym 'a tc_result = "tc_error + (tc_state \<times> 'a)"

definition text_event :: "string \<Rightarrow> attr list \<Rightarrow> event" where
  "text_event ty as = \<lparr>ev_type = ty, ev_attrs = as\<rparr>"

section \<open>Promotion\<close>

definition convert_to_voter_if_paid :: "addr \<Rightarrow> u64 \<Rightarrow> tc_state \<Rightarrow> bool tc_result" where
  "convert_to_voter_if_paid to_promote height s =
     bindE (load (sget (s_escrows s) to_promote)) (\<lambda>escrow.
     if \<not> is_pending_paid (es_status escrow) then Inr (s, False)
     else
       let s = save_escrow to_promote (escrow\<lparr>es_status := Voting\<rparr>) s in
       bindE (correct [(to_promote, 1)] s) (\<lambda>s.
       Inr (save_member to_promote voting_points height s, True)))"

text \<open>One round of the promotion loop: the state, the members promoted, their number.\<close>

definition promote_one ::
  "u64 \<Rightarrow> tc_state \<times> addr list \<times> u64 \<Rightarrow> addr \<Rightarrow> tc_error + (tc_state \<times> addr list \<times> u64)" where
  "promote_one height acc waiting =
     (case acc of (s, promoted, added) \<Rightarrow>
        bindE (convert_to_voter_if_paid waiting height s) (\<lambda>(s, done).
        Inr (if done then (s, promoted @ [waiting], added + voting_points)
             else (s, promoted, added))))"

definition convert_all_paid_members_to_voters ::
  "u64 \<Rightarrow> batch \<Rightarrow> u64 \<Rightarrow> tc_state \<Rightarrow> event tc_result" where
  "convert_all_paid_members_to_voters batch_id b height s =
     bindE (foldE (promote_one height) (s, [], 0) (ba_members b)) (\<lambda>(s, promoted, added).
     bindE (correct (map (\<lambda>a. (a, 1)) promoted) s) (\<lambda>s.
     let s = save_batch batch_id (b\<lparr>ba_promoted := True\<rparr>) s;
         evt = text_event ''promoted''
           ((''proposal'', AU64 batch_id) # map (\<lambda>a. (''member'', AStr a)) promoted)
     in bindE (if 0 < added then total_add added s else Inr s) (\<lambda>s. Inr (s, evt))))"

definition update_batch_after_escrow_paid ::
  "cw_lib \<Rightarrow> env \<Rightarrow> u64 \<Rightarrow> addr \<Rightarrow> tc_state \<Rightarrow> (event option) tc_result" where
  "update_batch_after_escrow_paid L env proposal_id paid_escrow s =
     bindE (load (sget (s_batches s) proposal_id)) (\<lambda>b.
     let b = b\<lparr>ba_waiting_escrow := ba_waiting_escrow b - 1\<rparr>;
         height = b_height (e_block env)
     in case (can_promote L (e_block env) b, ba_promoted b) of
          (True, True) \<Rightarrow>
            bindE (convert_to_voter_if_paid paid_escrow height (save_batch proposal_id b s)) (\<lambda>(s, done).
            if done then
              bindE (total_add voting_points s) (\<lambda>s.
              bindE (correct [(paid_escrow, 1)] s) (\<lambda>s.
              Inr (s, Some (text_event ''promoted''
                [(''proposal'', AU64 proposal_id), (''member'', AStr paid_escrow)]))))
            else Inr (s, None))
        | (True, False) \<Rightarrow>
            bindE (convert_all_paid_members_to_voters proposal_id b height s) (\<lambda>(s, evt).
            Inr (s, Some evt))
        | _ \<Rightarrow> Inr (save_batch proposal_id b s, None))"

section \<open>Escrow\<close>

definition execute_deposit_escrow ::
  "cw_lib \<Rightarrow> env \<Rightarrow> message_info \<Rightarrow> tc_state \<Rightarrow> (bank_msg response) tc_result" where
  "execute_deposit_escrow L env info s =
     bindE (of_opt NotAMember (sget (s_escrows s) (i_sender info))) (\<lambda>escrow.
     bindE (load (s_circle s)) (\<lambda>tc.
     bindE (map_err Payment (l_must_pay L info (tc_denom tc))) (\<lambda>amount.
     bindE (or_panic (fit_add (es_paid escrow) amount)) (\<lambda>paid.
     let escrow = escrow\<lparr>es_paid := paid\<rparr>;
         res = add_attr ''amount'' (AU128 amount) (add_attr ''sender'' (AStr (i_sender info))
           (add_attr ''action'' (AStr ''deposit_escrow'') new_response))
     in case es_status escrow of
          Pending batch \<Rightarrow>
            (let required_escrow = get_escrow tc in
             if required_escrow \<le> es_paid escrow then
               let s = save_escrow (i_sender info) (escrow\<lparr>es_status := PendingPaid batch\<rparr>) s in
               bindE (update_batch_after_escrow_paid L env batch (i_sender info) s) (\<lambda>(s, evt).
               Inr (s, case evt of None \<Rightarrow> res | Some e \<Rightarrow> add_event e res))
             else Inr (save_escrow (i_sender info) escrow s, res))
        | PendingPaid _ \<Rightarrow> Inr (save_escrow (i_sender info) escrow s, res)
        | Voting \<Rightarrow> Inr (save_escrow (i_sender info) escrow s, res)
        | status \<Rightarrow> Inl (InvalidStatus status)))))"

definition escrow_refund ::
  "cw_lib \<Rightarrow> env \<Rightarrow> trusted_circle \<Rightarrow> escrow_status \<Rightarrow> tc_error + u128" where
  "escrow_refund L env tc escrow =
     (case es_status escrow of
        Voting \<Rightarrow> of_overflow (fit_sub (es_paid escrow) (get_escrow tc))
      | Leaving claim_at \<Rightarrow>
          if claim_at \<le> l_seconds L (b_time (e_block env)) then Inr (es_paid escrow)
          else Inl (CannotClaimYet claim_at)
      | status \<Rightarrow> Inl (InvalidStatus status))"

definition execute_return_escrow ::
  "cw_lib \<Rightarrow> env \<Rightarrow> message_info \<Rightarrow> tc_state \<Rightarrow> (bank_msg response) tc_result" where
  "execute_return_escrow L env info s =
     bindE (map_err Payment (l_nonpayable L info)) (\<lambda>_.
     bindE (of_opt NotAMember (sget (s_escrows s) (i_sender info))) (\<lambda>escrow.
     bindE (load (s_circle s)) (\<lambda>tc.
     bindE (escrow_refund L env tc escrow) (\<lambda>refund.
     let res = add_attr ''amount'' (AU128 refund)
           (add_attr ''action'' (AStr ''return_escrow'') new_response)
     in if refund = 0 then Inr (s, res)
        else bindE (of_overflow (fit_sub (es_paid escrow) refund)) (\<lambda>paid.
          let escrow = escrow\<lparr>es_paid := paid\<rparr>;
              (s, res) = (if paid = 0 then
                  (remove_member (i_sender info) (b_height (e_block env)) (remove_escrow (i_sender info) s),
                   add_event (text_event ''remove_voting'' [(''member'', AStr (i_sender info))]) res)
                else (save_escrow (i_sender info) escrow s, res))
          in Inr (s, if refund \<noteq> 0
               then add_message (BankSend (i_sender info) [mk_coin refund (tc_denom tc)]) res
               else res))))))"

section \<open>A changed escrow\<close>

definition demote_one ::
  "u64 \<Rightarrow> u64 \<Rightarrow> tc_state \<Rightarrow> addr \<times> escrow_status \<Rightarrow> tc_error + tc_state" where
  "demote_one proposal_id height s e =
     (case e of (a, escrow) \<Rightarrow>
        let s = save_escrow a (escrow\<lparr>es_status := Pending proposal_id\<rparr>) s;
            s = save_member a 0 height s
        in bindE (total_sub s) (\<lambda>s. correct [(a, - 1)] s))"

definition promote_pending :: "tc_state \<Rightarrow> addr \<times> escrow_status \<Rightarrow> tc_error + tc_state" where
  "promote_pending s e =
     (case e of (a, escrow) \<Rightarrow>
        (case es_status escrow of
           Pending original_proposal_id \<Rightarrow>
             Inr (save_escrow a (escrow\<lparr>es_status := PendingPaid original_proposal_id\<rparr>) s)
         | _ \<Rightarrow> Inl Panic))"

definition short_voter :: "u128 \<Rightarrow> addr \<times> escrow_status \<Rightarrow> bool" where
  "short_voter new_amount e \<longleftrightarrow> es_status (snd e) = Voting \<and> es_paid (snd e) < new_amount"

definition paid_pending :: "u128 \<Rightarrow> addr \<times> escrow_status \<Rightarrow> bool" where
  "paid_pending new_amount e \<longleftrightarrow>
     (case es_status (snd e) of Pending _ \<Rightarrow> new_amount \<le> es_paid (snd e) | _ \<Rightarrow> False)"

definition pending_escrow_demote_promote_members ::
  "cw_lib \<Rightarrow> env \<Rightarrow> u64 \<Rightarrow> u128 \<Rightarrow> u128 \<Rightarrow> u64 \<Rightarrow> tc_state \<Rightarrow> (event option) tc_result" where
  "pending_escrow_demote_promote_members L env proposal_id escrow_amount new_escrow_amount height s =
     (if escrow_amount < new_escrow_amount then
        let demoted = filter (short_voter new_escrow_amount) (s_escrows s);
            demoted_addrs = map fst demoted;
            evt = text_event ''demoted''
              ((''proposal'', AU64 proposal_id) # map (\<lambda>a. (''member'', AStr a)) demoted_addrs);
            grace_period = 0
        in bindE (foldE (demote_one proposal_id height) s demoted) (\<lambda>s.
           bindE (create_batch L env proposal_id grace_period demoted_addrs s) (\<lambda>s.
           Inr (s, Some evt)))
      else if new_escrow_amount < escrow_amount then
        let promoted = filter (paid_pending new_escrow_amount) (s_escrows s);
            evt = text_event ''promoted''
              ((''proposal'', AU64 proposal_id) # concat (map (\<lambda>(a, e).
                 (case es_status e of Pending p \<Rightarrow> [(''original_proposal'', AU64 p)] | _ \<Rightarrow> [])
                 @ [(''member'', AStr a)]) promoted))
        in bindE (foldE promote_pending s promoted) (\<lambda>s. Inr (s, Some evt))
      else Inr (s, None))"

definition check_pending_escrow ::
  "cw_lib \<Rightarrow> env \<Rightarrow> tc_state \<Rightarrow> (event list) tc_result" where
  "check_pending_escrow L env s =
     bindE (load (s_circle s)) (\<lambda>tc.
     case tc_escrow_pending tc of
       None \<Rightarrow> Inr (s, [])
     | Some pe \<Rightarrow>
         if pe_grace_ends_at pe \<le> l_seconds L (b_time (e_block env)) then
           bindE (pending_escrow_demote_promote_members L env (pe_proposal_id pe)
             (tc_escrow_amount tc) (pe_amount pe) (b_height (e_block env)) s) (\<lambda>(s, evt).
           let tc = tc\<lparr>tc_escrow_amount := pe_amount pe, tc_escrow_pending := None\<rparr> in
           Inr (s\<lparr>s_circle := Some tc\<rparr>, case evt of None \<Rightarrow> [] | Some e \<Rightarrow> [e]))
         else Inr (s, []))"

text \<open>
  The batches ready by time, in the order of the index (time, then proposal). All are read
  before the first is promoted.
\<close>

definition ready_batches :: "u64 \<Rightarrow> (u64, batch) store \<Rightarrow> (u64 \<times> batch) list" where
  "ready_batches now bs =
     sort_key (\<lambda>(i, b). (ba_grace_ends_at b, i))
       (filter (\<lambda>(i, b). \<not> ba_promoted b \<and> ba_grace_ends_at b \<le> now) bs)"

definition promote_batch ::
  "u64 \<Rightarrow> tc_state \<times> event list \<Rightarrow> u64 \<times> batch \<Rightarrow> tc_error + (tc_state \<times> event list)" where
  "promote_batch height acc e =
     (case acc of (s, evts) \<Rightarrow> case e of (batch_id, b) \<Rightarrow>
        bindE (convert_all_paid_members_to_voters batch_id b height s) (\<lambda>(s, evt).
        Inr (s, evts @ [evt])))"

definition check_pending_batches ::
  "cw_lib \<Rightarrow> block_info \<Rightarrow> tc_state \<Rightarrow> (event list) tc_result" where
  "check_pending_batches L block s =
     foldE (promote_batch (b_height block)) (s, [])
       (ready_batches (l_seconds L (b_time block)) (s_batches s))"

definition check_pending :: "cw_lib \<Rightarrow> env \<Rightarrow> tc_state \<Rightarrow> (event list) tc_result" where
  "check_pending L env s =
     bindE (check_pending_escrow L env s) (\<lambda>(s, evts).
     bindE (check_pending_batches L (e_block env) s) (\<lambda>(s, evts').
     Inr (s, evts @ evts')))"

definition execute_check_pending ::
  "cw_lib \<Rightarrow> env \<Rightarrow> message_info \<Rightarrow> tc_state \<Rightarrow> (bank_msg response) tc_result" where
  "execute_check_pending L env info s =
     bindE (map_err Payment (l_nonpayable L info)) (\<lambda>_.
     bindE (check_pending L env s) (\<lambda>(s, events).
     Inr (s, add_events events (add_attr ''sender'' (AStr (i_sender info))
       (add_attr ''action'' (AStr ''check_pending'') new_response)))))"

section \<open>Leaving\<close>

definition leave_immediately ::
  "env \<Rightarrow> addr \<Rightarrow> tc_state \<Rightarrow> (bank_msg response) tc_result" where
  "leave_immediately env leaver s =
     Inr (remove_escrow leaver (remove_member leaver (b_height (e_block env)) s),
       add_attr ''leaving'' (AStr leaver) (add_attr ''type'' (AStr ''immediately'')
         (add_attr ''action'' (AStr ''leave_trusted_circle'') new_response)))"

definition adjust_proposal :: "addr \<Rightarrow> tc_state \<Rightarrow> u64 \<times> u64 \<Rightarrow> tc_error + tc_state" where
  "adjust_proposal leaver s e =
     (case e of (_, prop_id) \<Rightarrow>
        if sget (s_ballots s) (prop_id, leaver) = None then
          bindE (load (sget (s_proposals s) prop_id)) (\<lambda>p.
          Inr (if pr_status p = StOpen
               then save_proposal prop_id (p\<lparr>pr_total_points := pr_total_points p - voting_points\<rparr>) s
               else s))
        else Inr s)"

definition adjust_open_proposals_for_leaver ::
  "cw_lib \<Rightarrow> env \<Rightarrow> addr \<Rightarrow> tc_state \<Rightarrow> tc_error + tc_state" where
  "adjust_open_proposals_for_leaver L env leaver s =
     (let now = l_seconds L (b_time (e_block env)) in
      foldE (adjust_proposal leaver) s (safter (Some now) (s_by_expiry s)))"

definition retire_voter :: "cw_lib \<Rightarrow> env \<Rightarrow> addr \<Rightarrow> tc_state \<Rightarrow> tc_error + tc_state" where
  "retire_voter L env leaver s =
     bindE (total_sub (save_member leaver 0 (b_height (e_block env)) s)) (\<lambda>s.
     bindE (correct [(leaver, - 1)] s) (\<lambda>s.
     adjust_open_proposals_for_leaver L env leaver s))"

definition trigger_long_leave ::
  "cw_lib \<Rightarrow> env \<Rightarrow> addr \<Rightarrow> escrow_status \<Rightarrow> tc_state \<Rightarrow> (bank_msg response) tc_result" where
  "trigger_long_leave L env leaver escrow s =
     bindE (if es_status escrow = Voting then retire_voter L env leaver s else Inr s) (\<lambda>s.
     bindE (load (s_circle s)) (\<lambda>tc.
     let claim_at = l_seconds L (b_time (e_block env)) + voting_period_secs (tc_rules tc) * 2;
         s = save_escrow leaver (escrow\<lparr>es_status := Leaving claim_at\<rparr>) s
     in Inr (s, add_attr ''leaving'' (AStr leaver) (add_attr ''claim_at'' (AU64 claim_at)
          (add_attr ''type'' (AStr ''delayed'')
          (add_attr ''action'' (AStr ''leave_trusted_circle'') new_response))))))"

definition execute_leave_trusted_circle ::
  "cw_lib \<Rightarrow> env \<Rightarrow> message_info \<Rightarrow> tc_state \<Rightarrow> (bank_msg response) tc_result" where
  "execute_leave_trusted_circle L env info s =
     bindE (map_err Payment (l_nonpayable L info)) (\<lambda>_.
     bindE (of_opt NotAMember (sget (s_escrows s) (i_sender info))) (\<lambda>escrow.
     case es_status escrow of
       NonVoting \<Rightarrow> leave_immediately env (i_sender info) s
     | Pending _ \<Rightarrow>
         if es_paid escrow = 0 then leave_immediately env (i_sender info) s
         else trigger_long_leave L env (i_sender info) escrow s
     | Leaving _ \<Rightarrow> Inl (InvalidStatus (es_status escrow))
     | _ \<Rightarrow> trigger_long_leave L env (i_sender info) escrow s))"

end
