(* ===== verification/TC_Proposals.thy ===== *)
theory TC_Proposals
  imports TC_Members
begin

text \<open>
  Proposals of the trusted circle (\<open>contract.rs\<close>, \<open>state.rs\<close>): validation of their content,
  proposing, voting, closing, executing, and what each kind of proposal does when executed.
\<close>

section \<open>Validation\<close>

fun contains_text :: "string \<Rightarrow> string \<Rightarrow> bool" where
  "contains_text [] pat = (pat = [])"
| "contains_text (c # s) pat = (take (length pat) (c # s) = pat \<or> contains_text s pat)"

definition is_contract :: "querier \<Rightarrow> addr \<Rightarrow> tc_error + bool" where
  "is_contract Q a =
     (case q_contract_info Q a of
        SystemErr NoSuchContract \<Rightarrow> Inr False
      | SystemErr (OtherSystemError e) \<Rightarrow> Inl (Std (GenericErr (''Querier system error: '' @ e)))
      | SystemOk (ContractErr e) \<Rightarrow>
          if contains_text e ''not found'' \<or> contains_text e ''unknown address'' then Inr False
          else Inl (Std (GenericErr (''Querier contract error: '' @ e)))
      | SystemOk ContractOk \<Rightarrow> Inr True)"

definition validate_contract_address :: "cw_lib \<Rightarrow> querier \<Rightarrow> string \<Rightarrow> tc_error + unit" where
  "validate_contract_address L Q a =
     bindE (map_err Std (l_addr_validate L a)) (\<lambda>addr.
     bindE (is_contract Q addr) (\<lambda>yes. if yes then Inr () else Inl (NotAContract a)))"

definition validate_human_address :: "cw_lib \<Rightarrow> querier \<Rightarrow> string \<Rightarrow> tc_error + unit" where
  "validate_human_address L Q a =
     (case validate_contract_address L Q a of
        Inr _ \<Rightarrow> Inl (NotAHuman a)
      | Inl (NotAContract _) \<Rightarrow> Inr ()
      | Inl err \<Rightarrow> Inl err)"

definition validate_human_addresses :: "cw_lib \<Rightarrow> querier \<Rightarrow> string list \<Rightarrow> tc_error + unit" where
  "validate_human_addresses L Q addrs = checkE (validate_human_address L Q) addrs"

definition ensure_not_denied ::
  "cw_lib \<Rightarrow> querier \<Rightarrow> trusted_circle \<Rightarrow> string \<Rightarrow> tc_error + addr" where
  "ensure_not_denied L Q tc a =
     bindE (case tc_deny_list tc of
          None \<Rightarrow> Inr ()
        | Some deny_list \<Rightarrow>
            bindE (map_err Std (q_wasm_raw Q deny_list (l_member_key L a))) (\<lambda>denied_entry.
            if denied_entry \<noteq> None then Inl (DeniedAddress a deny_list) else Inr ())) (\<lambda>_.
     map_err Std (l_addr_validate L a))"

definition validate_addresses_with_deny_list ::
  "cw_lib \<Rightarrow> querier \<Rightarrow> tc_state \<Rightarrow> string list \<Rightarrow> tc_error + unit" where
  "validate_addresses_with_deny_list L Q s addrs =
     bindE (load (s_circle s)) (\<lambda>tc.
     bindE (validate_human_addresses L Q addrs) (\<lambda>_.
     checkE (\<lambda>a. bindE (ensure_not_denied L Q tc a) (\<lambda>_. Inr ())) addrs))"

definition validate_punished :: "tc_state \<Rightarrow> addr \<Rightarrow> decimal \<Rightarrow> tc_error + unit" where
  "validate_punished s a slashing_percentage =
     (if \<not> (slashing_percentage \<le> decimal_one)
      then Inl (InvalidSlashingPercentage a slashing_percentage)
      else bindE (load (sget (s_escrows s) a)) (\<lambda>escrow.
        if es_status escrow = NonVoting then Inl (PunishInvalidMemberStatus a (es_status escrow))
        else Inr ()))"

definition validate_punishment :: "cw_lib \<Rightarrow> tc_state \<Rightarrow> punishment \<Rightarrow> tc_error + unit" where
  "validate_punishment L s p =
     (case p of
        DistributeEscrow member slashing_percentage distribution_list _ \<Rightarrow>
          bindE (map_err Std (l_addr_validate L member)) (\<lambda>a.
          if distribution_list = [] then Inl EmptyDistributionList
          else bindE (checkE (\<lambda>d. bindE (map_err Std (l_addr_validate L d)) (\<lambda>_. Inr ()))
                 distribution_list) (\<lambda>_.
            validate_punished s a slashing_percentage))
      | BurnEscrow member slashing_percentage _ \<Rightarrow>
          bindE (map_err Std (l_addr_validate L member)) (\<lambda>a.
          validate_punished s a slashing_percentage))"

definition validate_proposal ::
  "cw_lib \<Rightarrow> querier \<Rightarrow> env \<Rightarrow> tc_state \<Rightarrow> proposal_content \<Rightarrow> tc_error + unit" where
  "validate_proposal L Q env s content =
     (case content of
        EditTrustedCircle adj \<Rightarrow>
          bindE (load (s_circle s)) (\<lambda>tc.
          if tc_edit_disabled tc then Inl FrozenRules
          else bindE (apply_adjustments L env (- 1) adj tc) validate_circle)
      | AddRemoveNonVotingMembers remove add \<Rightarrow>
          if add = [] \<and> remove = [] then Inl NoMembers
          else validate_addresses_with_deny_list L Q s add
      | AddVotingMembers voters \<Rightarrow>
          if voters = [] then Inl NoMembers
          else validate_addresses_with_deny_list L Q s voters
      | PunishMembers punishments \<Rightarrow>
          if punishments = [] then Inl NoPunishments
          else checkE (validate_punishment L s) punishments
      | WhitelistContract a \<Rightarrow> validate_contract_address L Q a
      | RemoveContract a \<Rightarrow> validate_contract_address L Q a)"

section \<open>Proposing, voting, closing\<close>

definition points_of :: "member_info option \<Rightarrow> u64" where
  "points_of m = (case m of None \<Rightarrow> 0 | Some i \<Rightarrow> mi_points i)"

text \<open>The environment of the previous block's height, in which pending members are promoted.\<close>

definition at_previous_height :: "env \<Rightarrow> env" where
  "at_previous_height env =
     env\<lparr>e_block := (e_block env)\<lparr>b_height := b_height (e_block env) - 1\<rparr>\<rparr>"

definition execute_propose ::
  "cw_lib \<Rightarrow> querier \<Rightarrow> env \<Rightarrow> message_info \<Rightarrow> string \<Rightarrow> string \<Rightarrow> proposal_content \<Rightarrow> tc_state
     \<Rightarrow> (bank_msg response) tc_result" where
  "execute_propose L Q env info title description content s =
     bindE (map_err Payment (l_nonpayable L info)) (\<lambda>_.
     bindE (if 0 < b_height (e_block env) then check_pending L (at_previous_height env) s
            else Inr (s, [])) (\<lambda>(s, events).
     let vote_power = points_of (sget (s_members s) (i_sender info)) in
     if vote_power = 0 then Inl (Unauthorized ''Member doesn't have a voting power'')
     else bindE (validate_proposal L Q env s content) (\<lambda>_.
       bindE (load (s_circle s)) (\<lambda>tc.
       bindE (load (s_total s)) (\<lambda>total_points.
       let p = \<lparr>pr_title = title, pr_description = description,
                pr_start_height = b_height (e_block env),
                pr_expires = AtTime (l_plus_seconds L (b_time (e_block env))
                  (voting_period_secs (tc_rules tc))),
                pr_proposal = content, pr_status = StOpen, pr_rules = tc_rules tc,
                pr_total_points = total_points, pr_votes = votes_yes vote_power\<rparr>
       in bindE (update_status L (e_block env) p) (\<lambda>p.
          bindE (create_proposal L p s) (\<lambda>(s, i).
          bindE (map_err VotingContract
              (l_create_ballot L (s_ballots s) (i_sender info) i vote_power VYes)) (\<lambda>ballots.
          Inr (s\<lparr>s_ballots := ballots\<rparr>,
            add_events events (add_attr ''sender'' (AStr (i_sender info))
              (add_attr ''action'' (AStr ''propose'') (add_attr ''proposal_id'' (AU64 i)
                new_response))))))))))))"

definition execute_vote ::
  "cw_lib \<Rightarrow> env \<Rightarrow> message_info \<Rightarrow> u64 \<Rightarrow> vote \<Rightarrow> tc_state \<Rightarrow> (bank_msg response) tc_result" where
  "execute_vote L env info proposal_id vote s =
     bindE (map_err Payment (l_nonpayable L info)) (\<lambda>_.
     bindE (load (sget (s_proposals s) proposal_id)) (\<lambda>p.
     if pr_status p \<noteq> StOpen \<and> pr_status p \<noteq> StPassed then Inl NotOpen
     else if l_is_expired L (pr_expires p) (e_block env) then Inl Expired
     else
       let vote_power = points_of (l_at_height L (s_history s) (i_sender info) (pr_start_height p)) in
       if vote_power = 0 then Inl (Unauthorized ''Member doesn't have a voting power'')
       else bindE (load (sget (s_escrows s) (i_sender info))) (\<lambda>escrow.
         if \<not> is_voting (es_status escrow) then Inl (InvalidStatus (es_status escrow))
         else bindE (map_err VotingContract
             (l_create_ballot L (s_ballots s) (i_sender info) proposal_id vote_power vote)) (\<lambda>ballots.
           bindE (update_status L (e_block env)
             (p\<lparr>pr_votes := add_vote vote vote_power (pr_votes p)\<rparr>)) (\<lambda>p.
           Inr (save_proposal proposal_id p (s\<lparr>s_ballots := ballots\<rparr>),
             add_attr ''status'' (AStatus (pr_status p))
               (add_attr ''proposal_id'' (AU64 proposal_id)
               (add_attr ''sender'' (AStr (i_sender info))
               (add_attr ''action'' (AStr ''vote'') new_response)))))))))"

definition execute_close ::
  "cw_lib \<Rightarrow> env \<Rightarrow> message_info \<Rightarrow> u64 \<Rightarrow> tc_state \<Rightarrow> (bank_msg response) tc_result" where
  "execute_close L env info proposal_id s =
     bindE (map_err Payment (l_nonpayable L info)) (\<lambda>_.
     bindE (load (sget (s_proposals s) proposal_id)) (\<lambda>p.
     if pr_status p \<in> {StExecuted, StRejected, StPassed} then Inl WrongCloseStatus
     else if \<not> l_is_expired L (pr_expires p) (e_block env) then Inl NotExpired
     else Inr (save_proposal proposal_id (p\<lparr>pr_status := StRejected\<rparr>) s,
       add_attr ''proposal_id'' (AU64 proposal_id) (add_attr ''sender'' (AStr (i_sender info))
         (add_attr ''action'' (AStr ''close'') new_response)))))"

section \<open>What a proposal does\<close>

definition add_non_voting ::
  "cw_lib \<Rightarrow> querier \<Rightarrow> trusted_circle \<Rightarrow> u64 \<Rightarrow> tc_state \<Rightarrow> string \<Rightarrow> tc_error + tc_state" where
  "add_non_voting L Q tc height s add =
     bindE (ensure_not_denied L Q tc add) (\<lambda>a.
     Inr (if sget (s_members s) a = None
          then save_escrow a escrow_non_voting (save_member a 0 height s)
          else s))"

definition remove_non_voting :: "cw_lib \<Rightarrow> u64 \<Rightarrow> tc_state \<Rightarrow> string \<Rightarrow> tc_error + tc_state" where
  "remove_non_voting L height s remove =
     bindE (map_err Std (l_addr_validate L remove)) (\<lambda>a.
     case sget (s_escrows s) a of
       None \<Rightarrow> Inr s
     | Some escrow \<Rightarrow>
         if es_status escrow = NonVoting then Inr (remove_escrow a (remove_member a height s))
         else Inl (VotingMember remove))"

definition add_remove_non_voting_members ::
  "cw_lib \<Rightarrow> querier \<Rightarrow> trusted_circle \<Rightarrow> u64 \<Rightarrow> string list \<Rightarrow> string list \<Rightarrow> tc_state
     \<Rightarrow> (event list) tc_result" where
  "add_remove_non_voting_members L Q tc height to_add to_remove s =
     (let add_ev = text_event ''add_non_voting'' (map (\<lambda>a. (''member'', AStr a)) to_add);
          rem_ev = text_event ''remove_non_voting'' (map (\<lambda>a. (''member'', AStr a)) to_remove);
          ev = filter (\<lambda>e. ev_attrs e = []) [add_ev, rem_ev]
      in bindE (foldE (add_non_voting L Q tc height) s to_add) (\<lambda>s.
         bindE (foldE (remove_non_voting L height) s to_remove) (\<lambda>s.
         Inr (s, ev))))"

definition proposal_add_remove_non_voting_members ::
  "cw_lib \<Rightarrow> querier \<Rightarrow> env \<Rightarrow> string list \<Rightarrow> string list \<Rightarrow> tc_state \<Rightarrow> (bank_msg response) tc_result" where
  "proposal_add_remove_non_voting_members L Q env add remove s =
     bindE (load (s_circle s)) (\<lambda>tc.
     bindE (add_remove_non_voting_members L Q tc (b_height (e_block env)) add remove s) (\<lambda>(s, ev).
     Inr (s, add_events ev
       (add_attr ''removed'' (ANat (length remove)) (add_attr ''added'' (ANat (length add))
         (add_attr ''proposal'' (AStr ''add_remove_non_voting_members'') new_response))))))"

definition proposal_edit_trusted_circle ::
  "cw_lib \<Rightarrow> env \<Rightarrow> u64 \<Rightarrow> adjustments \<Rightarrow> tc_state \<Rightarrow> (bank_msg response) tc_result" where
  "proposal_edit_trusted_circle L env proposal_id adj s =
     bindE (load (s_circle s)) (\<lambda>tc.
     bindE (apply_adjustments L env proposal_id adj tc) (\<lambda>tc.
     Inr (s\<lparr>s_circle := Some tc\<rparr>,
       add_attr ''proposal'' (AStr ''edit_trusted_circle'')
         (add_attrs (adjustment_attributes adj) new_response))))"

definition add_voting_member :: "u64 \<Rightarrow> u64 \<Rightarrow> tc_state \<Rightarrow> addr \<Rightarrow> tc_error + tc_state" where
  "add_voting_member proposal_id height s a =
     (let create = (case sget (s_escrows s) a of
            Some old \<Rightarrow> es_status old = NonVoting | None \<Rightarrow> True)
      in Inr (if create
           then save_escrow a (escrow_pending_for proposal_id) (save_member a 0 height s)
           else s))"

definition proposal_add_voting_members ::
  "cw_lib \<Rightarrow> querier \<Rightarrow> env \<Rightarrow> u64 \<Rightarrow> string list \<Rightarrow> tc_state \<Rightarrow> (bank_msg response) tc_result" where
  "proposal_add_voting_members L Q env proposal_id to_add s =
     bindE (load (s_circle s)) (\<lambda>tc.
     let height = b_height (e_block env);
         grace_period = voting_period_secs (tc_rules tc)
     in bindE (mapE (ensure_not_denied L Q tc) to_add) (\<lambda>addrs.
        bindE (create_batch L env proposal_id grace_period addrs s) (\<lambda>s.
        let evt = text_event ''propose_voting''
              ((''proposal_id'', AU64 proposal_id) # map (\<lambda>a. (''member'', AStr a)) addrs)
        in bindE (foldE (add_voting_member proposal_id height) s addrs) (\<lambda>s.
           Inr (s, add_event evt (add_attr ''proposal_id'' (AU64 proposal_id)
             (add_attr ''added'' (ANat (length to_add))
             (add_attr ''action'' (AStr ''add_voting_members'') new_response))))))))"

definition whitelist_contract_addr ::
  "cw_lib \<Rightarrow> querier \<Rightarrow> u64 \<Rightarrow> string \<Rightarrow> tc_state \<Rightarrow> (event list) tc_result" where
  "whitelist_contract_addr L Q height a s =
     bindE (load (s_circle s)) (\<lambda>tc.
     bindE (add_remove_non_voting_members L Q tc height [a] [] s) (\<lambda>(s, _).
     Inr (s, [text_event ''whitelisted'' [(''contract_addr'', AStr a)]])))"

definition remove_contract_addr ::
  "cw_lib \<Rightarrow> querier \<Rightarrow> u64 \<Rightarrow> string \<Rightarrow> tc_state \<Rightarrow> (event list) tc_result" where
  "remove_contract_addr L Q height a s =
     bindE (load (s_circle s)) (\<lambda>tc.
     bindE (add_remove_non_voting_members L Q tc height [] [a] s) (\<lambda>(s, _).
     Inr (s, [text_event ''removed'' [(''contract_addr'', AStr a)]])))"

definition proposal_whitelist_contract_addr ::
  "cw_lib \<Rightarrow> querier \<Rightarrow> env \<Rightarrow> string \<Rightarrow> tc_state \<Rightarrow> (bank_msg response) tc_result" where
  "proposal_whitelist_contract_addr L Q env a s =
     bindE (whitelist_contract_addr L Q (b_height (e_block env)) a s) (\<lambda>(s, ev).
     Inr (s, add_events ev (add_attr ''addr'' (AStr a)
       (add_attr ''proposal'' (AStr ''whitelist_contract_addr'') new_response))))"

definition proposal_remove_contract_addr ::
  "cw_lib \<Rightarrow> querier \<Rightarrow> env \<Rightarrow> string \<Rightarrow> tc_state \<Rightarrow> (bank_msg response) tc_result" where
  "proposal_remove_contract_addr L Q env a s =
     bindE (remove_contract_addr L Q (b_height (e_block env)) a s) (\<lambda>(s, ev).
     Inr (s, add_events ev (add_attr ''addr'' (AStr a)
       (add_attr ''proposal'' (AStr ''remove_contract_addr'') new_response))))"

section \<open>Punishment\<close>

text \<open>
  What is paid out of the slashed escrow, and what stays with the member: a distribution that
  does not divide leaves its remainder in the escrow.
\<close>

definition slash_payout ::
  "punishment \<Rightarrow> denom \<Rightarrow> u128 \<Rightarrow> u128 \<Rightarrow> tc_error + (bank_msg list \<times> u128)" where
  "slash_payout p denom escrow_slashed escrow_remaining =
     (if 0 < escrow_slashed then
        case p of
          DistributeEscrow _ _ distribution_list _ \<Rightarrow>
            let n = (of_nat (length distribution_list) :: u128) in
            if n = 0 then Inl Panic
            else Inr (map (\<lambda>a. BankSend a [mk_coin (escrow_slashed div n) denom]) distribution_list,
                   escrow_remaining + escrow_slashed mod n)
        | BurnEscrow _ _ _ \<Rightarrow> Inr ([BankBurn [mk_coin escrow_slashed denom]], escrow_remaining)
      else Inr ([], escrow_remaining))"

definition demote_punished ::
  "u64 \<Rightarrow> u64 \<Rightarrow> addr \<Rightarrow> escrow_status \<Rightarrow> tc_state \<Rightarrow> tc_error + tc_state" where
  "demote_punished proposal_id height a escrow s =
     bindE (if es_status escrow = Voting then
          bindE (total_sub (save_member a 0 height s)) (\<lambda>s. correct [(a, - 1)] s)
        else Inr s) (\<lambda>s.
     Inr (save_escrow a (escrow\<lparr>es_status := Pending proposal_id\<rparr>) s))"

definition punish_one ::
  "cw_lib \<Rightarrow> env \<Rightarrow> u64 \<Rightarrow> tc_state \<times> bank_msg response \<times> addr list \<Rightarrow> u32 \<times> punishment
     \<Rightarrow> tc_error + (tc_state \<times> bank_msg response \<times> addr list)" where
  "punish_one L env proposal_id acc e =
     (case acc of (s, res, demoted) \<Rightarrow> case e of (i, p) \<Rightarrow>
      let res = add_event (punishment_event p i) res; a = pun_member p in
      bindE (load (sget (s_escrows s) a)) (\<lambda>escrow.
      if es_status escrow = NonVoting then Inl (PunishInvalidMemberStatus a (es_status escrow))
      else bindE (load (s_circle s)) (\<lambda>tc.
        bindE (or_panic (l_mul_decimal L (es_paid escrow) (pun_slashing p))) (\<lambda>escrow_slashed.
        bindE (slash_payout p (tc_denom tc) escrow_slashed (es_paid escrow - escrow_slashed))
          (\<lambda>(msgs, remaining).
        let res = res\<lparr>r_messages := r_messages res @ msgs\<rparr>;
            escrow = escrow\<lparr>es_paid := remaining\<rparr>;
            required_escrow = get_escrow tc
        in if pun_kick_out p then
             bindE (trigger_long_leave L env a escrow s) (\<lambda>(s, r).
             Inr (s, add_attrs (r_attrs r) res, demoted))
           else if es_paid escrow < required_escrow then
             bindE (demote_punished proposal_id (b_height (e_block env)) a escrow s) (\<lambda>s.
             Inr (s, res, demoted @ [a]))
           else Inr (save_escrow a escrow s, res, demoted))))))"

definition proposal_punish_members ::
  "cw_lib \<Rightarrow> env \<Rightarrow> u64 \<Rightarrow> punishment list \<Rightarrow> tc_state \<Rightarrow> (bank_msg response) tc_result" where
  "proposal_punish_members L env proposal_id punishments s =
     bindE (foldE (punish_one L env proposal_id)
         (s, add_attr ''proposal'' (AStr ''punish_members'') new_response, [])
         (zip (map (\<lambda>i. of_nat (Suc i)) [0..<length punishments]) punishments))
       (\<lambda>(s, res, demoted).
     let res = (if demoted \<noteq> [] then
           add_event (text_event ''demoted'' (map (\<lambda>a. (''member'', AStr a)) demoted)) res else res);
         grace_period = 0
     in bindE (create_batch L env proposal_id grace_period demoted s) (\<lambda>s. Inr (s, res)))"

section \<open>Executing\<close>

definition proposal_execute ::
  "cw_lib \<Rightarrow> querier \<Rightarrow> env \<Rightarrow> u64 \<Rightarrow> proposal_content \<Rightarrow> tc_state \<Rightarrow> (bank_msg response) tc_result" where
  "proposal_execute L Q env proposal_id content s =
     (case content of
        AddRemoveNonVotingMembers remove add \<Rightarrow>
          proposal_add_remove_non_voting_members L Q env add remove s
      | EditTrustedCircle adj \<Rightarrow> proposal_edit_trusted_circle L env proposal_id adj s
      | AddVotingMembers voters \<Rightarrow> proposal_add_voting_members L Q env proposal_id voters s
      | PunishMembers punishments \<Rightarrow> proposal_punish_members L env proposal_id punishments s
      | WhitelistContract a \<Rightarrow> proposal_whitelist_contract_addr L Q env a s
      | RemoveContract a \<Rightarrow> proposal_remove_contract_addr L Q env a s)"

definition frozen_edit :: "proposal_content \<Rightarrow> trusted_circle \<Rightarrow> bool" where
  "frozen_edit content tc \<longleftrightarrow>
     (case content of EditTrustedCircle _ \<Rightarrow> tc_edit_disabled tc | _ \<Rightarrow> False)"

definition execute_execute ::
  "cw_lib \<Rightarrow> querier \<Rightarrow> env \<Rightarrow> message_info \<Rightarrow> u64 \<Rightarrow> tc_state \<Rightarrow> (bank_msg response) tc_result" where
  "execute_execute L Q env info proposal_id s =
     bindE (map_err Payment (l_nonpayable L info)) (\<lambda>_.
     bindE (load (sget (s_proposals s) proposal_id)) (\<lambda>p.
     bindE (case pr_proposal p of
          EditTrustedCircle _ \<Rightarrow> bindE (load (s_circle s)) (\<lambda>tc.
            if frozen_edit (pr_proposal p) tc then Inl FrozenRules else Inr ())
        | _ \<Rightarrow> Inr ()) (\<lambda>_.
     if pr_status p \<noteq> StPassed then Inl WrongExecuteStatus
     else
       let s = save_proposal proposal_id (p\<lparr>pr_status := StExecuted\<rparr>) s in
       bindE (proposal_execute L Q env proposal_id (pr_proposal p) s) (\<lambda>(s, res).
       Inr (s, add_attr ''proposal_id'' (AU64 proposal_id)
         (add_attr ''action'' (AStr ''execute'') res))))))"

end
