(* ===== verification/TC_Contract.thy ===== *)
theory TC_Contract
  imports TC_Proposals
begin

text \<open>
  The entry points of the trusted circle: instantiation, the dispatch of execute messages, and
  the contract as a state machine. A step is one successful execution at any block, by any
  sender, with any answers of the chain to its queries; a failed one leaves no trace.
\<close>

section \<open>Rewards\<close>

definition execute_distribute_funds ::
  "querier \<Rightarrow> env \<Rightarrow> message_info \<Rightarrow> tc_state \<Rightarrow> (bank_msg response) tc_result" where
  "execute_distribute_funds Q env info s =
     bindE (load (s_total s)) (\<lambda>points.
     bindE (distribute_rewards Q env (ucast points) (s_dist s)) (\<lambda>(d, funds).
     Inr (s\<lparr>s_dist := d\<rparr>,
       add_attr ''amount'' (AU128 (c_amount funds)) (add_attr ''denom'' (AStr (c_denom funds))
         (add_attr ''sender'' (AStr (i_sender info))
         (add_attr ''action'' (AStr ''distribute_tokens'') new_response))))))"

definition execute_withdraw_funds ::
  "message_info \<Rightarrow> tc_state \<Rightarrow> (bank_msg response) tc_result" where
  "execute_withdraw_funds info s =
     bindE (load (sget (s_escrows s) (i_sender info))) (\<lambda>escrow.
     if es_status escrow \<noteq> Voting then Inl (InvalidStatus (es_status escrow))
     else bindE (withdraw_rewards (i_sender info) 1 (s_dist s)) (\<lambda>(d, token).
       Inr (s\<lparr>s_dist := d\<rparr>,
         add_message (BankSend (i_sender info) [token])
           (add_attr ''amount'' (AU128 (c_amount token)) (add_attr ''token'' (AStr (c_denom token))
           (add_attr ''owner'' (AStr (i_sender info))
           (add_attr ''action'' (AStr ''withdraw_tokens'') new_response)))))))"

section \<open>Messages\<close>

record instantiate_msg =
  im_name :: string
  im_denom :: denom
  im_escrow_amount :: u128
  im_voting_period :: u32
  im_quorum :: decimal
  im_threshold :: decimal
  im_allow_end_early :: bool
  im_initial_members :: "string list"
  im_deny_list :: "string option"
  im_edit_disabled :: bool
  im_reward_denom :: denom

datatype execute_msg =
  DepositEscrow
| ReturnEscrow
| Propose string string proposal_content
| Vote u64 vote
| Execute u64
| Close u64
| LeaveTrustedCircle
| CheckPending
| DistributeRewards
| WithdrawRewards

definition circle_of_msg :: "cw_lib \<Rightarrow> instantiate_msg \<Rightarrow> tc_error + trusted_circle" where
  "circle_of_msg L msg =
     bindE (case im_deny_list msg of
          None \<Rightarrow> Inr None
        | Some a \<Rightarrow> bindE (map_err Std (l_addr_validate L a)) (\<lambda>a. Inr (Some a))) (\<lambda>deny_list.
     Inr \<lparr>tc_name = im_name msg, tc_denom = im_denom msg,
          tc_escrow_amount = im_escrow_amount msg, tc_escrow_pending = None,
          tc_rules = \<lparr>vr_voting_period = im_voting_period msg, vr_quorum = im_quorum msg,
            vr_threshold = im_threshold msg, vr_allow_end_early = im_allow_end_early msg\<rparr>,
          tc_deny_list = deny_list, tc_edit_disabled = im_edit_disabled msg\<rparr>)"

definition instantiate ::
  "cw_lib \<Rightarrow> querier \<Rightarrow> env \<Rightarrow> message_info \<Rightarrow> instantiate_msg \<Rightarrow> tc_state
     \<Rightarrow> (bank_msg response) tc_result" where
  "instantiate L Q env info msg s =
     (let s = s\<lparr>s_version := Some (''crates.io:tgrade-trusted_circle'', ''0.15.0'')\<rparr> in
      bindE (circle_of_msg L msg) (\<lambda>tc.
      bindE (validate_circle tc) (\<lambda>_.
      bindE (map_err Payment (l_must_pay L info (im_denom msg))) (\<lambda>amount.
      if amount < get_escrow tc then Inl (InsufficientFunds amount)
      else
        let s = s\<lparr>s_circle := Some tc\<rparr>;
            s = save_escrow (i_sender info) \<lparr>es_paid = amount, es_status = Voting\<rparr> s;
            s = save_member (i_sender info) voting_points (b_height (e_block env)) s;
            s = s\<lparr>s_total := Some voting_points\<rparr>;
            promote_ev = text_event ''promoted'' [(''member'', AStr (i_sender info))];
            s = s\<lparr>s_dist := dist_init (im_reward_denom msg) (s_dist s)\<rparr>
        in bindE (add_remove_non_voting_members L Q tc (b_height (e_block env))
               (im_initial_members msg) [] s) (\<lambda>(s, add_evs).
           Inr (s, add_event promote_ev (add_events add_evs
             (add_event (text_event ''contract_data''
                [(''contract_kind'', AStr ''crates.io:tgrade-trusted_circle''),
                 (''name'', AStr (im_name msg))]) new_response))))))))"

definition execute ::
  "cw_lib \<Rightarrow> querier \<Rightarrow> env \<Rightarrow> message_info \<Rightarrow> execute_msg \<Rightarrow> tc_state
     \<Rightarrow> (bank_msg response) tc_result" where
  "execute L Q env info msg s =
     (case msg of
        DepositEscrow \<Rightarrow> execute_deposit_escrow L env info s
      | ReturnEscrow \<Rightarrow> execute_return_escrow L env info s
      | Propose title description content \<Rightarrow>
          execute_propose L Q env info title description content s
      | Vote proposal_id vote \<Rightarrow> execute_vote L env info proposal_id vote s
      | Execute proposal_id \<Rightarrow> execute_execute L Q env info proposal_id s
      | Close proposal_id \<Rightarrow> execute_close L env info proposal_id s
      | LeaveTrustedCircle \<Rightarrow> execute_leave_trusted_circle L env info s
      | CheckPending \<Rightarrow> execute_check_pending L env info s
      | DistributeRewards \<Rightarrow> execute_distribute_funds Q env info s
      | WithdrawRewards \<Rightarrow> execute_withdraw_funds info s)"

section \<open>The contract as a state machine\<close>

inductive tc_step :: "cw_lib \<Rightarrow> tc_state \<Rightarrow> tc_state \<Rightarrow> bool" for L :: cw_lib where
  tc_call: "execute L Q env info msg s = Inr (s', r) \<Longrightarrow> tc_step L s s'"

inductive tc_reachable :: "cw_lib \<Rightarrow> tc_state \<Rightarrow> bool" for L :: cw_lib where
  tc_start: "instantiate L Q env info msg empty_state = Inr (s, r) \<Longrightarrow> tc_reachable L s"
| tc_next: "tc_reachable L s \<Longrightarrow> tc_step L s s' \<Longrightarrow> tc_reachable L s'"

inductive_cases tc_stepE: "tc_step L s s'"

text \<open>An invariant: it holds after instantiation and every successful call keeps it.\<close>

lemma tc_invariantI:
  assumes "tc_reachable L s"
    and "\<And>Q env info msg s r. instantiate L Q env info msg empty_state = Inr (s, r) \<Longrightarrow> P s"
    and "\<And>Q env info msg s s' r. tc_reachable L s \<Longrightarrow> P s \<Longrightarrow>
      execute L Q env info msg s = Inr (s', r) \<Longrightarrow> P s'"
  shows "P s"
  using assms(1)
proof (induction rule: tc_reachable.induct)
  case (tc_start Q env info msg s r)
  then show ?case by (rule assms(2))
next
  case (tc_next s s')
  then show ?case by (auto elim!: tc_stepE intro: assms(3))
qed

end
