(* ===== verification/TC_Frames.thy ===== *)
theory TC_Frames
  imports TC_Contract
begin

text \<open>
  What the internal operations of the trusted circle change, and nothing else: one lemma per
  operation that gives the resulting state as an update of the old one. The invariants are
  proved from these shapes and not from the definitions.
\<close>

named_theorems shapes \<open>the states that the operations return\<close>

lemma correct_shape [shapes]:
  "correct diff s = Inr s' \<Longrightarrow> \<exists>d. s' = s\<lparr>s_dist := d\<rparr>"
  by (auto simp: correct_def)

lemma convert_shape [shapes]:
  assumes "convert_to_voter_if_paid a h s = Inr (s', yes)"
  obtains
    (paid) e p d where "yes" "sget (s_escrows s) a = Some e" "es_status e = PendingPaid p"
      "s' = s\<lparr>s_escrows := sput a (e\<lparr>es_status := Voting\<rparr>) (s_escrows s), s_dist := d,
        s_members := sput a (member_info_new 1) (s_members s),
        s_history := s_history s @ [(h, a, Some (member_info_new 1))]\<rparr>"
  | (unpaid) e where "\<not> yes" "sget (s_escrows s) a = Some e" "\<not> is_pending_paid (es_status e)" "s' = s"
proof -
  from assms obtain e where e: "sget (s_escrows s) a = Some e"
    by (auto simp: convert_to_voter_if_paid_def)
  show thesis
  proof (cases "is_pending_paid (es_status e)")
    case False
    with assms e show thesis by (intro unpaid [of e]) (auto simp: convert_to_voter_if_paid_def)
  next
    case True
    then obtain p where "es_status e = PendingPaid p" by (auto simp: is_pending_paid_iff)
    with assms e True show thesis
      by (auto simp: convert_to_voter_if_paid_def save_defs dest!: correct_shape
          intro!: paid [of e p])
  qed
qed

lemma demote_shape [shapes]:
  assumes "demote_one p h s (a, e) = Inr s'"
  obtains t d where "s_total s = Some t" "t \<noteq> 0"
    "s' = s\<lparr>s_escrows := sput a (e\<lparr>es_status := Pending p\<rparr>) (s_escrows s),
       s_members := sput a (member_info_new 0) (s_members s),
       s_history := s_history s @ [(h, a, Some (member_info_new 0))],
       s_total := Some (t - 1), s_dist := d\<rparr>"
  using assms by (auto simp: demote_one_def Let_def save_defs dest!: correct_shape)

lemma promote_pending_shape [shapes]:
  assumes "promote_pending s (a, e) = Inr s'"
  obtains p where "es_status e = Pending p"
    "s' = s\<lparr>s_escrows := sput a (e\<lparr>es_status := PendingPaid p\<rparr>) (s_escrows s)\<rparr>"
  using assms by (auto simp: promote_pending_def save_defs split: member_status.splits)

text \<open>Adjusting the open proposals touches only their total points.\<close>

lemma adjust_proposal_shape:
  assumes "adjust_proposal leaver s e = Inr s'"
  shows "\<exists>ps. s' = s\<lparr>s_proposals := ps\<rparr>"
proof -
  have "\<exists>ps. s = s\<lparr>s_proposals := ps\<rparr>" by (rule exI [of _ "s_proposals s"]) simp
  then show ?thesis
    using assms by (auto simp: adjust_proposal_def save_defs split: prod.splits if_splits)
qed

lemma adjust_open_proposals_shape [shapes]:
  assumes "adjust_open_proposals_for_leaver L env leaver s = Inr s'"
  shows "\<exists>ps. s' = s\<lparr>s_proposals := ps\<rparr>"
proof -
  from assms obtain es where loop: "foldE (adjust_proposal leaver) s es = Inr s'"
    by (auto simp: adjust_open_proposals_for_leaver_def Let_def)
  show ?thesis
  proof (rule foldE_invariant [OF loop])
    show "\<exists>ps. s = s\<lparr>s_proposals := ps\<rparr>" by (rule exI [of _ "s_proposals s"]) simp
  next
    fix x e y
    assume "\<exists>ps. x = s\<lparr>s_proposals := ps\<rparr>" "adjust_proposal leaver x e = Inr y"
    then show "\<exists>ps. y = s\<lparr>s_proposals := ps\<rparr>" by (auto dest!: adjust_proposal_shape)
  qed
qed

text \<open>A long leave: a voter loses the points; everyone becomes leaving.\<close>

lemma long_leave_shape [shapes]:
  assumes "trigger_long_leave L env a e s = Inr (s', r)"
  obtains
    (voter) t d ps c where "es_status e = Voting" "s_total s = Some t" "t \<noteq> 0"
      "s' = s\<lparr>s_members := sput a (member_info_new 0) (s_members s),
         s_history := s_history s @ [(b_height (e_block env), a, Some (member_info_new 0))],
         s_total := Some (t - 1), s_dist := d, s_proposals := ps,
         s_escrows := sput a (e\<lparr>es_status := Leaving c\<rparr>) (s_escrows s)\<rparr>"
  | (other) c where "es_status e \<noteq> Voting"
      "s' = s\<lparr>s_escrows := sput a (e\<lparr>es_status := Leaving c\<rparr>) (s_escrows s)\<rparr>"
  using assms
  by (auto simp: trigger_long_leave_def retire_voter_def Let_def save_defs
      dest!: correct_shape adjust_open_proposals_shape split: if_splits)

lemma long_leave_messages:
  "trigger_long_leave L env a e s = Inr (s', r) \<Longrightarrow> r_messages r = []"
  by (auto simp: trigger_long_leave_def Let_def)

lemma demote_punished_shape [shapes]:
  assumes "demote_punished p h a e s = Inr s'"
  obtains
    (voter) t d where "es_status e = Voting" "s_total s = Some t" "t \<noteq> 0"
      "s' = s\<lparr>s_members := sput a (member_info_new 0) (s_members s),
         s_history := s_history s @ [(h, a, Some (member_info_new 0))],
         s_total := Some (t - 1), s_dist := d,
         s_escrows := sput a (e\<lparr>es_status := Pending p\<rparr>) (s_escrows s)\<rparr>"
  | (other) "es_status e \<noteq> Voting"
      "s' = s\<lparr>s_escrows := sput a (e\<lparr>es_status := Pending p\<rparr>) (s_escrows s)\<rparr>"
  using assms
  by (auto simp: demote_punished_def Let_def save_defs dest!: correct_shape split: if_splits)

lemma create_batch_shape [shapes]:
  assumes "create_batch L env i g as s = Inr s'"
  obtains (none) "as = []" "s' = s"
  | (some) b where "as \<noteq> []" "sget (s_batches s) i = None" "ba_waiting_escrow b = of_nat (length as)"
      "ba_members b = as" "\<not> ba_promoted b" "s' = s\<lparr>s_batches := sput i b (s_batches s)\<rparr>"
proof (cases "as = []")
  case True
  with assms show thesis by (intro none) (auto simp: create_batch_Inr)
next
  case False
  with assms show thesis
    by (intro some [OF False, of "\<lparr>ba_grace_ends_at = _, ba_waiting_escrow = _, ba_promoted = _, ba_members = _\<rparr>"])
       (auto simp: create_batch_Inr save_batch_def)
qed

lemma create_proposal_shape [shapes]:
  assumes "create_proposal L p s = Inr (s', i)"
  obtains x where "i = (case s_proposal_count s of None \<Rightarrow> 0 | Some n \<Rightarrow> n) + 1"
    "s' = s\<lparr>s_proposal_count := Some i, s_proposals := sput i p (s_proposals s), s_by_expiry := x\<rparr>"
  using assms by (auto simp: create_proposal_def Let_def save_proposal_def)

lemma update_status_shape [shapes]:
  "update_status L b p = Inr p' \<Longrightarrow> \<exists>st. current_status L p b = Inr st \<and> p' = p\<lparr>pr_status := st\<rparr>"
  by (auto simp: update_status_def)

section \<open>The promotion of a batch\<close>

text \<open>
  A rule for the promotion loop: an invariant that counts the members promoted so far and is
  kept by one promotion holds after the loop; saving the batch, correcting rewards and adding
  to the total are what remains.
\<close>

lemma promote_all_rule:
  assumes "convert_all_paid_members_to_voters i b h s = Inr (s', ev)" and "I 0 s"
    and "\<And>a n s s'. a \<in> set (ba_members b) \<Longrightarrow> I n s \<Longrightarrow>
      convert_to_voter_if_paid a h s = Inr (s', True) \<Longrightarrow> I (n + 1) s'"
  obtains n s1 d where "I n s1"
    "0 < n \<Longrightarrow> \<exists>t. s_total s1 = Some t \<and> s' = s1\<lparr>s_dist := d,
       s_batches := sput i (b\<lparr>ba_promoted := True\<rparr>) (s_batches s1), s_total := Some (t + n)\<rparr>"
    "n = 0 \<Longrightarrow> s' = s1\<lparr>s_dist := d, s_batches := sput i (b\<lparr>ba_promoted := True\<rparr>) (s_batches s1)\<rparr>"
proof -
  from assms(1) obtain s1 prom n where
    loop: "foldE (promote_one h) (s, [], 0) (ba_members b) = Inr (s1, prom, n)"
    and rest: "bindE (correct (map (\<lambda>a. (a, 1)) prom) s1) (\<lambda>s.
       bindE (if 0 < n then total_add n (save_batch i (b\<lparr>ba_promoted := True\<rparr>) s)
         else Inr (save_batch i (b\<lparr>ba_promoted := True\<rparr>) s)) (\<lambda>s. Inr s)) = Inr s'"
    by (auto simp: convert_all_paid_members_to_voters_def Let_def)
  have "case (s1, prom, n) of (s, _, n) \<Rightarrow> I n s"
  proof (rule foldE_invariant [OF loop, where P = "\<lambda>(s, _, n). I n s"])
    show "case (s, [], 0) of (s, _, n) \<Rightarrow> I n s" using assms(2) by simp
  next
    fix acc a acc'
    assume "a \<in> set (ba_members b)" "case acc of (s, _, n) \<Rightarrow> I n s" "promote_one h acc a = Inr acc'"
    then show "case acc' of (s, _, n) \<Rightarrow> I n s"
      using assms(3) by (cases acc) (auto simp: promote_one_def elim: convert_shape split: if_splits)
  qed
  then have I: "I n s1" by simp
  from rest obtain d where
    "(if 0 < n then total_add n (save_batch i (b\<lparr>ba_promoted := True\<rparr>) (s1\<lparr>s_dist := d\<rparr>))
      else Inr (save_batch i (b\<lparr>ba_promoted := True\<rparr>) (s1\<lparr>s_dist := d\<rparr>))) = Inr s'"
    by (auto dest!: correct_shape)
  with I show thesis
    by (intro that [of n s1 d]) (auto simp: save_batch_def)
qed

section \<open>Paying in, paying out\<close>

lemma deposit_shape:
  assumes "execute_deposit_escrow L env info s = Inr (s', r)"
  obtains e tc amount paid where
    "sget (s_escrows s) (i_sender info) = Some e" "s_circle s = Some tc"
    "l_must_pay L info (tc_denom tc) = Inr amount" "unat paid = unat (es_paid e) + unat amount"
    "r_messages r = []"
    "(\<exists>p ev. es_status e = Pending p \<and> get_escrow tc \<le> paid \<and>
        update_batch_after_escrow_paid L env p (i_sender info)
          (s\<lparr>s_escrows := sput (i_sender info) (e\<lparr>es_paid := paid, es_status := PendingPaid p\<rparr>)
            (s_escrows s)\<rparr>) = Inr (s', ev))
     \<or> ((\<exists>p. es_status e = Pending p \<and> paid < get_escrow tc \<or> es_status e = PendingPaid p \<or> es_status e = Voting)
        \<and> s' = s\<lparr>s_escrows := sput (i_sender info) (e\<lparr>es_paid := paid\<rparr>) (s_escrows s)\<rparr>)"
proof -
  from assms obtain e tc amount paid where
    pre: "sget (s_escrows s) (i_sender info) = Some e" "s_circle s = Some tc"
      "l_must_pay L info (tc_denom tc) = Inr amount" "fit_add (es_paid e) amount = Some paid"
    by (auto simp: execute_deposit_escrow_def)
  note main = that [OF pre(1-3), of paid] pre(4)
  show thesis
  proof (cases "es_status e")
    case (Pending p)
    with assms pre show ?thesis
      by (intro main(1))
         (auto simp: execute_deposit_escrow_def Let_def save_escrow_def fit_add_Some not_le
           split: if_splits option.splits)
  qed (use assms pre in \<open>(intro main(1);
         force simp: execute_deposit_escrow_def Let_def save_escrow_def fit_add_Some)+\<close>)
qed

lemma return_shape:
  assumes "execute_return_escrow L env info s = Inr (s', r)"
  obtains e tc refund where
    "sget (s_escrows s) (i_sender info) = Some e" "s_circle s = Some tc"
    "escrow_refund L env tc e = Inr refund"
    "(refund = 0 \<and> s' = s \<and> r_messages r = [])
     \<or> (refund \<noteq> 0 \<and> r_messages r = [BankSend (i_sender info) [mk_coin refund (tc_denom tc)]] \<and>
        (es_paid e = refund \<and> s' = s\<lparr>s_escrows := sdel (i_sender info) (s_escrows s),
            s_members := sdel (i_sender info) (s_members s),
            s_history := s_history s @ [(b_height (e_block env), i_sender info, None)]\<rparr>
         \<or> (\<exists>paid. paid \<noteq> 0 \<and> unat (es_paid e) = unat paid + unat refund \<and>
             s' = s\<lparr>s_escrows := sput (i_sender info) (e\<lparr>es_paid := paid\<rparr>) (s_escrows s)\<rparr>)))"
proof -
  from assms obtain e tc refund where
    pre: "sget (s_escrows s) (i_sender info) = Some e" "s_circle s = Some tc"
      "escrow_refund L env tc e = Inr refund"
    by (auto simp: execute_return_escrow_def)
  show thesis
  proof (cases "refund = 0")
    case True
    with assms pre show ?thesis
      by (intro that [OF pre]) (auto simp: execute_return_escrow_def)
  next
    case False
    with assms pre have "\<exists>paid. fit_sub (es_paid e) refund = Some paid"
      by (auto simp: execute_return_escrow_def Let_def)
    then obtain paid :: u128 where paid: "unat (es_paid e) = unat paid + unat refund"
      unfolding fit_sub_Some by blast
    then have "fit_sub (es_paid e) refund = Some paid" by (simp add: fit_sub_Some)
    with False assms pre paid show ?thesis
      by (intro that [OF pre])
         (auto simp: execute_return_escrow_def Let_def save_defs word_unat_eq_iff split: if_splits)
  qed
qed

lemma escrow_refund_cases:
  assumes "escrow_refund L env tc e = Inr refund"
  obtains (voting) "es_status e = Voting" "unat (es_paid e) = unat refund + unat (get_escrow tc)"
  | (leaving) c where "es_status e = Leaving c" "c \<le> l_seconds L (b_time (e_block env))"
      "refund = es_paid e"
  using assms
  by (auto simp: escrow_refund_def fit_sub_Some split: member_status.splits if_splits)

lemma leave_shape:
  assumes "execute_leave_trusted_circle L env info s = Inr (s', r)"
  obtains
    (now) e where "sget (s_escrows s) (i_sender info) = Some e"
      "es_status e = NonVoting \<or> ((\<exists>p. es_status e = Pending p) \<and> es_paid e = 0)"
      "s' = s\<lparr>s_members := sdel (i_sender info) (s_members s),
        s_history := s_history s @ [(b_height (e_block env), i_sender info, None)],
        s_escrows := sdel (i_sender info) (s_escrows s)\<rparr>" "r_messages r = []"
  | (later) e where "sget (s_escrows s) (i_sender info) = Some e"
      "es_status e = Voting \<or> (\<exists>p. es_status e = PendingPaid p)
         \<or> ((\<exists>p. es_status e = Pending p) \<and> es_paid e \<noteq> 0)"
      "trigger_long_leave L env (i_sender info) e s = Inr (s', r)"
proof -
  from assms obtain e where e: "sget (s_escrows s) (i_sender info) = Some e"
    by (auto simp: execute_leave_trusted_circle_def)
  have now: "execute_leave_trusted_circle L env info s = Inr (s', r) \<Longrightarrow>
      execute_leave_trusted_circle L env info s = leave_immediately env (i_sender info) s \<Longrightarrow>
      es_status e = NonVoting \<or> ((\<exists>p. es_status e = Pending p) \<and> es_paid e = 0) \<Longrightarrow> thesis"
    by (rule that(1) [OF e]) (auto simp: leave_immediately_def save_defs)
  have nonpay: "l_nonpayable L info = Inr ()"
    using assms by (auto simp: execute_leave_trusted_circle_def)
  show thesis
  proof (cases "es_status e")
    case NonVoting
    with assms e nonpay show thesis by (intro now) (simp_all add: execute_leave_trusted_circle_def)
  next
    case (Pending p)
    show thesis
    proof (cases "es_paid e = 0")
      case True
      with Pending assms e nonpay show thesis
        by (intro now) (simp_all add: execute_leave_trusted_circle_def)
    next
      case False
      with Pending assms e show thesis
        by (intro that(2) [OF e]) (auto simp: execute_leave_trusted_circle_def)
    qed
  qed (use assms e in \<open>auto simp: execute_leave_trusted_circle_def intro: that(2) [OF e]\<close>)
qed

text \<open>
  A loop over the entries selected from the escrows at its start, each round of which changes
  the entry of its own address only: every round finds the entry it was given.
\<close>

lemma foldE_snapshot:
  assumes "foldE f s (filter Q (s_escrows s)) = Inr s'" and "sorted_store (s_escrows s)" and "P s"
    and step: "\<And>s a e s1. P s \<Longrightarrow> sget (s_escrows s) a = Some e \<Longrightarrow> Q (a, e) \<Longrightarrow> f s (a, e) = Inr s1 \<Longrightarrow>
      P s1 \<and> (\<forall>b. b \<noteq> a \<longrightarrow> sget (s_escrows s1) b = sget (s_escrows s) b)"
  shows "P s'"
proof -
  let ?es = "filter Q (s_escrows s)"
  let ?I = "\<lambda>es x. P x \<and> distinct (map fst es)
    \<and> (\<forall>(a, e) \<in> set es. sget (s_escrows x) a = Some e \<and> Q (a, e))"
  have "distinct (map fst ?es)"
    using kv.entries_distinct [OF assms(2)] by (simp add: distinct_map_filter)
  with assms(2,3) have start: "?I ?es s" by (auto simp: kv.entries_get)
  have "?I [] s'"
  proof (rule foldE_rule [OF assms(1), where P = ?I, OF start])
    fix x es y y'
    assume I: "?I (x # es) y" and f: "f y x = Inr y'"
    obtain a e where x: "x = (a, e)" by (cases x)
    from I x have y: "P y" "sget (s_escrows y) a = Some e" "Q (a, e)" by simp_all
    from f x have "P y' \<and> (\<forall>b. b \<noteq> a \<longrightarrow> sget (s_escrows y') b = sget (s_escrows y) b)"
      by (intro step [OF y]) simp
    moreover have "b \<noteq> a" if "(b, c) \<in> set es" for b c
      using I x that by (auto simp: image_iff)
    ultimately show "?I es y'" using I x by (auto split: prod.splits)
  qed
  then show ?thesis by simp
qed

lemma add_non_voting_shape [shapes]:
  assumes "add_non_voting L Q tc h s r = Inr s'"
  obtains (same) "s' = s"
  | (new) a where "sget (s_members s) a = None"
      "s' = s\<lparr>s_members := sput a (member_info_new 0) (s_members s),
         s_history := s_history s @ [(h, a, Some (member_info_new 0))],
         s_escrows := sput a escrow_non_voting (s_escrows s)\<rparr>"
proof -
  from assms obtain a where a: "ensure_not_denied L Q tc r = Inr a" by (auto simp: add_non_voting_def)
  show thesis
  proof (cases "sget (s_members s) a")
    case None
    with a assms show thesis by (intro new [of a]) (auto simp: add_non_voting_def save_defs)
  next
    case (Some e)
    with a assms show thesis by (intro same) (auto simp: add_non_voting_def)
  qed
qed

lemma remove_non_voting_shape [shapes]:
  assumes "remove_non_voting L h s r = Inr s'"
  obtains (none) a where "sget (s_escrows s) a = None" "s' = s"
  | (some) a e where "sget (s_escrows s) a = Some e" "es_status e = NonVoting"
      "s' = s\<lparr>s_members := sdel a (s_members s), s_history := s_history s @ [(h, a, None)],
         s_escrows := sdel a (s_escrows s)\<rparr>"
proof -
  from assms obtain a where a: "l_addr_validate L r = Inr a" by (auto simp: remove_non_voting_def)
  show thesis
  proof (cases "sget (s_escrows s) a")
    case None
    with a assms show thesis by (intro none [of a]) (auto simp: remove_non_voting_def)
  next
    case (Some e)
    with a assms show thesis
      by (intro some [of a e]) (auto simp: remove_non_voting_def save_defs split: if_splits)
  qed
qed

text \<open>One punishment: what is slashed, what is left, and the three ways to go on.\<close>

lemma punish_shape:
  assumes "punish_one L env i (s, res, dem) (k, p) = Inr (s', res', dem')"
  obtains e tc sl msgs left where
    "sget (s_escrows s) (pun_member p) = Some e" "es_status e \<noteq> NonVoting" "s_circle s = Some tc"
    "l_mul_decimal L (es_paid e) (pun_slashing p) = Some sl"
    "slash_payout p (tc_denom tc) sl (es_paid e - sl) = Inr (msgs, left)"
    "(pun_kick_out p \<and> (\<exists>r. trigger_long_leave L env (pun_member p) (e\<lparr>es_paid := left\<rparr>) s = Inr (s', r)))
      \<or> (\<not> pun_kick_out p \<and> left < get_escrow tc \<and>
          demote_punished i (b_height (e_block env)) (pun_member p) (e\<lparr>es_paid := left\<rparr>) s = Inr s')
      \<or> (\<not> pun_kick_out p \<and> get_escrow tc \<le> left \<and> s' = save_escrow (pun_member p) (e\<lparr>es_paid := left\<rparr>) s)"
    "r_messages res' = r_messages res @ msgs"
proof -
  let ?a = "pun_member p" and ?res = "add_event (punishment_event p k) res"
  from assms obtain e where e: "sget (s_escrows s) ?a = Some e"
    by (cases "sget (s_escrows s) ?a") (auto simp: punish_one_def Let_def load_def)
  with assms have st: "es_status e \<noteq> NonVoting" by (auto simp: punish_one_def Let_def)
  with e assms obtain tc sl msgs left where
    "s_circle s = Some tc" "l_mul_decimal L (es_paid e) (pun_slashing p) = Some sl"
    "slash_payout p (tc_denom tc) sl (es_paid e - sl) = Inr (msgs, left)"
    by (auto simp: punish_one_def Let_def)
  note found = e st this
  from assms found have rest: "(if pun_kick_out p then
             bindE (trigger_long_leave L env ?a (e\<lparr>es_paid := left\<rparr>) s) (\<lambda>(s, r).
             Inr (s, add_attrs (r_attrs r) (?res\<lparr>r_messages := r_messages res @ msgs\<rparr>), dem))
           else if left < get_escrow tc then
             bindE (demote_punished i (b_height (e_block env)) ?a (e\<lparr>es_paid := left\<rparr>) s) (\<lambda>s.
             Inr (s, ?res\<lparr>r_messages := r_messages res @ msgs\<rparr>, dem @ [?a]))
           else Inr (save_escrow ?a (e\<lparr>es_paid := left\<rparr>) s, ?res\<lparr>r_messages := r_messages res @ msgs\<rparr>, dem))
      = Inr (s', res', dem')"
    by (simp add: punish_one_def Let_def split del: if_split cong: if_cong)
  from rest show thesis
    by (intro that [OF found]) (auto simp: not_less split: if_splits)
qed

end
