(* ===== verification/TC_Effects.thy ===== *)
theory TC_Effects
  imports TC_Frames
begin

text \<open>
  What each operation does to the governance side of the state (the circle, the proposals, the
  ballots). Everything that moves members leaves it alone, except that a voter who leaves is
  taken out of the total points of open proposals. The invariants about proposals and about
  the circle are proved from these facts.
\<close>

section \<open>Proposals that only lose points\<close>

definition adjusted_one :: "proposal \<Rightarrow> proposal \<Rightarrow> bool" where
  "adjusted_one p p' \<longleftrightarrow> p' = p \<or> (pr_status p = StOpen \<and> (\<exists>t. p' = p\<lparr>pr_total_points := t\<rparr>))"

definition adjusted :: "(u64, proposal) store \<Rightarrow> (u64, proposal) store \<Rightarrow> bool" where
  "adjusted ps ps' \<longleftrightarrow> (sorted_store ps \<longrightarrow> sorted_store ps')
     \<and> (\<forall>i. rel_option adjusted_one (sget ps i) (sget ps' i))"

lemma adjusted_one_refl [simp]: "adjusted_one p p"
  by (simp add: adjusted_one_def)

lemma adjusted_one_trans: "adjusted_one p q \<Longrightarrow> adjusted_one q r \<Longrightarrow> adjusted_one p r"
  by (auto simp: adjusted_one_def)

lemma rel_option_trans:
  "rel_option R a b \<Longrightarrow> rel_option R b c \<Longrightarrow> (\<And>x y z. R x y \<Longrightarrow> R y z \<Longrightarrow> R x z) \<Longrightarrow> rel_option R a c"
  by (cases a; cases b; cases c) auto

lemma rel_option_None: "rel_option R a b \<Longrightarrow> b = None \<longleftrightarrow> a = None"
  by (cases a; cases b) auto

lemma adjusted_refl [simp]: "adjusted ps ps"
  by (simp add: adjusted_def option.rel_refl)

lemma adjusted_trans: "adjusted p q \<Longrightarrow> adjusted q r \<Longrightarrow> adjusted p r"
  unfolding adjusted_def by (blast intro: rel_option_trans adjusted_one_trans)

lemma adjusted_SomeD:
  assumes "adjusted ps ps'" and "sget ps' i = Some p'"
  obtains p where "sget ps i = Some p" "adjusted_one p p'"
proof -
  have "rel_option adjusted_one (sget ps i) (Some p')" using assms by (metis adjusted_def)
  then show thesis by (cases "sget ps i") (auto intro: that)
qed

lemma adjusted_SomeI:
  assumes "adjusted ps ps'" and "sget ps i = Some p"
  obtains p' where "sget ps' i = Some p'" "adjusted_one p p'"
proof -
  have "rel_option adjusted_one (Some p) (sget ps' i)" using assms by (metis adjusted_def)
  then show thesis by (cases "sget ps' i") (auto intro: that)
qed

lemma adjusted_None: "adjusted ps ps' \<Longrightarrow> sget ps' i = None \<longleftrightarrow> sget ps i = None"
  unfolding adjusted_def by (blast dest: rel_option_None)

lemma adjusted_one_same:
  "adjusted_one p p' \<Longrightarrow> pr_title p' = pr_title p \<and> pr_description p' = pr_description p
     \<and> pr_start_height p' = pr_start_height p \<and> pr_expires p' = pr_expires p
     \<and> pr_proposal p' = pr_proposal p \<and> pr_status p' = pr_status p \<and> pr_rules p' = pr_rules p
     \<and> pr_votes p' = pr_votes p"
  by (auto simp: adjusted_one_def)

text \<open>No member ever had more than one point.\<close>

definition unit_history :: "history \<Rightarrow> bool" where
  "unit_history hs \<longleftrightarrow> (\<forall>(h, a, m) \<in> set hs. points_of m \<le> 1)"

lemma unit_history_simps [simp]:
  "unit_history []"
  "unit_history (hs @ [(h, a, m)]) \<longleftrightarrow> unit_history hs \<and> points_of m \<le> 1"
  "points_of None = 0" "points_of (Some (member_info_new p)) = p"
  by (auto simp: unit_history_def points_of_def)

text \<open>The history of the members is only ever appended to.\<close>

definition history_grows :: "history \<Rightarrow> history \<Rightarrow> bool" where
  "history_grows hs hs' \<longleftrightarrow> (\<exists>ws. hs' = hs @ ws \<and> unit_history ws)"

lemma history_grows_simps [simp]:
  "history_grows hs hs"
  "history_grows hs (hs @ [(h, a, m)]) \<longleftrightarrow> points_of m \<le> 1"
  "history_grows [] hs \<longleftrightarrow> unit_history hs"
  by (auto simp: history_grows_def unit_history_def)

lemma history_grows_trans: "history_grows x y \<Longrightarrow> history_grows y z \<Longrightarrow> history_grows x z"
  unfolding history_grows_def unit_history_def by fastforce

lemma history_grows_unit: "history_grows hs hs' \<Longrightarrow> unit_history hs \<Longrightarrow> unit_history hs'"
  by (auto simp: history_grows_def unit_history_def)

definition proposals_kept :: "tc_state \<Rightarrow> tc_state \<Rightarrow> bool" where
  "proposals_kept s s' \<longleftrightarrow> s_proposal_count s' = s_proposal_count s
     \<and> history_grows (s_history s) (s_history s')
     \<and> s_by_expiry s' = s_by_expiry s \<and> s_ballots s' = s_ballots s
     \<and> adjusted (s_proposals s) (s_proposals s')"

definition governance_kept :: "tc_state \<Rightarrow> tc_state \<Rightarrow> bool" where
  "governance_kept s s' \<longleftrightarrow> proposals_kept s s' \<and> s_circle s' = s_circle s"

lemmas kept_defs = governance_kept_def proposals_kept_def

lemma proposals_kept_refl [simp]: "proposals_kept s s"
  by (simp add: proposals_kept_def)

lemma proposals_kept_trans: "proposals_kept s t \<Longrightarrow> proposals_kept t u \<Longrightarrow> proposals_kept s u"
  by (auto simp: proposals_kept_def intro: adjusted_trans history_grows_trans)

lemma governance_kept_refl [simp]: "governance_kept s s"
  by (simp add: governance_kept_def)

lemma governance_kept_trans [trans]: "governance_kept s t \<Longrightarrow> governance_kept t u \<Longrightarrow> governance_kept s u"
  by (auto simp: governance_kept_def intro: proposals_kept_trans)

section \<open>Operations on members\<close>

lemma adjust_proposal_governance:
  "adjust_proposal leaver s e = Inr s' \<Longrightarrow> governance_kept s s'"
  by (auto simp: adjust_proposal_def kept_defs save_defs adjusted_def adjusted_one_def
      option.rel_refl split: prod.splits if_splits)

lemma adjust_open_governance:
  "adjust_open_proposals_for_leaver L env leaver s = Inr s' \<Longrightarrow> governance_kept s s'"
  unfolding adjust_open_proposals_for_leaver_def Let_def
  by (erule foldE_related) (auto intro: governance_kept_trans adjust_proposal_governance)

lemma convert_governance:
  "convert_to_voter_if_paid a h s = Inr (s', y) \<Longrightarrow> governance_kept s s'"
  by (erule convert_shape) (auto simp: kept_defs)

lemma promote_all_governance:
  assumes "convert_all_paid_members_to_voters i b h s = Inr (s', ev)"
  shows "governance_kept s s'"
proof -
  have start: "governance_kept s s" by simp
  from assms start obtain n s1 d where I: "governance_kept s s1"
    and pos: "0 < n \<Longrightarrow> \<exists>t. s_total s1 = Some t \<and> s' = s1\<lparr>s_dist := d,
       s_batches := sput i (b\<lparr>ba_promoted := True\<rparr>) (s_batches s1), s_total := Some (t + n)\<rparr>"
    and zero: "n = 0 \<Longrightarrow> s' = s1\<lparr>s_dist := d, s_batches := sput i (b\<lparr>ba_promoted := True\<rparr>) (s_batches s1)\<rparr>"
    by (rule promote_all_rule [where I = "\<lambda>n x. governance_kept s x"])
       (auto intro: governance_kept_trans convert_governance)
  have "governance_kept s1 s'"
    using pos zero by (cases "n = 0") (auto simp: kept_defs word_gt_0)
  with I show ?thesis by (rule governance_kept_trans)
qed

lemma correct_governance: "correct diff s = Inr s' \<Longrightarrow> governance_kept s s'"
  by (auto dest!: correct_shape simp: kept_defs)

lemma update_batch_governance:
  assumes "update_batch_after_escrow_paid L env p a s = Inr (s', ev)"
  shows "governance_kept s s'"
proof -
  have sb: "governance_kept s (save_batch i b s)" for i b
    by (simp add: kept_defs save_batch_def)
  have st: "governance_kept s x \<Longrightarrow> governance_kept s (x\<lparr>s_total := t\<rparr>)" for x t
    by (simp add: kept_defs)
  show ?thesis
    using assms
    by (auto simp: update_batch_after_escrow_paid_def Let_def
        dest!: convert_governance correct_governance
        intro: promote_all_governance sb governance_kept_trans [OF sb] governance_kept_trans [OF st]
        split: bool.splits if_splits)
qed

lemma deposit_governance:
  assumes "execute_deposit_escrow L env info s = Inr (s', r)"
  shows "governance_kept s s'"
proof -
  have es: "governance_kept s (s\<lparr>s_escrows := x\<rparr>)" for x by (simp add: kept_defs)
  show ?thesis
    using assms by (rule deposit_shape)
      (auto intro: es governance_kept_trans [OF es update_batch_governance])
qed

lemma return_governance:
  "execute_return_escrow L env info s = Inr (s', r) \<Longrightarrow> governance_kept s s'"
  by (erule return_shape) (auto simp: kept_defs)

lemma long_leave_governance:
  assumes "trigger_long_leave L env a e s = Inr (s', r)"
  shows "governance_kept s s'"
proof -
  have es: "governance_kept x y \<Longrightarrow> governance_kept x (save_escrow a e y)" for x y a e
    by (simp add: kept_defs save_escrow_def)
  have mem: "governance_kept s (save_member a 0 h s\<lparr>s_total := t, s_dist := d\<rparr>)" for t d h
    by (simp add: kept_defs save_member_def)
  show ?thesis
    using assms
    by (auto simp: trigger_long_leave_def retire_voter_def Let_def
        dest!: correct_shape adjust_open_governance
        intro!: es governance_kept_refl intro: governance_kept_trans [OF mem] split: if_splits)
qed

lemma leave_governance:
  "execute_leave_trusted_circle L env info s = Inr (s', r) \<Longrightarrow> governance_kept s s'"
  by (erule leave_shape) (auto simp: kept_defs dest: long_leave_governance)

lemma demote_governance: "demote_one p h s e = Inr s' \<Longrightarrow> governance_kept s s'"
  by (cases e) (auto elim!: demote_shape simp: kept_defs)

lemma promote_pending_governance: "promote_pending s e = Inr s' \<Longrightarrow> governance_kept s s'"
  by (cases e) (auto elim!: promote_pending_shape simp: kept_defs)

lemma create_batch_governance: "create_batch L env i g as s = Inr s' \<Longrightarrow> governance_kept s s'"
  by (auto elim!: create_batch_shape simp: kept_defs)

section \<open>Pending changes\<close>

lemma demote_promote_governance:
  "pending_escrow_demote_promote_members L env p x y h s = Inr (s', ev) \<Longrightarrow> governance_kept s s'"
  by (auto simp: pending_escrow_demote_promote_members_def Let_def split: if_splits
      dest!: create_batch_governance foldE_related [where R = governance_kept]
      intro: governance_kept_trans demote_governance promote_pending_governance)

definition settled :: "trusted_circle \<Rightarrow> pending_escrow \<Rightarrow> trusted_circle" where
  "settled tc pe = tc\<lparr>tc_escrow_amount := pe_amount pe, tc_escrow_pending := None\<rparr>"

lemma check_escrow_shape:
  assumes "check_pending_escrow L env s = Inr (s', ev)"
  obtains (kept) "s' = s"
  | (settle) tc pe x evt where "s_circle s = Some tc" "tc_escrow_pending tc = Some pe"
      "pe_grace_ends_at pe \<le> l_seconds L (b_time (e_block env))"
      "pending_escrow_demote_promote_members L env (pe_proposal_id pe) (tc_escrow_amount tc)
         (pe_amount pe) (b_height (e_block env)) s = Inr (x, evt)"
      "s' = x\<lparr>s_circle := Some (settled tc pe)\<rparr>"
proof -
  from assms obtain tc where tc: "s_circle s = Some tc" by (auto simp: check_pending_escrow_def)
  show thesis
  proof (cases "\<exists>pe. tc_escrow_pending tc = Some pe \<and> pe_grace_ends_at pe \<le> l_seconds L (b_time (e_block env))")
    case True
    then obtain pe where pe: "tc_escrow_pending tc = Some pe"
      "pe_grace_ends_at pe \<le> l_seconds L (b_time (e_block env))" by blast
    with assms tc show thesis
      by (auto simp: check_pending_escrow_def Let_def settled_def intro: settle [OF tc pe])
  next
    case False
    with assms tc show thesis
      by (intro kept) (auto simp: check_pending_escrow_def split: option.splits)
  qed
qed

lemma check_pending_escrow_governance:
  assumes "check_pending_escrow L env s = Inr (s', ev)"
  obtains (kept) "s' = s"
  | (settle) tc pe where "s_circle s = Some tc" "tc_escrow_pending tc = Some pe"
      "pe_grace_ends_at pe \<le> l_seconds L (b_time (e_block env))"
      "proposals_kept s s'" "s_circle s' = Some (settled tc pe)"
  using assms
proof (cases rule: check_escrow_shape)
  case (settle tc pe x evt)
  then show thesis
    by (intro that(2) [of tc pe]) (auto simp: kept_defs dest!: demote_promote_governance)
qed (rule that(1))

lemma check_batches_governance:
  assumes "check_pending_batches L b s = Inr (s', ev)"
  shows "governance_kept s s'"
proof -
  have "case (s', ev) of (x, _) \<Rightarrow> governance_kept s x"
    by (rule foldE_invariant [OF assms [unfolded check_pending_batches_def], where P = "\<lambda>(x, _). governance_kept s x"])
       (auto simp: promote_batch_def dest!: promote_all_governance intro: governance_kept_trans)
  then show ?thesis by simp
qed

lemma check_pending_governance:
  assumes "check_pending L env s = Inr (s', ev)"
  obtains (kept) "governance_kept s s'"
  | (settle) tc pe where "s_circle s = Some tc" "tc_escrow_pending tc = Some pe"
      "pe_grace_ends_at pe \<le> l_seconds L (b_time (e_block env))"
      "proposals_kept s s'" "s_circle s' = Some (settled tc pe)"
proof -
  from assms obtain s1 ev1 ev2 where 1: "check_pending_escrow L env s = Inr (s1, ev1)"
    and 2: "check_pending_batches L (e_block env) s1 = Inr (s', ev2)"
    by (auto simp: check_pending_def)
  note g = check_batches_governance [OF 2]
  from 1 show thesis
  proof (cases rule: check_pending_escrow_governance)
    case kept
    with g show thesis by (intro that(1)) simp
  next
    case (settle tc pe)
    with g show thesis
      by (intro that(2) [of tc pe]) (auto simp: governance_kept_def intro: proposals_kept_trans)
  qed
qed

lemma check_pending_governance_kept:
  "check_pending L env s = Inr (s', ev) \<Longrightarrow> proposals_kept s s'"
  by (erule check_pending_governance) (auto simp: governance_kept_def)

section \<open>Executed proposals\<close>

lemma add_non_voting_governance: "add_non_voting L Q tc h s a = Inr s' \<Longrightarrow> governance_kept s s'"
  by (auto simp: add_non_voting_def kept_defs save_defs)

lemma remove_non_voting_governance: "remove_non_voting L h s a = Inr s' \<Longrightarrow> governance_kept s s'"
  by (auto simp: remove_non_voting_def kept_defs save_defs split: option.splits if_splits)

lemma add_remove_governance:
  "add_remove_non_voting_members L Q tc h as rs s = Inr (s', ev) \<Longrightarrow> governance_kept s s'"
  by (auto simp: add_remove_non_voting_members_def Let_def
      dest!: foldE_related [where R = governance_kept]
      intro: governance_kept_trans add_non_voting_governance remove_non_voting_governance)

lemma add_voting_governance: "add_voting_member p h s a = Inr s' \<Longrightarrow> governance_kept s s'"
  by (auto simp: add_voting_member_def Let_def kept_defs save_defs)

lemma punish_governance:
  assumes "punish_one L env i (s, res, dem) (k, p) = Inr (s', res', dem')"
  shows "governance_kept s s'"
proof -
  have "demote_punished i h a e s = Inr x \<Longrightarrow> governance_kept s x" for h a e x
    by (erule demote_punished_shape) (auto simp: kept_defs)
  with assms show ?thesis
    by (auto simp: punish_one_def Let_def dest: long_leave_governance split: if_splits prod.splits)
       (auto simp: kept_defs save_escrow_def)
qed

lemma punish_members_governance:
  assumes "proposal_punish_members L env i ps s = Inr (s', r)"
  shows "governance_kept s s'"
proof -
  from assms obtain es acc s1 r1 dem
    where loop: "foldE (punish_one L env i) (s, r1, []) es = Inr (s1, acc, dem)"
      and batch: "create_batch L env i 0 dem s1 = Inr s'"
    by (auto simp: proposal_punish_members_def Let_def)
  have "case (s1, acc, dem) of (x, _) \<Rightarrow> governance_kept s x"
    by (rule foldE_invariant [OF loop, where P = "\<lambda>(x, _). governance_kept s x"])
       (auto dest!: punish_governance intro: governance_kept_trans)
  then show ?thesis
    using create_batch_governance [OF batch] by (auto intro: governance_kept_trans)
qed

lemma proposal_execute_governance:
  assumes "proposal_execute L Q env i content s = Inr (s', r)"
  obtains (kept) "governance_kept s s'"
  | (edit) adj tc tc' where "content = EditTrustedCircle adj" "s_circle s = Some tc"
      "apply_adjustments L env i adj tc = Inr tc'" "s' = s\<lparr>s_circle := Some tc'\<rparr>"
proof (cases content)
  case (EditTrustedCircle adj)
  with assms show thesis
    by (auto simp: proposal_execute_def proposal_edit_trusted_circle_def intro: edit)
next
  case (PunishMembers ps)
  with assms show thesis
    by (auto simp: proposal_execute_def intro: kept punish_members_governance)
next
  case (AddVotingMembers as)
  with assms show thesis
    by (auto simp: proposal_execute_def proposal_add_voting_members_def Let_def
        dest!: create_batch_governance foldE_related [where R = governance_kept]
        intro: governance_kept_trans add_voting_governance intro!: kept)
qed (use assms in \<open>auto simp: proposal_execute_def proposal_add_remove_non_voting_members_def
       proposal_whitelist_contract_addr_def proposal_remove_contract_addr_def
       whitelist_contract_addr_def remove_contract_addr_def
       intro!: kept dest: add_remove_governance\<close>)

section \<open>The calls on proposals\<close>

lemma propose_shape:
  assumes "execute_propose L Q env info t d content s = Inr (s', r)"
  obtains s1 ev power tc total p p' i x ballots where
    "check_pending L (at_previous_height env) s = Inr (s1, ev) \<or> (s1 = s \<and> b_height (e_block env) = 0)"
    "power = points_of (sget (s_members s1) (i_sender info))" "power \<noteq> 0"
    "validate_proposal L Q env s1 content = Inr ()"
    "s_circle s1 = Some tc" "s_total s1 = Some total"
    "p = \<lparr>pr_title = t, pr_description = d, pr_start_height = b_height (e_block env),
       pr_expires = AtTime (l_plus_seconds L (b_time (e_block env)) (voting_period_secs (tc_rules tc))),
       pr_proposal = content, pr_status = StOpen, pr_rules = tc_rules tc,
       pr_total_points = total, pr_votes = votes_yes power\<rparr>"
    "update_status L (e_block env) p = Inr p'"
    "i = (case s_proposal_count s1 of None \<Rightarrow> 0 | Some n \<Rightarrow> n) + 1"
    "l_create_ballot L (s_ballots s1) (i_sender info) i power VYes = Inr ballots"
    "s' = s1\<lparr>s_proposal_count := Some i, s_proposals := sput i p' (s_proposals s1),
       s_by_expiry := x, s_ballots := ballots\<rparr>" "r_messages r = []"
proof (cases "0 < b_height (e_block env)")
  case True
  with assms obtain s1 ev where c: "check_pending L (at_previous_height env) s = Inr (s1, ev)"
    by (auto simp: execute_propose_def)
  with True assms show thesis
    by (auto simp: execute_propose_def Let_def create_proposal_def save_proposal_def
        split: if_splits intro!: that [OF disjI1, OF c])
next
  case False
  with assms show thesis
    by (auto simp: execute_propose_def Let_def create_proposal_def save_proposal_def word_gt_0
        split: if_splits intro!: that [OF disjI2])
qed

lemma vote_shape:
  assumes "execute_vote L env info i v s = Inr (s', r)"
  obtains p power e ballots p' where
    "sget (s_proposals s) i = Some p" "pr_status p = StOpen \<or> pr_status p = StPassed"
    "\<not> l_is_expired L (pr_expires p) (e_block env)"
    "power = points_of (l_at_height L (s_history s) (i_sender info) (pr_start_height p))" "power \<noteq> 0"
    "sget (s_escrows s) (i_sender info) = Some e" "es_status e = Voting"
    "l_create_ballot L (s_ballots s) (i_sender info) i power v = Inr ballots"
    "update_status L (e_block env) (p\<lparr>pr_votes := add_vote v power (pr_votes p)\<rparr>) = Inr p'"
    "s' = s\<lparr>s_ballots := ballots, s_proposals := sput i p' (s_proposals s)\<rparr>" "r_messages r = []"
  using assms by (auto simp: execute_vote_def Let_def save_proposal_def split: if_splits)

lemma close_shape:
  assumes "execute_close L env info i s = Inr (s', r)"
  obtains p where "sget (s_proposals s) i = Some p" "pr_status p = StOpen \<or> pr_status p = StPending"
    "l_is_expired L (pr_expires p) (e_block env)"
    "s' = s\<lparr>s_proposals := sput i (p\<lparr>pr_status := StRejected\<rparr>) (s_proposals s)\<rparr>" "r_messages r = []"
proof -
  from assms obtain p where p: "sget (s_proposals s) i = Some p" by (auto simp: execute_close_def)
  with assms show thesis
    by (cases "pr_status p") (auto simp: execute_close_def save_proposal_def split: if_splits intro!: that [OF p])
qed

lemma execute_execute_shape:
  assumes "execute_execute L Q env info i s = Inr (s', r)"
  obtains p r' where "sget (s_proposals s) i = Some p" "pr_status p = StPassed"
    "\<And>tc. s_circle s = Some tc \<Longrightarrow> \<not> frozen_edit (pr_proposal p) tc"
    "proposal_execute L Q env i (pr_proposal p)
       (s\<lparr>s_proposals := sput i (p\<lparr>pr_status := StExecuted\<rparr>) (s_proposals s)\<rparr>) = Inr (s', r')"
    "r_messages r = r_messages r'"
  using assms
  by (auto simp: execute_execute_def Let_def save_proposal_def frozen_edit_def
      split: if_splits proposal_content.splits)

section \<open>Every call\<close>

lemma distribute_shape:
  "execute_distribute_funds Q env info s = Inr (s', r) \<Longrightarrow> \<exists>d. s' = s\<lparr>s_dist := d\<rparr> \<and> r_messages r = []"
  by (auto simp: execute_distribute_funds_def)

lemma withdraw_shape:
  "execute_withdraw_funds info s = Inr (s', r) \<Longrightarrow> \<exists>d. s' = s\<lparr>s_dist := d\<rparr>"
  by (auto simp: execute_withdraw_funds_def split: if_splits)

lemma check_call_shape:
  "execute_check_pending L env info s = Inr (s', r) \<Longrightarrow>
     \<exists>ev. check_pending L env s = Inr (s', ev) \<and> r_messages r = []"
  by (auto simp: execute_check_pending_def)

text \<open>A call is one of the four calls on proposals, a check, or leaves governance alone.\<close>

lemma execute_cases:
  assumes "execute L Q env info msg s = Inr (s', r)"
  obtains
    (propose) t d c where "msg = Propose t d c" "execute_propose L Q env info t d c s = Inr (s', r)"
  | (vote) i v where "msg = Vote i v" "execute_vote L env info i v s = Inr (s', r)"
  | (close) i where "msg = Close i" "execute_close L env info i s = Inr (s', r)"
  | (run) i where "msg = Execute i" "execute_execute L Q env info i s = Inr (s', r)"
  | (check) ev where "msg = CheckPending" "check_pending L env s = Inr (s', ev)"
  | (members) "msg \<in> {DepositEscrow, ReturnEscrow, LeaveTrustedCircle, DistributeRewards, WithdrawRewards}"
      "governance_kept s s'"
proof -
  have dist: "governance_kept s (s\<lparr>s_dist := d\<rparr>)" for d by (simp add: kept_defs)
  show thesis
    using assms
    by (cases msg)
       (auto simp: execute_def dest!: distribute_shape withdraw_shape check_call_shape
         intro: that dist deposit_governance return_governance leave_governance)
qed

end
