(* ===== verification/TC_Circle.thy ===== *)
theory TC_Circle
  imports TC_Effects
begin

text \<open>
  The circle stays valid: its rules, name and escrow pass \<open>validate\<close> in every reachable state,
  although an edit is checked when it is proposed and applied, to a possibly different circle,
  when it is executed. The escrow a voter owes is therefore never below one TGD.
\<close>

lemma validate_rules_Inr:
  "validate_rules r = Inr u \<longleftrightarrow> vr_quorum r \<noteq> 0 \<and> vr_quorum r \<le> percent 100
     \<and> percent 50 \<le> vr_threshold r \<and> vr_threshold r \<le> percent 100
     \<and> vr_voting_period r \<noteq> 0 \<and> vr_voting_period r \<le> 365"
  by (auto simp: validate_rules_def Let_def percent_def not_less)

lemma validate_circle_Inr:
  "validate_circle tc = Inr u \<longleftrightarrow> validate_rules (tc_rules tc) = Inr ()
     \<and> \<not> trimmed_empty (tc_name tc) \<and> length (tc_name tc) \<le> 1024
     \<and> one_tgd \<le> tc_escrow_amount tc
     \<and> (\<forall>pe. tc_escrow_pending tc = Some pe \<longrightarrow> one_tgd \<le> pe_amount pe)"
  by (auto simp: validate_circle_def not_less split: option.splits)

text \<open>Valid new values, each on its own.\<close>

definition valid_adjustments :: "adjustments \<Rightarrow> bool" where
  "valid_adjustments ad \<longleftrightarrow>
     (\<forall>n. ad_name ad = Some n \<longrightarrow> \<not> trimmed_empty n \<and> length n \<le> 1024)
     \<and> (\<forall>x. ad_escrow_amount ad = Some x \<longrightarrow> one_tgd \<le> x)
     \<and> (\<forall>p. ad_voting_period ad = Some p \<longrightarrow> p \<noteq> 0 \<and> p \<le> 365)
     \<and> (\<forall>q. ad_quorum ad = Some q \<longrightarrow> q \<noteq> 0 \<and> q \<le> percent 100)
     \<and> (\<forall>t. ad_threshold ad = Some t \<longrightarrow> percent 50 \<le> t \<and> t \<le> percent 100)"

text \<open>The adjusted circle, as one expression.\<close>

fun given :: "'a option \<Rightarrow> 'a \<Rightarrow> 'a" where
  "given None x = x"
| "given (Some y) _ = y"

definition adjusted_escrow ::
  "cw_lib \<Rightarrow> env \<Rightarrow> u64 \<Rightarrow> adjustments \<Rightarrow> trusted_circle \<Rightarrow> pending_escrow option" where
  "adjusted_escrow L env i ad tc = (case ad_escrow_amount ad of None \<Rightarrow> tc_escrow_pending tc
     | Some x \<Rightarrow> if x = tc_escrow_amount tc then None
         else Some \<lparr>pe_proposal_id = i, pe_amount = x,
           pe_grace_ends_at = l_seconds L (l_plus_seconds L (b_time (e_block env)) (voting_period_secs
             ((tc_rules tc)\<lparr>vr_voting_period := given (ad_voting_period ad) (vr_voting_period (tc_rules tc))\<rparr>)))\<rparr>)"

lemma opt_updates:
  "(case n of None \<Rightarrow> tc | Some x \<Rightarrow> tc\<lparr>tc_name := x\<rparr>) = tc\<lparr>tc_name := given n (tc_name tc)\<rparr>"
  "(case b of None \<Rightarrow> tc | Some x \<Rightarrow> tc\<lparr>tc_edit_disabled := x\<rparr>)
     = tc\<lparr>tc_edit_disabled := given b (tc_edit_disabled tc)\<rparr>"
  "(case p of None \<Rightarrow> tc | Some x \<Rightarrow> tc\<lparr>tc_rules := (tc_rules tc)\<lparr>vr_voting_period := x\<rparr>\<rparr>)
     = tc\<lparr>tc_rules := (tc_rules tc)\<lparr>vr_voting_period := given p (vr_voting_period (tc_rules tc))\<rparr>\<rparr>"
  "(case q of None \<Rightarrow> tc | Some x \<Rightarrow> tc\<lparr>tc_rules := (tc_rules tc)\<lparr>vr_quorum := x\<rparr>\<rparr>)
     = tc\<lparr>tc_rules := (tc_rules tc)\<lparr>vr_quorum := given q (vr_quorum (tc_rules tc))\<rparr>\<rparr>"
  "(case t of None \<Rightarrow> tc | Some x \<Rightarrow> tc\<lparr>tc_rules := (tc_rules tc)\<lparr>vr_threshold := x\<rparr>\<rparr>)
     = tc\<lparr>tc_rules := (tc_rules tc)\<lparr>vr_threshold := given t (vr_threshold (tc_rules tc))\<rparr>\<rparr>"
  "(case e of None \<Rightarrow> tc | Some x \<Rightarrow> tc\<lparr>tc_rules := (tc_rules tc)\<lparr>vr_allow_end_early := x\<rparr>\<rparr>)
     = tc\<lparr>tc_rules := (tc_rules tc)\<lparr>vr_allow_end_early := given e (vr_allow_end_early (tc_rules tc))\<rparr>\<rparr>"
  by (simp_all split: option.splits)

lemma adjust_escrow_Inr:
  "adjust_escrow L env i x tc = Inr tc' \<Longrightarrow> (tc_escrow_pending tc = None \<or> x = None)
     \<and> tc' = tc\<lparr>tc_escrow_pending := (case x of None \<Rightarrow> tc_escrow_pending tc
        | Some y \<Rightarrow> if y = tc_escrow_amount tc then None
            else Some \<lparr>pe_proposal_id = i, pe_amount = y,
              pe_grace_ends_at = l_seconds L (l_plus_seconds L (b_time (e_block env))
                (voting_period_secs (tc_rules tc)))\<rparr>)\<rparr>"
  by (auto simp: adjust_escrow_def split: option.splits if_splits)

lemma apply_adjustments_Inr:
  assumes "apply_adjustments L env i ad tc = Inr tc'"
  shows "(tc_escrow_pending tc = None \<or> ad_escrow_amount ad = None) \<and> tc' = tc\<lparr>
       tc_name := given (ad_name ad) (tc_name tc),
       tc_escrow_pending := adjusted_escrow L env i ad tc,
       tc_rules := (tc_rules tc)\<lparr>vr_voting_period := given (ad_voting_period ad) (vr_voting_period (tc_rules tc)),
         vr_quorum := given (ad_quorum ad) (vr_quorum (tc_rules tc)),
         vr_threshold := given (ad_threshold ad) (vr_threshold (tc_rules tc)),
         vr_allow_end_early := given (ad_allow_end_early ad) (vr_allow_end_early (tc_rules tc))\<rparr>,
       tc_edit_disabled := given (ad_edit_disabled ad) (tc_edit_disabled tc)\<rparr>"
proof -
  from assms obtain tc1 where
    1: "adjust_escrow L env i (ad_escrow_amount ad)
          (tc\<lparr>tc_name := given (ad_name ad) (tc_name tc),
            tc_rules := (tc_rules tc)\<lparr>vr_voting_period :=
              given (ad_voting_period ad) (vr_voting_period (tc_rules tc))\<rparr>\<rparr>) = Inr tc1"
    and 2: "tc' = tc1\<lparr>tc_rules := (tc_rules tc1)\<lparr>
         vr_quorum := given (ad_quorum ad) (vr_quorum (tc_rules tc1)),
         vr_threshold := given (ad_threshold ad) (vr_threshold (tc_rules tc1)),
         vr_allow_end_early := given (ad_allow_end_early ad) (vr_allow_end_early (tc_rules tc1))\<rparr>,
       tc_edit_disabled := given (ad_edit_disabled ad) (tc_edit_disabled tc1)\<rparr>"
    unfolding apply_adjustments_def Let_def opt_updates by auto
  show ?thesis
    using adjust_escrow_Inr [OF 1] 2 by (simp add: adjusted_escrow_def split: option.split)
qed

lemma adjustments_keep_valid:
  assumes "apply_adjustments L env i ad tc = Inr tc'" and "validate_circle tc = Inr ()"
  shows "validate_circle tc' = Inr () \<longleftrightarrow> valid_adjustments ad"
  using assms(2) apply_adjustments_Inr [OF assms(1)]
  by (cases "ad_name ad"; cases "ad_voting_period ad"; cases "ad_quorum ad"; cases "ad_threshold ad")
     (auto simp: validate_circle_Inr validate_rules_Inr valid_adjustments_def adjusted_escrow_def
       split: option.splits)

definition proposal_valid :: "proposal \<Rightarrow> bool" where
  "proposal_valid p \<longleftrightarrow> validate_rules (pr_rules p) = Inr ()
     \<and> (\<forall>ad. pr_proposal p = EditTrustedCircle ad \<longrightarrow> valid_adjustments ad)
     \<and> (\<forall>ps x. pr_proposal p = PunishMembers ps \<longrightarrow> x \<in> set ps \<longrightarrow> pun_slashing x \<le> decimal_one)"

lemma validate_punishment_slashing:
  "validate_punishment L s x = Inr u \<Longrightarrow> pun_slashing x \<le> decimal_one"
  by (cases x) (auto simp: validate_punishment_def validate_punished_def split: if_splits)

definition circle_inv :: "tc_state \<Rightarrow> bool" where
  "circle_inv s \<longleftrightarrow> (\<exists>tc. s_circle s = Some tc \<and> validate_circle tc = Inr ())
     \<and> (\<forall>i p. sget (s_proposals s) i = Some p \<longrightarrow> proposal_valid p)"

lemma proposals_valid_kept:
  assumes "proposals_kept s s'" and "\<forall>i p. sget (s_proposals s) i = Some p \<longrightarrow> proposal_valid p"
  shows "\<forall>i p. sget (s_proposals s') i = Some p \<longrightarrow> proposal_valid p"
proof (intro allI impI)
  fix i p'
  assume "sget (s_proposals s') i = Some p'"
  with assms(1) obtain p where "sget (s_proposals s) i = Some p" "adjusted_one p p'"
    by (auto simp: proposals_kept_def elim: adjusted_SomeD)
  with assms(2) show "proposal_valid p'"
    using adjusted_one_same [of p p'] by (auto simp: proposal_valid_def)
qed

lemma circle_inv_kept: "governance_kept s s' \<Longrightarrow> circle_inv s \<Longrightarrow> circle_inv s'"
  unfolding circle_inv_def governance_kept_def using proposals_valid_kept by auto

lemma circle_inv_save:
  "circle_inv s \<Longrightarrow> proposal_valid p \<Longrightarrow> s_circle s' = s_circle s \<Longrightarrow>
     s_proposals s' = sput i p (s_proposals s) \<Longrightarrow> circle_inv s'"
  by (auto simp: circle_inv_def)

lemma settled_valid:
  "validate_circle tc = Inr () \<Longrightarrow> tc_escrow_pending tc = Some pe \<Longrightarrow> validate_circle (settled tc pe) = Inr ()"
  by (auto simp: validate_circle_Inr settled_def)

lemma check_pending_circle:
  assumes "check_pending L env s = Inr (s', ev)" and "circle_inv s"
  shows "circle_inv s'"
  using assms(1)
proof (cases rule: check_pending_governance)
  case kept
  then show ?thesis using assms(2) by (rule circle_inv_kept)
next
  case (settle tc pe)
  with assms(2) show ?thesis
    using proposals_valid_kept [of s s'] settled_valid [of tc pe] by (auto simp: circle_inv_def)
qed

lemma propose_circle:
  assumes "execute_propose L Q env info t d c s = Inr (s', r)" and "circle_inv s"
  shows "circle_inv s'"
  using assms(1)
proof (cases rule: propose_shape)
  case (1 s1 ev power tc total p p' i x ballots)
  have s1: "circle_inv s1" using 1(1) assms(2) by (auto intro: check_pending_circle)
  with 1(5) have tc: "validate_circle tc = Inr ()" by (auto simp: circle_inv_def)
  have "valid_adjustments ad" if "c = EditTrustedCircle ad" for ad
    using 1(4,5) that adjustments_keep_valid [OF _ tc]
    by (auto simp: validate_proposal_def split: if_splits)
  moreover have "pun_slashing x \<le> decimal_one" if "c = PunishMembers ps" "x \<in> set ps" for ps x
    using 1(4) that
    by (auto simp: validate_proposal_def checkE_Inr intro: validate_punishment_slashing split: if_splits)
  ultimately have "proposal_valid p'" using tc 1(7,8)
    by (auto simp: proposal_valid_def validate_circle_Inr dest!: update_status_shape)
  with s1 1(11) show ?thesis by (intro circle_inv_save [OF s1]) auto
qed

lemma execute_proposal_circle:
  assumes "execute_execute L Q env info i s = Inr (s', r)" and "circle_inv s"
  shows "circle_inv s'"
  using assms(1)
proof (cases rule: execute_execute_shape)
  case (1 p r')
  let ?s = "s\<lparr>s_proposals := sput i (p\<lparr>pr_status := StExecuted\<rparr>) (s_proposals s)\<rparr>"
  have p: "proposal_valid p" using 1(1) assms(2) by (auto simp: circle_inv_def)
  then have s: "circle_inv ?s"
    by (intro circle_inv_save [OF assms(2), of "p\<lparr>pr_status := StExecuted\<rparr>"]) (auto simp: proposal_valid_def)
  from 1(4) show ?thesis
  proof (cases rule: proposal_execute_governance)
    case kept
    then show ?thesis using s by (rule circle_inv_kept)
  next
    case (edit adj tc tc')
    with p s adjustments_keep_valid [OF edit(3)] show ?thesis
      by (auto simp: circle_inv_def proposal_valid_def)
  qed
qed

lemma execute_circle:
  assumes "execute L Q env info msg s = Inr (s', r)" and "circle_inv s"
  shows "circle_inv s'"
  using assms(1)
proof (cases rule: execute_cases)
  case (vote i v)
  from vote(2) show ?thesis
  proof (cases rule: vote_shape)
    case (1 p power e ballots p')
    with assms(2) have "proposal_valid p'"
      by (auto simp: circle_inv_def proposal_valid_def dest!: update_status_shape)
    with 1 assms(2) show ?thesis by (intro circle_inv_save [OF assms(2)]) auto
  qed
next
  case (close i)
  from close(2) show ?thesis
  proof (cases rule: close_shape)
    case (1 p)
    with assms(2) show ?thesis
      by (intro circle_inv_save [OF assms(2), of "p\<lparr>pr_status := StRejected\<rparr>"])
         (auto simp: circle_inv_def proposal_valid_def)
  qed
qed (use assms(2) in \<open>auto intro: propose_circle execute_proposal_circle check_pending_circle circle_inv_kept\<close>)

lemma instantiate_shape:
  assumes "instantiate L Q env info msg empty_state = Inr (s, r)"
  obtains tc amount ev where "circle_of_msg L msg = Inr tc" "validate_circle tc = Inr ()"
    "l_must_pay L info (im_denom msg) = Inr amount" "get_escrow tc \<le> amount"
    "add_remove_non_voting_members L Q tc (b_height (e_block env)) (im_initial_members msg) []
       (empty_state\<lparr>s_version := Some (''crates.io:tgrade-trusted_circle'', ''0.15.0''),
          s_circle := Some tc,
          s_escrows := sput (i_sender info) \<lparr>es_paid = amount, es_status = Voting\<rparr> [],
          s_members := sput (i_sender info) (member_info_new 1) [],
          s_history := [(b_height (e_block env), i_sender info, Some (member_info_new 1))],
          s_total := Some 1, s_dist := dist_init (im_reward_denom msg) (s_dist empty_state)\<rparr>)
     = Inr (s, ev)" "r_messages r = []"
  using assms
  by (auto simp: instantiate_def Let_def save_defs empty_state_def split: if_splits)

lemma instantiate_circle:
  assumes "instantiate L Q env info msg empty_state = Inr (s, r)"
  shows "circle_inv s"
  using assms
proof (cases rule: instantiate_shape)
  case (1 tc amount ev)
  from add_remove_governance [OF 1(5)] show ?thesis
    by (rule circle_inv_kept) (use 1(2) in \<open>auto simp: circle_inv_def empty_state_def\<close>)
qed

lemma reachable_circle: "tc_reachable L s \<Longrightarrow> circle_inv s"
  by (erule tc_invariantI) (auto intro: instantiate_circle execute_circle)

lemma reachable_escrow:
  assumes "tc_reachable L s" and "s_circle s = Some tc"
  shows "one_tgd \<le> get_escrow tc"
  using reachable_circle [OF assms(1)] assms(2)
  by (auto simp: circle_inv_def validate_circle_Inr get_escrow_def le_max_iff_disj)

end
