(* ===== verification/TC_Membership.thy ===== *)
theory TC_Membership
  imports TC_Circle
begin

text \<open>
  The membership invariant of the trusted circle: escrow entries and member entries are of the
  same addresses, a member has one point exactly when the status is voting, and the stored
  total is the number of voters. It is proved for every call; while a batch is being promoted
  the total lags behind by the number of members promoted so far (\<open>d\<close> below).
\<close>

definition status_points :: "escrow_status \<Rightarrow> nat" where
  "status_points e = (if es_status e = Voting then 1 else 0)"

definition voter_count :: "(addr, escrow_status) store \<Rightarrow> nat" where
  "voter_count es = tally (\<lambda>_. status_points) es"

definition points_agree :: "(addr, escrow_status) store \<Rightarrow> (addr, member_info) store \<Rightarrow> bool" where
  "points_agree es ms \<longleftrightarrow> (\<forall>a.
     map_option (\<lambda>e. of_nat (status_points e)) (sget es a) = map_option mi_points (sget ms a))"

definition membership ::
  "u64 \<Rightarrow> (addr, escrow_status) store \<Rightarrow> (addr, member_info) store \<Rightarrow> u64 option \<Rightarrow> bool" where
  "membership d es ms tot \<longleftrightarrow> sorted_store es \<and> sorted_store ms \<and> points_agree es ms
     \<and> (\<exists>t. tot = Some t \<and> t + d = of_nat (voter_count es))"

definition membership_inv :: "tc_state \<Rightarrow> bool" where
  "membership_inv s \<longleftrightarrow> membership 0 (s_escrows s) (s_members s) (s_total s)"

section \<open>One entry changes\<close>

lemma voter_count_sput:
  "sorted_store es \<Longrightarrow> voter_count (sput a e es) + share (\<lambda>_. status_points) a (sget es a)
     = voter_count es + status_points e"
  unfolding voter_count_def by (rule kv.tally_put)

lemma voter_count_sdel:
  "sorted_store es \<Longrightarrow> voter_count (sdel a es) + share (\<lambda>_. status_points) a (sget es a)
     = voter_count es"
  unfolding voter_count_def by (rule kv.tally_del)

lemma membership_same:
  assumes "membership d es ms tot" and "sget es a = Some e" and "status_points e' = status_points e"
  shows "membership d (sput a e' es) ms tot"
  using assms voter_count_sput [of es a e']
  by (auto simp: membership_def points_agree_def dest: spec [of _ a])

lemma membership_join:
  assumes "membership d es ms tot" and "sget es a = Some e"
    and "es_status e \<noteq> Voting" and "es_status e' = Voting"
  shows "membership (d + 1) (sput a e' es) (sput a (member_info_new 1) ms) tot"
  using assms voter_count_sput [of es a e']
  by (auto simp: membership_def points_agree_def status_points_def add.assoc [symmetric])

lemma membership_retire:
  assumes "membership d es ms (Some t)" and "sget es a = Some e"
    and "es_status e = Voting" and "es_status e' \<noteq> Voting"
  shows "membership d (sput a e' es) (sput a (member_info_new 0) ms) (Some (t - 1))"
proof -
  have "Suc (voter_count (sput a e' es)) = voter_count es"
    using assms voter_count_sput [of es a e'] by (simp add: membership_def status_points_def)
  then have "of_nat (Suc (voter_count (sput a e' es))) = (of_nat (voter_count es) :: u64)"
    by (rule arg_cong)
  then have "of_nat (voter_count (sput a e' es)) = (of_nat (voter_count es) :: u64) - 1"
    by (simp add: eq_diff_eq add.commute)
  with assms(1) have "t - 1 + d = of_nat (voter_count (sput a e' es))"
    by (simp add: membership_def algebra_simps)
  with assms show ?thesis
    by (auto simp: membership_def points_agree_def status_points_def)
qed

lemma membership_admit:
  assumes "membership d es ms tot" and "sget es a = None \<or> (\<exists>e. sget es a = Some e \<and> es_status e \<noteq> Voting)"
    and "es_status e' \<noteq> Voting"
  shows "membership d (sput a e' es) (sput a (member_info_new 0) ms) tot"
  using assms voter_count_sput [of es a e']
  by (auto simp: membership_def points_agree_def status_points_def)

lemma membership_remove:
  assumes "membership d es ms tot" and "sget es a = Some e" and "es_status e \<noteq> Voting"
  shows "membership d (sdel a es) (sdel a ms) tot"
  using assms voter_count_sdel [of es a]
  by (auto simp: membership_def points_agree_def status_points_def)

lemma membership_no_member:
  "membership d es ms tot \<Longrightarrow> sget ms a = None \<longleftrightarrow> sget es a = None"
  by (auto simp: membership_def points_agree_def) (metis option.map_disc_iff)+

section \<open>The operations\<close>

lemma membership_total: "membership d es ms tot \<Longrightarrow> \<exists>t. tot = Some t"
  by (auto simp: membership_def)

lemma convert_membership:
  assumes "membership d (s_escrows s) (s_members s) (s_total s)"
    and "convert_to_voter_if_paid a h s = Inr (s', True)"
  shows "membership (d + 1) (s_escrows s') (s_members s') (s_total s')"
  using assms(2) by (cases rule: convert_shape) (auto intro: membership_join [OF assms(1)])

lemma promote_all_membership:
  assumes "membership_inv s" and "convert_all_paid_members_to_voters i b h s = Inr (s', ev)"
  shows "membership_inv s'"
proof -
  let ?I = "\<lambda>n s. membership n (s_escrows s) (s_members s) (s_total s)"
  have "?I 0 s" using assms(1) by (simp add: membership_inv_def)
  with assms(2) obtain n s1 d where I: "?I n s1"
    and pos: "0 < n \<Longrightarrow> \<exists>t. s_total s1 = Some t \<and> s' = s1\<lparr>s_dist := d,
       s_batches := sput i (b\<lparr>ba_promoted := True\<rparr>) (s_batches s1), s_total := Some (t + n)\<rparr>"
    and zero: "n = 0 \<Longrightarrow> s' = s1\<lparr>s_dist := d, s_batches := sput i (b\<lparr>ba_promoted := True\<rparr>) (s_batches s1)\<rparr>"
    by (rule promote_all_rule [where I = ?I]) (auto intro: convert_membership)
  then show ?thesis
    by (cases "n = 0") (auto simp: membership_inv_def membership_def word_gt_0)
qed

lemma update_batch_membership:
  assumes "membership_inv s" and "update_batch_after_escrow_paid L env p a s = Inr (s', ev)"
  shows "membership_inv s'"
proof -
  have one: "membership_inv x \<Longrightarrow> convert_to_voter_if_paid a h (save_batch i b x) = Inr (x1, True)
      \<Longrightarrow> s_total x1 = Some t \<Longrightarrow> membership 0 (s_escrows x1) (s_members x1) (Some (t + 1))" for x x1 h i b t
    using convert_membership [of 0 "save_batch i b x" a h x1]
    by (auto simp: membership_inv_def membership_def save_batch_def)
  show ?thesis
    using assms
    by (auto simp: update_batch_after_escrow_paid_def Let_def save_batch_def membership_inv_def
        dest!: correct_shape elim!: promote_all_membership [unfolded membership_inv_def, rotated]
        intro: one [unfolded membership_inv_def save_batch_def]
        elim: convert_shape split: bool.splits if_splits)
qed

lemma deposit_membership:
  assumes "membership_inv s" and "execute_deposit_escrow L env info s = Inr (s', r)"
  shows "membership_inv s'"
proof -
  from assms(2) obtain e where e: "sget (s_escrows s) (i_sender info) = Some e"
    and s': "(\<exists>p ev paid. es_status e = Pending p \<and> update_batch_after_escrow_paid L env p (i_sender info)
          (s\<lparr>s_escrows := sput (i_sender info) (e\<lparr>es_paid := paid, es_status := PendingPaid p\<rparr>)
            (s_escrows s)\<rparr>) = Inr (s', ev))
     \<or> (\<exists>paid. s' = s\<lparr>s_escrows := sput (i_sender info) (e\<lparr>es_paid := paid\<rparr>) (s_escrows s)\<rparr>)"
    by (rule deposit_shape) blast
  have same: "membership_inv (s\<lparr>s_escrows := sput (i_sender info) e' (s_escrows s)\<rparr>)"
    if "status_points e' = status_points e" for e'
    using assms(1) e that by (auto simp: membership_inv_def intro: membership_same)
  from s' show ?thesis
    by (auto simp: status_points_def intro: same elim!: update_batch_membership [rotated])
qed

lemma return_membership:
  assumes "membership_inv s" and "execute_return_escrow L env info s = Inr (s', r)"
    and safe: "\<And>tc. s_circle s = Some tc \<Longrightarrow> get_escrow tc \<noteq> 0"
  shows "membership_inv s'"
proof -
  from assms(2) obtain e tc refund where
    e: "sget (s_escrows s) (i_sender info) = Some e" and tc: "s_circle s = Some tc"
    and refund: "escrow_refund L env tc e = Inr refund"
    and s': "s' = s \<or> (es_paid e = refund \<and> s' = s\<lparr>s_escrows := sdel (i_sender info) (s_escrows s),
            s_members := sdel (i_sender info) (s_members s),
            s_history := s_history s @ [(b_height (e_block env), i_sender info, None)]\<rparr>)
         \<or> (\<exists>paid. s' = s\<lparr>s_escrows := sput (i_sender info) (e\<lparr>es_paid := paid\<rparr>) (s_escrows s)\<rparr>)"
    by (rule return_shape) blast
  have same: "membership_inv (s\<lparr>s_escrows := sput (i_sender info) (e\<lparr>es_paid := p\<rparr>) (s_escrows s)\<rparr>)" for p
    using assms(1) e by (auto simp: membership_inv_def status_points_def intro: membership_same)
  have "es_paid e = refund \<Longrightarrow> es_status e \<noteq> Voting"
    using refund safe [OF tc] by (cases rule: escrow_refund_cases) (auto simp: unat_eq_zero)
  with s' e assms(1) show ?thesis
    by (auto simp: membership_inv_def intro: membership_remove same [unfolded membership_inv_def])
qed

lemma membership_inv_only:
  "membership_inv s \<Longrightarrow> s_escrows s' = s_escrows s \<Longrightarrow> s_members s' = s_members s \<Longrightarrow>
     s_total s' = s_total s \<Longrightarrow> membership_inv s'"
  by (simp add: membership_inv_def)

lemma membership_inv_sorted: "membership_inv s \<Longrightarrow> sorted_store (s_escrows s)"
  by (simp add: membership_inv_def membership_def)

lemma long_leave_membership:
  assumes "trigger_long_leave L env a e s = Inr (s', r)" and "membership_inv s"
    and "sget (s_escrows s) a = Some e0" and "es_status e0 = es_status e"
  shows "membership_inv s'"
  using assms(1)
proof (cases rule: long_leave_shape)
  case (voter t d ps c)
  with assms(2-4) show ?thesis
    by (auto simp: membership_inv_def intro: membership_retire)
next
  case (other c)
  with assms(2-4) show ?thesis
    by (auto simp: membership_inv_def status_points_def intro!: membership_same [of _ _ _ _ _ e0])
qed

lemma leave_membership:
  assumes "execute_leave_trusted_circle L env info s = Inr (s', r)" and "membership_inv s"
  shows "membership_inv s'"
  using assms(1)
proof (cases rule: leave_shape)
  case (now e)
  with assms(2) show ?thesis by (auto simp: membership_inv_def intro: membership_remove)
next
  case (later e)
  with assms(2) show ?thesis by (intro long_leave_membership [OF later(3)]) auto
qed

lemma demote_membership:
  assumes "membership_inv s" "sget (s_escrows s) a = Some e" "es_status e = Voting"
    "demote_one p h s (a, e) = Inr s1"
  shows "membership_inv s1 \<and> (\<forall>b. b \<noteq> a \<longrightarrow> sget (s_escrows s1) b = sget (s_escrows s) b)"
  using assms(4)
proof (cases rule: demote_shape)
  case (1 t d)
  with assms show ?thesis by (auto simp: membership_inv_def intro: membership_retire)
qed

lemma promote_pending_membership:
  assumes "membership_inv s" "sget (s_escrows s) a = Some e" "promote_pending s (a, e) = Inr s1"
  shows "membership_inv s1 \<and> (\<forall>b. b \<noteq> a \<longrightarrow> sget (s_escrows s1) b = sget (s_escrows s) b)"
  using assms(3)
proof (cases rule: promote_pending_shape)
  case (1 p)
  with assms show ?thesis
    by (auto simp: membership_inv_def status_points_def intro!: membership_same [of _ _ _ _ _ e])
qed

lemma create_batch_membership:
  "create_batch L env i g as s = Inr s' \<Longrightarrow> membership_inv s \<Longrightarrow> membership_inv s'"
  by (erule create_batch_shape) (auto simp: membership_inv_def)

lemma demote_promote_membership:
  assumes "pending_escrow_demote_promote_members L env p x y h s = Inr (s', ev)" and "membership_inv s"
  shows "membership_inv s'"
proof -
  note sorted = membership_inv_sorted [OF assms(2)]
  have down: "membership_inv s1" if "foldE (demote_one p h) s (filter (short_voter y) (s_escrows s)) = Inr s1" for s1
    by (rule foldE_snapshot [where P = membership_inv, OF that sorted assms(2)]) (rule demote_membership, auto simp: short_voter_def)
  have up: "membership_inv s1" if "foldE promote_pending s (filter (paid_pending y) (s_escrows s)) = Inr s1" for s1
    by (rule foldE_snapshot [where P = membership_inv, OF that sorted assms(2)]) (rule promote_pending_membership)
  show ?thesis
    using assms
    by (auto simp: pending_escrow_demote_promote_members_def Let_def split: if_splits
        intro: create_batch_membership down up)
qed

lemma check_pending_membership:
  assumes "check_pending L env s = Inr (s', ev)" and "membership_inv s"
  shows "membership_inv s'"
proof -
  from assms(1) obtain s1 ev1 ev2 where 1: "check_pending_escrow L env s = Inr (s1, ev1)"
    and 2: "check_pending_batches L (e_block env) s1 = Inr (s', ev2)"
    by (auto simp: check_pending_def)
  have circle: "membership_inv x \<Longrightarrow> membership_inv (x\<lparr>s_circle := c\<rparr>)" for x c
    by (simp add: membership_inv_def)
  from 1 have s1: "membership_inv s1"
    by (rule check_escrow_shape) (use assms(2) in \<open>auto intro!: circle intro: demote_promote_membership\<close>)
  have "case (s', ev2) of (x, _) \<Rightarrow> membership_inv x"
    by (rule foldE_invariant [OF 2 [unfolded check_pending_batches_def], where P = "\<lambda>(x, _). membership_inv x"])
       (use s1 in \<open>auto simp: promote_batch_def intro: promote_all_membership\<close>)
  then show ?thesis by simp
qed

section \<open>Executed proposals\<close>

lemma add_non_voting_membership:
  "add_non_voting L Q tc h s a = Inr s' \<Longrightarrow> membership_inv s \<Longrightarrow> membership_inv s'"
  by (erule add_non_voting_shape)
     (auto simp: membership_inv_def escrow_non_voting_def
       dest: membership_no_member [THEN iffD1] intro!: membership_admit)

lemma remove_non_voting_membership:
  "remove_non_voting L h s a = Inr s' \<Longrightarrow> membership_inv s \<Longrightarrow> membership_inv s'"
  by (erule remove_non_voting_shape) (auto simp: membership_inv_def intro: membership_remove)

lemma add_remove_membership:
  assumes "add_remove_non_voting_members L Q tc h as rs s = Inr (s', ev)" and "membership_inv s"
  shows "membership_inv s'"
  using assms
  by (auto simp: add_remove_non_voting_members_def Let_def
      intro: add_non_voting_membership remove_non_voting_membership
      elim!: foldE_invariant [where P = membership_inv])

lemma add_voting_membership:
  "add_voting_member p h s a = Inr s' \<Longrightarrow> membership_inv s \<Longrightarrow> membership_inv s'"
  by (auto simp: add_voting_member_def Let_def save_defs membership_inv_def escrow_pending_for_def
      split: option.splits if_splits intro!: membership_admit)

lemma demote_punished_membership:
  assumes "demote_punished p h a e s = Inr s'" and "membership_inv s"
    and "sget (s_escrows s) a = Some e0" and "es_status e0 = es_status e"
  shows "membership_inv s'"
  using assms(1)
proof (cases rule: demote_punished_shape)
  case (voter t d)
  with assms(2-4) show ?thesis by (auto simp: membership_inv_def intro: membership_retire)
next
  case other
  with assms(2-4) show ?thesis
    by (auto simp: membership_inv_def status_points_def intro!: membership_same [of _ _ _ _ _ e0])
qed

lemma punish_membership:
  assumes "punish_one L env i (s, res, dem) (k, p) = Inr (s', res', dem')" and "membership_inv s"
  shows "membership_inv s'"
proof -
  have same: "sget (s_escrows s) a = Some e \<Longrightarrow> membership_inv (save_escrow a (e\<lparr>es_paid := x\<rparr>) s)" for a e x
    using assms(2)
    by (auto simp: membership_inv_def save_escrow_def status_points_def intro!: membership_same [of _ _ _ _ _ e])
  from assms show ?thesis
    by (auto simp: punish_one_def Let_def split: if_splits prod.splits
        dest: long_leave_membership demote_punished_membership intro: same)
qed

lemma punish_members_membership:
  assumes "proposal_punish_members L env i ps s = Inr (s', r)" and "membership_inv s"
  shows "membership_inv s'"
proof -
  from assms(1) obtain es acc s1 r1 dem
    where loop: "foldE (punish_one L env i) (s, r1, []) es = Inr (s1, acc, dem)"
      and batch: "create_batch L env i 0 dem s1 = Inr s'"
    by (auto simp: proposal_punish_members_def Let_def)
  have "case (s1, acc, dem) of (x, _) \<Rightarrow> membership_inv x"
    by (rule foldE_invariant [OF loop, where P = "\<lambda>(x, _). membership_inv x"])
       (use assms(2) in \<open>auto dest: punish_membership\<close>)
  then show ?thesis using create_batch_membership [OF batch] by simp
qed

lemma proposal_execute_membership:
  assumes "proposal_execute L Q env i content s = Inr (s', r)" and "membership_inv s"
  shows "membership_inv s'"
proof (cases content)
  case (AddVotingMembers as)
  with assms show ?thesis
    by (auto simp: proposal_execute_def proposal_add_voting_members_def Let_def
        intro: add_voting_membership create_batch_membership elim!: foldE_invariant [where P = membership_inv])
next
  case (EditTrustedCircle ad)
  with assms show ?thesis
    by (auto simp: proposal_execute_def proposal_edit_trusted_circle_def membership_inv_def)
qed (use assms in \<open>auto simp: proposal_execute_def proposal_add_remove_non_voting_members_def
       proposal_whitelist_contract_addr_def proposal_remove_contract_addr_def
       whitelist_contract_addr_def remove_contract_addr_def
       dest: add_remove_membership punish_members_membership\<close>)

section \<open>Every call\<close>

lemma execute_membership:
  assumes "execute L Q env info msg s = Inr (s', r)" and "membership_inv s" and "circle_inv s"
  shows "membership_inv s'"
proof -
  have safe: "get_escrow tc \<noteq> 0" if "s_circle s = Some tc" for tc
    using assms(3) that by (auto simp: circle_inv_def validate_circle_Inr get_escrow_def max_def)
  show ?thesis
  proof (cases msg)
    case (Propose t d c)
    with assms have "execute_propose L Q env info t d c s = Inr (s', r)" by (simp add: execute_def)
    then show ?thesis
      by (rule propose_shape)
         (use assms(2) in \<open>auto dest: check_pending_membership simp: membership_inv_def\<close>)
  next
    case (Vote i v)
    with assms show ?thesis
      by (auto simp: execute_def membership_inv_def elim!: vote_shape)
  next
    case (Close i)
    with assms show ?thesis
      by (auto simp: execute_def membership_inv_def elim!: close_shape)
  next
    case (Execute i)
    with assms have "execute_execute L Q env info i s = Inr (s', r)" by (simp add: execute_def)
    then show ?thesis
      by (rule execute_execute_shape)
         (use assms(2) in \<open>auto elim!: proposal_execute_membership intro: membership_inv_only\<close>)
  next
    case DepositEscrow
    with assms show ?thesis by (auto simp: execute_def intro: deposit_membership)
  next
    case ReturnEscrow
    with assms show ?thesis by (auto simp: execute_def intro: return_membership [OF assms(2) _ safe])
  next
    case LeaveTrustedCircle
    with assms show ?thesis by (auto simp: execute_def intro: leave_membership)
  next
    case CheckPending
    with assms show ?thesis
      by (auto simp: execute_def dest!: check_call_shape intro: check_pending_membership)
  qed (use assms in \<open>auto simp: execute_def dest!: distribute_shape withdraw_shape
         intro: membership_inv_only\<close>)
qed

lemma instantiate_membership:
  assumes "instantiate L Q env info msg empty_state = Inr (s, r)"
  shows "membership_inv s"
  using assms
proof (cases rule: instantiate_shape)
  case (1 tc amount ev)
  show ?thesis
    by (rule add_remove_membership [OF 1(5)])
       (auto simp: membership_inv_def membership_def points_agree_def voter_count_def status_points_def
         sorted_store_def empty_state_def sget_def)
qed

lemma reachable_membership: "tc_reachable L s \<Longrightarrow> membership_inv s"
  by (erule tc_invariantI) (auto intro: instantiate_membership execute_membership reachable_circle)

lemma voter_count_card:
  assumes "sorted_store es"
  shows "voter_count es = card {a. \<exists>e. sget es a = Some e \<and> es_status e = Voting}"
proof -
  have "voter_count es = (\<Sum>a \<in> dom (sget es). status_points (the (sget es a)))"
    unfolding voter_count_def by (rule kv.tally_as_sum [OF assms])
  also have "\<dots> = card {a \<in> dom (sget es). es_status (the (sget es a)) = Voting}"
    unfolding status_points_def card_eq_sum
    by (rule sum.inter_filter [symmetric]) (rule kv.finite_dom [OF assms])
  also have "{a \<in> dom (sget es). es_status (the (sget es a)) = Voting}
      = {a. \<exists>e. sget es a = Some e \<and> es_status e = Voting}"
    by auto
  finally show ?thesis .
qed

end
