(* ===== verification/TC_Examples.thy ===== *)
theory TC_Examples
  imports TC_Membership
begin

text \<open>
  A concrete history of a trusted circle, computed from the model: \<open>a\<close> founds the circle,
  proposes \<open>c\<close> as a voting member, executes the proposal, and \<open>c\<close> pays the escrow and is
  promoted. The states of this history are the inputs at which the theorems are instantiated.
\<close>

definition ex_querier :: querier where
  "ex_querier = \<lparr>q_contract_info = (\<lambda>_. SystemErr NoSuchContract),
     q_wasm_raw = (\<lambda>_ _. Inr None), q_balance = (\<lambda>_ d. Inr (mk_coin 5000000 d))\<rparr>"

definition ex_env :: "u64 \<Rightarrow> u64 \<Rightarrow> env" where
  "ex_env h t = \<lparr>e_block = \<lparr>b_height = h, b_time = t * 1000000000\<rparr>, e_contract = ''circle''\<rparr>"

definition ex_pay :: "addr \<Rightarrow> u128 \<Rightarrow> message_info" where
  "ex_pay a n = \<lparr>i_sender = a, i_funds = [mk_coin n ''utgd'']\<rparr>"

definition ex_call :: "addr \<Rightarrow> message_info" where
  "ex_call a = \<lparr>i_sender = a, i_funds = []\<rparr>"

definition ex_init :: instantiate_msg where
  "ex_init = \<lparr>im_name = ''circle'', im_denom = ''utgd'', im_escrow_amount = 1000000,
     im_voting_period = 1, im_quorum = 500000000000000000, im_threshold = 500000000000000000,
     im_allow_end_early = True, im_initial_members = [''b''], im_deny_list = None,
     im_edit_disabled = False, im_reward_denom = ''utgd''\<rparr>"

fun ex_run :: "tc_state \<Rightarrow> (env \<times> message_info \<times> execute_msg) list \<Rightarrow> tc_error + tc_state" where
  "ex_run s [] = Inr s"
| "ex_run s ((env, info, msg) # calls) =
     bindE (execute std_lib ex_querier env info msg s) (\<lambda>(s, _). ex_run s calls)"

lemma ex_run_reachable:
  "tc_reachable std_lib s \<Longrightarrow> ex_run s calls = Inr s' \<Longrightarrow> tc_reachable std_lib s'"
proof (induction calls arbitrary: s)
  case (Cons c calls)
  obtain env info msg where c: "c = (env, info, msg)" by (cases c)
  with Cons.prems obtain s1 r where "execute std_lib ex_querier env info msg s = Inr (s1, r)"
    and rest: "ex_run s1 calls = Inr s'" by auto
  then have "tc_step std_lib s s1" by (intro tc_call)
  with Cons.prems rest show ?case by (intro Cons.IH [of s1]) (auto intro: tc_next)
qed simp

lemmas eval_defs =
  sget_def sdel_def std_lib_def response_defs mk_coin_def percent_def opt_result_defs save_defs
  validate_rules_def voting_period_secs_def trimmed_empty_def validate_circle_def get_escrow_def
  circle_of_msg_def member_info_new_def dist_init_def empty_state_def text_event_def
  add_remove_non_voting_members_def add_non_voting_def ensure_not_denied_def
  escrow_non_voting_def snapshot_at_def last_write_def ex_querier_def ex_env_def ex_pay_def ex_call_def ex_init_def
  fit_add_def fit_sub_def Let_def

lemma std_expired [simp]: "l_is_expired std_lib (AtTime t) b \<longleftrightarrow> t \<le> b_time b"
  by (simp add: std_lib_def)

definition ex_founded :: tc_state where
  "ex_founded = (case instantiate std_lib ex_querier (ex_env 10 1000) (ex_pay ''a'' 1000000) ex_init empty_state of
     Inr (s, _) \<Rightarrow> s | Inl _ \<Rightarrow> empty_state)"

definition ex_circle :: trusted_circle where
  "ex_circle = \<lparr>tc_name = ''circle'', tc_denom = ''utgd'', tc_escrow_amount = 1000000, tc_escrow_pending = None,
     tc_rules = \<lparr>vr_voting_period = 1, vr_quorum = 500000000000000000, vr_threshold = 500000000000000000, vr_allow_end_early = True\<rparr>,
     tc_deny_list = None, tc_edit_disabled = False\<rparr>"

definition ex_dist :: dist_config where
  "ex_dist = \<lparr>dc_denom = ''utgd'', dc_points_per_points = 0, dc_points_leftover = 0, dc_distributed_total = 0, dc_withdrawable_total = 0\<rparr>"

lemma ex_instantiate:
  "\<exists>r. instantiate std_lib ex_querier (ex_env 10 1000) (ex_pay ''a'' 1000000) ex_init empty_state = Inr (ex_founded, r)"
  by (simp add: ex_founded_def instantiate_def eval_defs cong: if_weak_cong)

lemma ex_founded:
  "ex_founded = \<lparr>s_version = Some (''crates.io:tgrade-trusted_circle'', ''0.15.0''), s_circle = Some ex_circle,
     s_escrows = [(''a'', \<lparr>es_paid = 1000000, es_status = Voting\<rparr>), (''b'', \<lparr>es_paid = 0, es_status = NonVoting\<rparr>)],
     s_members = [(''a'', member_info_new 1), (''b'', member_info_new 0)],
     s_history = [(10, ''a'', Some (member_info_new 1)), (10, ''b'', Some (member_info_new 0))],
     s_total = Some 1, s_batches = [], s_proposal_count = None, s_proposals = [], s_by_expiry = [],
     s_ballots = [], s_dist = \<lparr>d_config = Some ex_dist, d_adjustment = []\<rparr>\<rparr>"
  by (simp add: ex_founded_def instantiate_def ex_circle_def ex_dist_def eval_defs cong: if_weak_cong)

lemma ex_founded_reachable: "tc_reachable std_lib ex_founded"
  using ex_instantiate by (blast intro: tc_start)

lemmas call_defs = execute_def execute_propose_def execute_vote_def execute_execute_def
  execute_deposit_escrow_def update_batch_after_escrow_paid_def check_pending_def
  check_pending_escrow_def check_pending_batches_def ready_batches_def points_of_def
  at_previous_height_def validate_proposal_def validate_addresses_with_deny_list_def
  validate_human_addresses_def validate_human_address_def validate_contract_address_def is_contract_def
  votes_yes_def update_status_def current_status_def is_passed_def votes_needed_def votes_total_def
  create_proposal_def proposal_execute_def proposal_add_voting_members_def create_batch_def
  add_voting_member_def escrow_pending_for_def can_promote_def convert_all_paid_members_to_voters_def
  promote_one_def convert_to_voter_if_paid_def is_pending_paid_def correct_def
  apply_points_correction_def correct_points_def adjustment_of_def empty_adjustment_def
  total_add_def frozen_edit_def

definition ex_calls :: "(env \<times> message_info \<times> execute_msg) list" where
  "ex_calls = [(ex_env 11 1010, ex_call ''a'', Propose ''t'' ''d'' (AddVotingMembers [''c''])),
     (ex_env 12 1020, ex_call ''a'', Execute 1),
     (ex_env 13 1030, ex_pay ''c'' 1000000, DepositEscrow)]"

definition ex_voters :: tc_state where
  "ex_voters = (case ex_run ex_founded ex_calls of Inr s \<Rightarrow> s | Inl _ \<Rightarrow> empty_state)"

lemma ex_voters_run: "ex_run ex_founded ex_calls = Inr ex_voters"
  by (simp add: ex_voters_def ex_calls_def ex_founded ex_circle_def ex_dist_def call_defs eval_defs cong: if_weak_cong)

lemma ex_voters:
  "ex_voters = \<lparr>s_version = Some (''crates.io:tgrade-trusted_circle'', ''0.15.0''), s_circle = Some ex_circle,
     s_escrows = [(''a'', \<lparr>es_paid = 1000000, es_status = Voting\<rparr>), (''b'', \<lparr>es_paid = 0, es_status = NonVoting\<rparr>),
       (''c'', \<lparr>es_paid = 1000000, es_status = Voting\<rparr>)],
     s_members = [(''a'', member_info_new 1), (''b'', member_info_new 0), (''c'', member_info_new 1)],
     s_history = [(10, ''a'', Some (member_info_new 1)), (10, ''b'', Some (member_info_new 0)),
       (12, ''c'', Some (member_info_new 0)), (13, ''c'', Some (member_info_new 1))],
     s_total = Some 2,
     s_batches = [(1, \<lparr>ba_grace_ends_at = 87420, ba_waiting_escrow = 0, ba_promoted = True, ba_members = [''c'']\<rparr>)],
     s_proposal_count = Some 1,
     s_proposals = [(1, \<lparr>pr_title = ''t'', pr_description = ''d'', pr_start_height = 11,
       pr_expires = AtTime 87410000000000, pr_proposal = AddVotingMembers [''c''], pr_status = StExecuted,
       pr_rules = tc_rules ex_circle, pr_total_points = 1, pr_votes = votes_yes 1\<rparr>)],
     s_by_expiry = [(87410, 1)],
     s_ballots = [((1, ''a''), \<lparr>bl_voter = ''a'', bl_vote = VYes, bl_points = 1\<rparr>)],
     s_dist = \<lparr>d_config = Some ex_dist, d_adjustment = [(''c'', empty_adjustment)]\<rparr>\<rparr>"
  by (simp add: ex_voters_def ex_calls_def ex_founded ex_circle_def ex_dist_def call_defs eval_defs cong: if_weak_cong)

lemma ex_voters_reachable: "tc_reachable std_lib ex_voters"
  using ex_founded_reachable ex_voters_run by (rule ex_run_reachable)

end
