(* ===== verification/TC_Voting.thy ===== *)
theory TC_Voting
  imports TC_Circle
begin

text \<open>
  Vote counting of the trusted circle: \<open>votes_needed\<close> is a quota rule, and \<open>is_passed\<close> decides
  exactly as the abstract rule \<open>tally_passes\<close> on natural numbers, so approval before the end of
  the voting period is neither premature nor withheld.
\<close>

section \<open>The quota\<close>

lemma votes_needed_quota:
  assumes "decimal_law L" and "d \<le> decimal_one"
  shows "\<exists>n. votes_needed L p d = Inr n \<and> unat n = quota (unat p) (unat d)"
  using quota_word [OF assms, of p] by (auto simp: votes_needed_def)

interpretation tcq: quota_rule votes_needed
  by unfold_locales (rule votes_needed_quota)

section \<open>The decision\<close>

definition nat_votes :: "votes \<Rightarrow> tally_nat" where
  "nat_votes v = \<lparr>t_yes = unat (v_yes v), t_no = unat (v_no v), t_abstain = unat (v_abstain v),
     t_veto = unat (v_veto v)\<rparr>"

text \<open>No more votes than points were counted.\<close>

definition votes_fit :: "proposal \<Rightarrow> bool" where
  "votes_fit p \<longleftrightarrow> t_total (nat_votes (pr_votes p)) \<le> unat (pr_total_points p)"

lemma votes_total_nat:
  assumes "votes_fit p"
  shows "unat (votes_total (pr_votes p)) = t_total (nat_votes (pr_votes p))"
  using sum4_unat [of "v_yes (pr_votes p)" "v_no (pr_votes p)" "v_abstain (pr_votes p)"
      "v_veto (pr_votes p)" "pr_total_points p"] assms
  by (simp add: votes_fit_def votes_total_def t_total_def nat_votes_def)

lemma votes_minus_abstain:
  assumes "votes_fit p" and "q = votes_total (pr_votes p) \<or> q = pr_total_points p"
  shows "unat (q - v_abstain (pr_votes p)) = unat q - t_abstain (nat_votes (pr_votes p))"
proof -
  have "unat (v_abstain (pr_votes p)) \<le> unat q"
    using assms votes_total_nat [OF assms(1)] by (auto simp: votes_fit_def t_total_def nat_votes_def)
  then show ?thesis by (simp add: unat_sub word_le_nat_alt nat_votes_def)
qed

definition passes :: "bool \<Rightarrow> proposal \<Rightarrow> bool" where
  "passes ended p = tally_passes ended (unat (pr_total_points p)) (unat (vr_quorum (pr_rules p)))
     (unat (vr_threshold (pr_rules p))) (nat_votes (pr_votes p))"

lemma percent_100 [simp]: "percent 100 = decimal_one"
  by (simp add: percent_def)

lemma is_passed_refines:
  assumes "decimal_law L" and "validate_rules (pr_rules p) = Inr ()" and "votes_fit p"
  shows "is_passed L p b = Inr (
     if l_is_expired L (pr_expires p) b then passes True p
     else vr_allow_end_early (pr_rules p) \<and> passes False p)"
proof -
  let ?r = "pr_rules p" and ?v = "pr_votes p"
  have q: "vr_quorum ?r \<le> decimal_one" and t: "vr_threshold ?r \<le> decimal_one"
    using assms(2) by (auto simp: validate_rules_Inr)
  obtain nq where nq: "votes_needed L (pr_total_points p) (vr_quorum ?r) = Inr nq"
      "unat nq = quota (unat (pr_total_points p)) (unat (vr_quorum ?r))"
    using votes_needed_quota [OF assms(1) q] by blast
  obtain nt where nt: "votes_needed L (votes_total ?v - v_abstain ?v) (vr_threshold ?r) = Inr nt"
      "unat nt = quota (unat (votes_total ?v - v_abstain ?v)) (unat (vr_threshold ?r))"
    using votes_needed_quota [OF assms(1) t] by blast
  obtain np where np: "votes_needed L (pr_total_points p - v_abstain ?v) (vr_threshold ?r) = Inr np"
      "unat np = quota (unat (pr_total_points p - v_abstain ?v)) (unat (vr_threshold ?r))"
    using votes_needed_quota [OF assms(1) t] by blast
  note sub = votes_minus_abstain [OF assms(3)] and tot = votes_total_nat [OF assms(3)]
  have quorum: "votes_total ?v < nq \<longleftrightarrow>
      \<not> quota (unat (pr_total_points p)) (unat (vr_quorum ?r)) \<le> t_total (nat_votes ?v)"
    by (simp add: word_less_nat_alt tot nq(2) not_le)
  have ended: "nt \<le> v_yes ?v \<longleftrightarrow>
      quota (t_total (nat_votes ?v) - t_abstain (nat_votes ?v)) (unat (vr_threshold ?r)) \<le> t_yes (nat_votes ?v)"
    using sub [of "votes_total ?v"] by (simp add: word_le_nat_alt nt(2) tot nat_votes_def)
  have early: "np \<le> v_yes ?v \<longleftrightarrow>
      quota (unat (pr_total_points p) - t_abstain (nat_votes ?v)) (unat (vr_threshold ?r)) \<le> t_yes (nat_votes ?v)"
    using sub [of "pr_total_points p"] by (simp add: word_le_nat_alt np(2) nat_votes_def)
  show ?thesis
    by (auto simp: is_passed_def Let_def nq(1) nt(1) np(1) quorum ended early passes_def tally_passes_def)
qed

text \<open>The status shown for a proposal follows from the stored one and the decision.\<close>

lemma current_status_cases:
  assumes "decimal_law L" and "validate_rules (pr_rules p) = Inr ()" and "votes_fit p"
  shows "current_status L p b = Inr (
     if pr_status p \<noteq> StOpen then pr_status p
     else if l_is_expired L (pr_expires p) b then if passes True p then StPassed else StRejected
     else if vr_allow_end_early (pr_rules p) \<and> passes False p then StPassed else StOpen)"
  by (auto simp: current_status_def Let_def is_passed_refines [OF assms])

text \<open>Further votes on the same proposal: counts only grow, within the points that can vote.\<close>

definition later_votes :: "proposal \<Rightarrow> proposal \<Rightarrow> bool" where
  "later_votes p p' \<longleftrightarrow> pr_rules p' = pr_rules p \<and> pr_total_points p' = pr_total_points p
     \<and> t_extends (unat (pr_total_points p)) (nat_votes (pr_votes p)) (nat_votes (pr_votes p'))"

lemma early_decision_stands:
  assumes "passes False p" and "later_votes p p'"
  shows "passes ended p'"
  using assms early_pass_final unfolding passes_def later_votes_def by simp

lemma nat_votes_onto: "t_total t \<le> n \<Longrightarrow> n < 2 ^ 64 \<Longrightarrow> \<exists>v. nat_votes v = t"
  by (rule exI [of _ "\<lparr>v_yes = of_nat (t_yes t), v_no = of_nat (t_no t),
        v_abstain = of_nat (t_abstain t), v_veto = of_nat (t_veto t)\<rparr>"])
     (simp add: nat_votes_def t_total_def unat_of_nat)

end
