(* ===== verification/TC_Life.thy ===== *)
theory TC_Life
  imports TC_Membership
begin

text \<open>
  The life of one address in the circle, as a relation between its escrow entries: \<open>status_move\<close>
  are the moves that leave the escrow paid alone, \<open>life\<close> adds joining, paying, leaving and being
  punished. Every call moves every address along this relation; that voters have paid and that
  non-voting members have not follows from the relation alone.
\<close>

section \<open>The relation\<close>

inductive status_move :: "escrow_status option \<Rightarrow> escrow_status option \<Rightarrow> bool" where
  paid_up: "one_tgd \<le> p \<Longrightarrow> status_move (Some \<lparr>es_paid = p, es_status = Pending i\<rparr>)
    (Some \<lparr>es_paid = p, es_status = PendingPaid i\<rparr>)"
| promote: "status_move (Some \<lparr>es_paid = p, es_status = PendingPaid i\<rparr>)
    (Some \<lparr>es_paid = p, es_status = Voting\<rparr>)"
| demote: "status_move (Some \<lparr>es_paid = p, es_status = Voting\<rparr>)
    (Some \<lparr>es_paid = p, es_status = Pending i\<rparr>)"

inductive life :: "escrow_status option \<Rightarrow> escrow_status option \<Rightarrow> bool" where
  move: "status_move x y \<Longrightarrow> life x y"
| join: "life None (Some \<lparr>es_paid = 0, es_status = NonVoting\<rparr>)"
| removed: "life (Some \<lparr>es_paid = p, es_status = NonVoting\<rparr>) None"
| invited: "x = None \<or> x = Some \<lparr>es_paid = p, es_status = NonVoting\<rparr> \<Longrightarrow>
    life x (Some \<lparr>es_paid = 0, es_status = Pending i\<rparr>)"
| pays: "p \<le> p' \<Longrightarrow> st = Pending i \<or> st = PendingPaid i \<or> st = Voting \<Longrightarrow>
    life (Some \<lparr>es_paid = p, es_status = st\<rparr>) (Some \<lparr>es_paid = p', es_status = st\<rparr>)"
| withdraws: "one_tgd \<le> p' \<Longrightarrow> p' \<le> p \<Longrightarrow>
    life (Some \<lparr>es_paid = p, es_status = Voting\<rparr>) (Some \<lparr>es_paid = p', es_status = Voting\<rparr>)"
| leaves: "st = Pending i \<or> st = PendingPaid i \<or> st = Voting \<Longrightarrow>
    life (Some \<lparr>es_paid = p, es_status = st\<rparr>) (Some \<lparr>es_paid = p, es_status = Leaving c\<rparr>)"
| drops_out: "life (Some \<lparr>es_paid = 0, es_status = Pending i\<rparr>) None"
| claims: "life (Some \<lparr>es_paid = p, es_status = Leaving c\<rparr>) None"
| slashed: "one_tgd \<le> p' \<Longrightarrow> p' \<le> p \<Longrightarrow> st \<noteq> NonVoting \<Longrightarrow>
    life (Some \<lparr>es_paid = p, es_status = st\<rparr>) (Some \<lparr>es_paid = p', es_status = st\<rparr>)"
| slashed_below: "p' \<le> p \<Longrightarrow> st \<noteq> NonVoting \<Longrightarrow>
    life (Some \<lparr>es_paid = p, es_status = st\<rparr>) (Some \<lparr>es_paid = p', es_status = Pending i\<rparr>)"
| kicked_out: "p' \<le> p \<Longrightarrow> st \<noteq> NonVoting \<Longrightarrow>
    life (Some \<lparr>es_paid = p, es_status = st\<rparr>) (Some \<lparr>es_paid = p', es_status = Leaving c\<rparr>)"

text \<open>The entries of all addresses, before and after.\<close>

definition moves :: "tc_state \<Rightarrow> tc_state \<Rightarrow> bool" where
  "moves s s' \<longleftrightarrow> (\<forall>a. status_move\<^sup>*\<^sup>* (sget (s_escrows s) a) (sget (s_escrows s') a))"

definition lives :: "tc_state \<Rightarrow> tc_state \<Rightarrow> bool" where
  "lives s s' \<longleftrightarrow> (\<forall>a. life\<^sup>*\<^sup>* (sget (s_escrows s) a) (sget (s_escrows s') a))"

lemma moves_same: "s_escrows s' = s_escrows s \<Longrightarrow> moves s s'"
  by (simp add: moves_def)

lemma lives_same: "s_escrows s' = s_escrows s \<Longrightarrow> lives s s'"
  by (simp add: lives_def)

lemma moves_trans: "moves s t \<Longrightarrow> moves t u \<Longrightarrow> moves s u"
  unfolding moves_def by (blast intro: rtranclp_trans)

lemma lives_trans: "lives s t \<Longrightarrow> lives t u \<Longrightarrow> lives s u"
  unfolding lives_def by (blast intro: rtranclp_trans)

lemma lives_moves: "moves s t \<Longrightarrow> lives s t"
  unfolding moves_def lives_def by (blast intro: mono_rtranclp [rule_format, of status_move] move)

lemma moves_put:
  "s_escrows s' = sput a e' (s_escrows s) \<Longrightarrow> sget (s_escrows s) a = Some e \<Longrightarrow>
     status_move (Some e) (Some e') \<Longrightarrow> moves s s'"
  by (auto simp: moves_def)

lemma lives_put:
  "s_escrows s' = sput a e' (s_escrows s) \<Longrightarrow> life (sget (s_escrows s) a) (Some e') \<Longrightarrow> lives s s'"
  by (auto simp: lives_def)

lemma lives_del:
  "s_escrows s' = sdel a (s_escrows s) \<Longrightarrow> life (sget (s_escrows s) a) None \<Longrightarrow> lives s s'"
  by (auto simp: lives_def)

text \<open>The rules for an entry given as a record with the fields known.\<close>

lemma status_move_rules:
  "es_status e = Pending i \<Longrightarrow> one_tgd \<le> es_paid e \<Longrightarrow> status_move (Some e) (Some (e\<lparr>es_status := PendingPaid i\<rparr>))"
  "es_status e = PendingPaid i \<Longrightarrow> status_move (Some e) (Some (e\<lparr>es_status := Voting\<rparr>))"
  "es_status e = Voting \<Longrightarrow> status_move (Some e) (Some (e\<lparr>es_status := Pending i\<rparr>))"
  by (cases e; auto intro: status_move.intros)+

lemma life_rules:
  "es_status e = NonVoting \<Longrightarrow> life (Some e) None"
  "es_status e = Pending i \<Longrightarrow> es_paid e = 0 \<Longrightarrow> life (Some e) None"
  "es_status e = Leaving c \<Longrightarrow> life (Some e) None"
  "es_status e = Pending i \<or> es_status e = PendingPaid i \<or> es_status e = Voting \<Longrightarrow> es_paid e \<le> p' \<Longrightarrow>
     life (Some e) (Some (e\<lparr>es_paid := p'\<rparr>))"
  "es_status e = Voting \<Longrightarrow> one_tgd \<le> p' \<Longrightarrow> p' \<le> es_paid e \<Longrightarrow> life (Some e) (Some (e\<lparr>es_paid := p'\<rparr>))"
  "es_status e = Pending i \<or> es_status e = PendingPaid i \<or> es_status e = Voting \<Longrightarrow>
     life (Some e) (Some (e\<lparr>es_status := Leaving c\<rparr>))"
  "es_status e \<noteq> NonVoting \<Longrightarrow> one_tgd \<le> p' \<Longrightarrow> p' \<le> es_paid e \<Longrightarrow> life (Some e) (Some (e\<lparr>es_paid := p'\<rparr>))"
  "es_status e \<noteq> NonVoting \<Longrightarrow> p' \<le> es_paid e \<Longrightarrow>
     life (Some e) (Some (e\<lparr>es_paid := p', es_status := Pending i\<rparr>))"
  "es_status e \<noteq> NonVoting \<Longrightarrow> p' \<le> es_paid e \<Longrightarrow>
     life (Some e) (Some (e\<lparr>es_paid := p', es_status := Leaving c\<rparr>))"
  by (cases e; auto intro: life.intros)+

section \<open>What follows from the relation alone\<close>

definition entry_ok :: "escrow_status option \<Rightarrow> bool" where
  "entry_ok x \<longleftrightarrow> (\<forall>e. x = Some e \<longrightarrow>
     (es_status e = NonVoting \<longrightarrow> es_paid e = 0)
     \<and> (es_status e = Voting \<or> (\<exists>i. es_status e = PendingPaid i) \<longrightarrow> one_tgd \<le> es_paid e))"

lemma status_move_ok: "status_move x y \<Longrightarrow> entry_ok x \<Longrightarrow> entry_ok y"
  by (induction rule: status_move.induct) (auto simp: entry_ok_def)

lemma life_ok: "life x y \<Longrightarrow> entry_ok x \<Longrightarrow> entry_ok y"
proof (induction rule: life.induct)
  case (move x y)
  then show ?case by (rule status_move_ok)
qed (auto simp: entry_ok_def intro: order_trans)

lemma lives_ok: "lives s s' \<Longrightarrow> entry_ok (sget (s_escrows s) a) \<Longrightarrow> entry_ok (sget (s_escrows s') a)"
proof -
  assume "lives s s'" and ok: "entry_ok (sget (s_escrows s) a)"
  then have "life\<^sup>*\<^sup>* (sget (s_escrows s) a) (sget (s_escrows s') a)" by (simp add: lives_def)
  then show ?thesis using ok by (induction rule: rtranclp_induct) (auto intro: life_ok)
qed

text \<open>A status move keeps the escrow paid.\<close>

lemma status_move_paid: "status_move x y \<Longrightarrow> map_option es_paid y = map_option es_paid x"
  by (induction rule: status_move.induct) auto

lemma moves_paid:
  assumes "moves s s'"
  shows "map_option es_paid (sget (s_escrows s') a) = map_option es_paid (sget (s_escrows s) a)"
proof -
  have "status_move\<^sup>*\<^sup>* (sget (s_escrows s) a) (sget (s_escrows s') a)"
    using assms by (simp add: moves_def)
  then show ?thesis by (induction rule: rtranclp_induct) (auto simp: status_move_paid)
qed

section \<open>Promotion and pending changes\<close>

lemma convert_moves: "convert_to_voter_if_paid a h s = Inr (s', y) \<Longrightarrow> moves s s'"
  by (erule convert_shape) (auto intro: moves_same moves_put status_move_rules)

lemma promote_all_moves:
  assumes "convert_all_paid_members_to_voters i b h s = Inr (s', ev)"
  shows "moves s s'"
proof -
  have start: "moves s s" by (simp add: moves_same)
  from assms start obtain n s1 d where I: "moves s s1"
    and pos: "0 < n \<Longrightarrow> \<exists>t. s_total s1 = Some t \<and> s' = s1\<lparr>s_dist := d,
       s_batches := sput i (b\<lparr>ba_promoted := True\<rparr>) (s_batches s1), s_total := Some (t + n)\<rparr>"
    and zero: "n = 0 \<Longrightarrow> s' = s1\<lparr>s_dist := d, s_batches := sput i (b\<lparr>ba_promoted := True\<rparr>) (s_batches s1)\<rparr>"
    by (rule promote_all_rule [where I = "\<lambda>n x. moves s x"]) (auto intro: moves_trans convert_moves)
  have "moves s1 s'"
    using pos zero by (cases "n = 0") (auto simp: word_gt_0 intro: moves_same)
  with I show ?thesis by (rule moves_trans)
qed

lemma update_batch_moves:
  assumes "update_batch_after_escrow_paid L env p a s = Inr (s', ev)"
  shows "moves s s'"
proof -
  have sb: "moves s (save_batch i b s)" for i b by (simp add: save_batch_def moves_same)
  have tot: "moves s (x\<lparr>s_total := t, s_dist := d\<rparr>)" if "moves s x" for x t d
    using that by (simp add: moves_def)
  show ?thesis
    using assms
    by (auto simp: update_batch_after_escrow_paid_def Let_def
        dest!: convert_moves correct_shape intro: promote_all_moves sb
        intro!: tot intro: moves_trans [OF sb] split: bool.splits if_splits)
qed

lemma demote_moves:
  assumes "demote_one p h s (a, e) = Inr s'" "sget (s_escrows s) a = Some e" "es_status e = Voting"
  shows "moves s s' \<and> (\<forall>b. b \<noteq> a \<longrightarrow> sget (s_escrows s') b = sget (s_escrows s) b)"
  using assms(1) by (rule demote_shape) (use assms in \<open>auto intro: moves_put status_move_rules\<close>)

lemma promote_pending_moves:
  assumes "promote_pending s (a, e) = Inr s'" "sget (s_escrows s) a = Some e" "one_tgd \<le> es_paid e"
  shows "moves s s' \<and> (\<forall>b. b \<noteq> a \<longrightarrow> sget (s_escrows s') b = sget (s_escrows s) b)"
  using assms(1) by (rule promote_pending_shape) (use assms in \<open>auto intro: moves_put status_move_rules\<close>)

lemma create_batch_moves: "create_batch L env i g as s = Inr s' \<Longrightarrow> moves s s'"
  by (erule create_batch_shape) (auto intro: moves_same)

lemma demote_promote_moves:
  assumes "pending_escrow_demote_promote_members L env p x y h s = Inr (s', ev)"
    and "sorted_store (s_escrows s)" and "one_tgd \<le> y"
  shows "moves s s'"
proof -
  have start: "moves s s" by (simp add: moves_same)
  have down: "moves s s1" if "foldE (demote_one p h) s (filter (short_voter y) (s_escrows s)) = Inr s1" for s1
    by (rule foldE_snapshot [where P = "moves s", OF that assms(2) start])
       (auto simp: short_voter_def dest!: demote_moves intro: moves_trans)
  have up: "moves s s1" if "foldE promote_pending s (filter (paid_pending y) (s_escrows s)) = Inr s1" for s1
    by (rule foldE_snapshot [where P = "moves s", OF that assms(2) start])
       (use assms(3) in \<open>auto simp: paid_pending_def split: member_status.splits
          dest!: promote_pending_moves intro: moves_trans\<close>)
  show ?thesis
    using assms(1)
    by (auto simp: pending_escrow_demote_promote_members_def Let_def split: if_splits
        intro: moves_same moves_trans create_batch_moves down up)
qed

lemma check_pending_moves:
  assumes "check_pending L env s = Inr (s', ev)" and "sorted_store (s_escrows s)" and "circle_inv s"
  shows "moves s s'"
proof -
  from assms(1) obtain s1 ev1 ev2 where 1: "check_pending_escrow L env s = Inr (s1, ev1)"
    and 2: "check_pending_batches L (e_block env) s1 = Inr (s', ev2)"
    by (auto simp: check_pending_def)
  from 1 have "moves s s1"
  proof (cases rule: check_escrow_shape)
    case (settle tc pe x evt)
    have "one_tgd \<le> pe_amount pe"
      using assms(3) settle(1,2) by (auto simp: circle_inv_def validate_circle_Inr)
    with settle assms(2) have "moves s x" by (intro demote_promote_moves) auto
    with settle(5) show ?thesis by (simp add: moves_def)
  qed (simp add: moves_same)
  moreover have "case (s', ev2) of (x, _) \<Rightarrow> moves s1 x"
    by (rule foldE_invariant [OF 2 [unfolded check_pending_batches_def], where P = "\<lambda>(x, _). moves s1 x"])
       (auto simp: promote_batch_def moves_same dest!: promote_all_moves intro: moves_trans)
  ultimately show ?thesis by (auto intro: moves_trans)
qed

section \<open>The calls\<close>

lemma circle_inv_escrow:
  "circle_inv s \<Longrightarrow> s_circle s = Some tc \<Longrightarrow> one_tgd \<le> get_escrow tc"
  by (auto simp: circle_inv_def validate_circle_Inr get_escrow_def le_max_iff_disj)

lemma deposit_lives:
  assumes "execute_deposit_escrow L env info s = Inr (s', r)" and "circle_inv s"
  shows "lives s s'"
  using assms(1)
proof (cases rule: deposit_shape)
  case (1 e tc amount paid)
  have le: "es_paid e \<le> paid" using 1(4) by (simp add: word_le_nat_alt)
  let ?pay = "\<lambda>x. s\<lparr>s_escrows := sput (i_sender info) x (s_escrows s)\<rparr>"
  have paid: "life\<^sup>*\<^sup>* (Some e) (Some (e\<lparr>es_paid := paid\<rparr>))"
    if "es_status e = Pending p \<or> es_status e = PendingPaid p \<or> es_status e = Voting" for p
    using life_rules(4) [OF that le] by (rule r_into_rtranclp)
  have up: "lives s (?pay (e\<lparr>es_paid := paid, es_status := PendingPaid p\<rparr>))"
    if p: "es_status e = Pending p" and "get_escrow tc \<le> paid" for p
  proof -
    have "one_tgd \<le> paid" using circle_inv_escrow [OF assms(2) 1(2)] that(2) by (rule order_trans)
    then have "life (Some (e\<lparr>es_paid := paid\<rparr>)) (Some (e\<lparr>es_paid := paid, es_status := PendingPaid p\<rparr>))"
      using status_move_rules(1) [of "e\<lparr>es_paid := paid\<rparr>" p] p by (auto intro: life.move)
    with paid [of p] p have "life\<^sup>*\<^sup>* (Some e) (Some (e\<lparr>es_paid := paid, es_status := PendingPaid p\<rparr>))"
      by auto
    with 1(1) show ?thesis by (simp add: lives_def)
  qed
  from 1(1,6) show ?thesis
    by (auto dest!: update_batch_moves lives_moves intro: lives_trans [OF up])
       (auto simp: lives_def intro!: paid)
qed

lemma return_lives:
  assumes "execute_return_escrow L env info s = Inr (s', r)" and "circle_inv s"
  shows "lives s s'"
  using assms(1)
proof (cases rule: return_shape)
  case (1 e tc refund)
  from circle_inv_escrow [OF assms(2) 1(2)] have ge: "one_tgd \<le> get_escrow tc" .
  from 1(3) show ?thesis
  proof (cases rule: escrow_refund_cases)
    case voting
    from ge have "0 < unat (get_escrow tc)" by (simp add: word_le_nat_alt)
    have rest: "lives s (s\<lparr>s_escrows := sput (i_sender info) (e\<lparr>es_paid := paid\<rparr>) (s_escrows s)\<rparr>)"
      if "unat (es_paid e) = unat paid + unat refund" for paid
      by (rule lives_put [where a = "i_sender info" and e' = "e\<lparr>es_paid := paid\<rparr>"])
         (use voting 1(1) ge that in \<open>auto simp: word_le_nat_alt intro: life_rules(5)\<close>)
    from \<open>0 < unat (get_escrow tc)\<close> voting 1(4) show ?thesis
      by (auto intro: lives_same rest)
  next
    case (leaving c)
    have gone: "lives s x" if "s_escrows x = sdel (i_sender info) (s_escrows s)" for x
      by (rule lives_del [OF that]) (use 1(1) leaving(1) in \<open>auto intro: life_rules(3)\<close>)
    from leaving 1(4) show ?thesis
      by (auto intro: lives_same gone simp: unat_eq_zero)
  qed
qed

lemma long_leave_lives:
  assumes "trigger_long_leave L env a e s = Inr (s', r)"
    and "\<And>c. life (sget (s_escrows s) a) (Some (e\<lparr>es_status := Leaving c\<rparr>))"
  shows "lives s s'"
  using assms(1) by (rule long_leave_shape) (auto intro: lives_put assms(2))

lemma leave_lives:
  assumes "execute_leave_trusted_circle L env info s = Inr (s', r)"
  shows "lives s s'"
  using assms
proof (cases rule: leave_shape)
  case (now e)
  then show ?thesis by (auto intro!: lives_del intro: life_rules)
next
  case (later e)
  from later(2) have "life (Some e) (Some (e\<lparr>es_status := Leaving c\<rparr>))" for c
    by (auto intro: life_rules(6))
  with later(1,3) show ?thesis by (auto intro: long_leave_lives)
qed

text \<open>Executed proposals.\<close>

lemma add_non_voting_lives:
  assumes "add_non_voting L Q tc h s r = Inr s'" and "membership_inv s"
  shows "lives s s'"
  using assms(1)
proof (cases rule: add_non_voting_shape)
  case (new a)
  then have "sget (s_escrows s) a = None"
    using assms(2) membership_no_member unfolding membership_inv_def by blast
  with new show ?thesis
    by (intro lives_put [of _ a escrow_non_voting]) (auto simp: escrow_non_voting_def intro: life.join)
qed (simp add: lives_same)

lemma remove_non_voting_lives:
  assumes "remove_non_voting L h s r = Inr s'"
  shows "lives s s'"
  using assms
proof (cases rule: remove_non_voting_shape)
  case (some a e)
  then show ?thesis by (intro lives_del [of _ a]) (auto intro: life_rules(1))
qed (simp add: lives_same)

lemma add_remove_lives:
  assumes "add_remove_non_voting_members L Q tc h as rs s = Inr (s', ev)" and "membership_inv s"
  shows "lives s s'"
proof -
  from assms(1) obtain s1 where 1: "foldE (add_non_voting L Q tc h) s as = Inr s1"
    and 2: "foldE (remove_non_voting L h) s1 rs = Inr s'"
    by (auto simp: add_remove_non_voting_members_def Let_def)
  have "lives s s1 \<and> membership_inv s1"
    by (rule foldE_invariant [OF 1, where P = "\<lambda>x. lives s x \<and> membership_inv x"])
       (use assms(2) in \<open>auto simp: lives_same intro: lives_trans add_non_voting_lives add_non_voting_membership\<close>)
  moreover have "lives s1 s'"
    by (rule foldE_related [OF 2]) (auto intro: lives_same lives_trans remove_non_voting_lives)
  ultimately show ?thesis by (auto intro: lives_trans)
qed

lemma add_voting_lives: 
  assumes "add_voting_member p h s a = Inr s'" and "entry_ok (sget (s_escrows s) a)"
  shows "lives s s'"
proof (cases "sget (s_escrows s) a")
  case None
  with assms show ?thesis
    by (auto simp: add_voting_member_def Let_def save_defs escrow_pending_for_def
        intro!: lives_put life.invited)
next
  case (Some e)
  show ?thesis
  proof (cases "es_status e = NonVoting")
    case True
    with Some have "sget (s_escrows s) a = Some \<lparr>es_paid = es_paid e, es_status = NonVoting\<rparr>" by simp
    with assms show ?thesis
      by (auto simp: add_voting_member_def Let_def save_defs escrow_pending_for_def
          intro!: lives_put intro: life.invited)
  next
    case False
    with Some assms show ?thesis
      by (auto simp: add_voting_member_def Let_def intro: lives_same)
  qed
qed

lemma slash_payout_remaining:
  assumes "slash_payout p d sl (paid - sl) = Inr (msgs, rem)" and "sl \<le> paid"
  shows "rem \<le> paid"
proof (cases "0 < sl")
  case False
  with assms have "rem = paid - sl" by (simp add: slash_payout_def)
  then show ?thesis using assms(2) by (simp add: word_sub_le)
next
  case True
  have mod: "unat (paid - sl + sl mod n) \<le> unat paid" for n :: u128
  proof -
    have "unat (sl mod n) \<le> unat sl" by (simp add: unat_mod)
    moreover have "unat (paid - sl) = unat paid - unat sl" using assms(2) by (simp add: unat_sub word_le_nat_alt)
    moreover have "unat sl \<le> unat paid" using assms(2) by (simp add: word_le_nat_alt)
    moreover have "unat paid < 2 ^ 128" by (rule unat_u128)
    ultimately show ?thesis by (simp add: unat_word_ariths)
  qed
  have "rem = paid - sl \<or> (\<exists>n. rem = paid - sl + sl mod n)"
    using assms(1) True by (auto simp: slash_payout_def Let_def split: punishment.splits if_splits)
  then show ?thesis using assms(2) mod by (auto simp: word_le_nat_alt word_sub_le unat_sub)
qed

lemma punish_lives:
  assumes "punish_one L env i (s, res, dem) (k, p) = Inr (s', res', dem')"
    and "decimal_law L" and "pun_slashing p \<le> decimal_one" and "circle_inv s"
  shows "lives s s'"
proof -
  let ?a = "pun_member p"
  from assms(1) obtain e tc sl msgs left where
    e: "sget (s_escrows s) ?a = Some e" "es_status e \<noteq> NonVoting" and tc: "s_circle s = Some tc"
    and sl: "l_mul_decimal L (es_paid e) (pun_slashing p) = Some sl"
    and pay: "slash_payout p (tc_denom tc) sl (es_paid e - sl) = Inr (msgs, left)"
    and cases: "(pun_kick_out p \<and> (\<exists>r. trigger_long_leave L env ?a (e\<lparr>es_paid := left\<rparr>) s = Inr (s', r)))
      \<or> (\<not> pun_kick_out p \<and> left < get_escrow tc \<and>
          demote_punished i (b_height (e_block env)) ?a (e\<lparr>es_paid := left\<rparr>) s = Inr s')
      \<or> (\<not> pun_kick_out p \<and> get_escrow tc \<le> left \<and> s' = save_escrow ?a (e\<lparr>es_paid := left\<rparr>) s)"
    by (rule punish_shape)
  have "sl \<le> es_paid e" using assms(2,3) sl by (rule mul_decimal_le_one)
  with pay have le: "left \<le> es_paid e" by (rule slash_payout_remaining)
  have ge: "one_tgd \<le> get_escrow tc" using assms(4) tc by (rule circle_inv_escrow)
  from cases consider (kick) r where "trigger_long_leave L env ?a (e\<lparr>es_paid := left\<rparr>) s = Inr (s', r)"
    | (below) "demote_punished i (b_height (e_block env)) ?a (e\<lparr>es_paid := left\<rparr>) s = Inr s'"
    | (stay) "get_escrow tc \<le> left" "s' = save_escrow ?a (e\<lparr>es_paid := left\<rparr>) s"
    by blast
  then show ?thesis
  proof cases
    case kick
    have "life (sget (s_escrows s) ?a) (Some (e\<lparr>es_paid := left, es_status := Leaving c\<rparr>))" for c
      using e le by (simp add: life_rules(9))
    then show ?thesis by (intro long_leave_lives [OF kick]) simp
  next
    case below
    have "life (sget (s_escrows s) ?a) (Some (e\<lparr>es_paid := left, es_status := Pending i\<rparr>))"
      using e le by (simp add: life_rules(8))
    with below show ?thesis
      by (auto elim!: demote_punished_shape intro!: lives_put [of _ ?a "e\<lparr>es_paid := left, es_status := Pending i\<rparr>"])
  next
    case stay
    then have "one_tgd \<le> left" using ge by simp
    with e le have "life (sget (s_escrows s) ?a) (Some (e\<lparr>es_paid := left\<rparr>))"
      by (simp add: life_rules(7))
    with stay show ?thesis
      by (intro lives_put [of _ ?a "e\<lparr>es_paid := left\<rparr>"]) (simp_all add: save_escrow_def)
  qed
qed

lemma punish_members_lives:
  assumes "proposal_punish_members L env i ps s = Inr (s', r)" and "decimal_law L"
    and "\<And>x. x \<in> set ps \<Longrightarrow> pun_slashing x \<le> decimal_one" and "circle_inv s"
  shows "lives s s'"
proof -
  from assms(1) obtain acc s1 r1 dem
    where loop: "foldE (punish_one L env i) (s, r1, []) (zip (map (\<lambda>i. of_nat (Suc i)) [0..<length ps]) ps) = Inr (s1, acc, dem)"
      and batch: "create_batch L env i 0 dem s1 = Inr s'"
    by (auto simp: proposal_punish_members_def Let_def)
  have "case (s1, acc, dem) of (x, _) \<Rightarrow> lives s x \<and> circle_inv x"
    by (rule foldE_invariant [OF loop, where P = "\<lambda>(x, _). lives s x \<and> circle_inv x"])
       (use assms(2-4) in \<open>auto simp: lives_same dest!: set_zip_rightD
          intro: lives_trans punish_lives circle_inv_kept punish_governance\<close>)
  moreover have "lives s1 s'" using batch by (intro lives_moves create_batch_moves)
  ultimately show ?thesis by (auto intro: lives_trans)
qed

definition paid_inv :: "tc_state \<Rightarrow> bool" where
  "paid_inv s \<longleftrightarrow> (\<forall>a. entry_ok (sget (s_escrows s) a))"

lemma paid_inv_lives: "lives s s' \<Longrightarrow> paid_inv s \<Longrightarrow> paid_inv s'"
  using lives_ok unfolding paid_inv_def by blast

lemma proposal_execute_lives:
  assumes "proposal_execute L Q env i (pr_proposal p) s = Inr (s', r)" and "decimal_law L"
    and "proposal_valid p" and "circle_inv s" and "membership_inv s" and "paid_inv s"
  shows "lives s s'"
proof (cases "pr_proposal p")
  case (AddVotingMembers as)
  with assms(1) obtain s1 as' where 1: "create_batch L env i (voting_period_secs (tc_rules tc)) as' s = Inr s1"
    and 2: "foldE (add_voting_member i (b_height (e_block env))) s1 as' = Inr s'"
    if "s_circle s = Some tc" for tc
    by (auto simp: proposal_execute_def proposal_add_voting_members_def Let_def)
  from assms(4) obtain tc where tc: "s_circle s = Some tc" by (auto simp: circle_inv_def)
  have s1: "lives s s1" using 1 [OF tc] by (intro lives_moves create_batch_moves)
  show ?thesis
  proof (rule foldE_invariant [OF 2 [OF tc], where P = "lives s", OF s1])
    fix x a y
    assume x: "lives s x" and y: "add_voting_member i (b_height (e_block env)) x a = Inr y"
    have "entry_ok (sget (s_escrows x) a)"
      using paid_inv_lives [OF x assms(6)] by (simp add: paid_inv_def)
    with x y show "lives s y" by (blast intro: lives_trans add_voting_lives)
  qed
next
  case (PunishMembers ps)
  with assms show ?thesis
    by (auto simp: proposal_execute_def proposal_valid_def intro: punish_members_lives)
next
  case (EditTrustedCircle ad)
  with assms(1) show ?thesis
    by (auto simp: proposal_execute_def proposal_edit_trusted_circle_def intro: lives_same)
qed (use assms(1,5) in \<open>auto simp: proposal_execute_def proposal_add_remove_non_voting_members_def
       proposal_whitelist_contract_addr_def proposal_remove_contract_addr_def
       whitelist_contract_addr_def remove_contract_addr_def
       dest: add_remove_lives\<close>)

text \<open>Every call moves every address along the relation.\<close>

lemma execute_lives:
  assumes "execute L Q env info msg s = Inr (s', r)" and "decimal_law L"
    and "circle_inv s" and "membership_inv s" and "paid_inv s"
  shows "lives s s'"
proof -
  note sorted = membership_inv_sorted [OF assms(4)]
  show ?thesis
  proof (cases msg)
    case (Propose t d c)
    with assms(1) have "execute_propose L Q env info t d c s = Inr (s', r)" by (simp add: execute_def)
    then show ?thesis
      by (rule propose_shape)
         (use assms(3) sorted in \<open>auto dest!: check_pending_moves simp: lives_def
            dest: lives_moves [unfolded lives_def]\<close>)
  next
    case (Vote i v)
    with assms show ?thesis by (auto simp: execute_def lives_same elim!: vote_shape)
  next
    case (Close i)
    with assms show ?thesis by (auto simp: execute_def lives_same elim!: close_shape)
  next
    case (Execute i)
    with assms have "execute_execute L Q env info i s = Inr (s', r)" by (simp add: execute_def)
    then show ?thesis
    proof (cases rule: execute_execute_shape)
      case (1 p r')
      let ?s = "s\<lparr>s_proposals := sput i (p\<lparr>pr_status := StExecuted\<rparr>) (s_proposals s)\<rparr>"
      have p: "proposal_valid p" using 1(1) assms(3) by (auto simp: circle_inv_def)
      then have "circle_inv ?s"
        by (intro circle_inv_save [OF assms(3), of "p\<lparr>pr_status := StExecuted\<rparr>"])
           (auto simp: proposal_valid_def)
      moreover have "membership_inv ?s" "paid_inv ?s"
        using assms(4,5) by (simp_all add: membership_inv_def paid_inv_def)
      ultimately have "lives ?s s'"
        using 1(4) assms(2) p by (intro proposal_execute_lives) auto
      then show ?thesis by (simp add: lives_def)
    qed
  next
    case DepositEscrow
    with assms show ?thesis by (auto simp: execute_def intro: deposit_lives)
  next
    case ReturnEscrow
    with assms show ?thesis by (auto simp: execute_def intro: return_lives)
  next
    case LeaveTrustedCircle
    with assms show ?thesis by (auto simp: execute_def intro: leave_lives)
  next
    case CheckPending
    with assms sorted show ?thesis
      by (auto simp: execute_def dest!: check_call_shape intro: lives_moves check_pending_moves)
  qed (use assms in \<open>auto simp: execute_def lives_same dest!: distribute_shape withdraw_shape\<close>)
qed

lemma instantiate_paid:
  assumes "instantiate L Q env info msg empty_state = Inr (s, r)"
  shows "paid_inv s"
  using assms
proof (cases rule: instantiate_shape)
  case (1 tc amount ev)
  have "one_tgd \<le> get_escrow tc" using 1(2) by (auto simp: validate_circle_Inr get_escrow_def le_max_iff_disj)
  with 1(4) have "one_tgd \<le> amount" by simp
  then show ?thesis
    by (intro paid_inv_lives [OF add_remove_lives [OF 1(5)]])
       (auto simp: paid_inv_def entry_ok_def membership_inv_def membership_def points_agree_def
         voter_count_def status_points_def sorted_store_def empty_state_def sget_def)
qed

lemma reachable_paid:
  assumes "tc_reachable L s" and "decimal_law L"
  shows "paid_inv s"
  using assms(1)
proof (rule tc_invariantI)
  fix Q env info msg s s' r
  assume r: "tc_reachable L s" and p: "paid_inv s" and e: "execute L Q env info msg s = Inr (s', r)"
  have "lives s s'"
    using e assms(2) reachable_circle [OF r] reachable_membership [OF r] p by (rule execute_lives)
  then show "paid_inv s'" using p by (rule paid_inv_lives)
qed (rule instantiate_paid)

end
