(* ===== verification/TC_Escrow.thy ===== *)
theory TC_Escrow
  imports TC_Life
begin

text \<open>
  The escrow account of the circle: what members have paid in equals what the escrow entries
  hold plus what was sent out, to the last unit, for every call. A punishment that distributes
  sends the exact share to each receiver and leaves the remainder with the member.
\<close>

definition escrow_sum :: "(addr, escrow_status) store \<Rightarrow> nat" where
  "escrow_sum es = tally (\<lambda>_ e. unat (es_paid e)) es"

section \<open>One entry changes\<close>

lemma escrow_sum_put:
  assumes "sorted_store es" and "sget es a = Some e"
  shows "escrow_sum (sput a e' es) + unat (es_paid e) = escrow_sum es + unat (es_paid e')"
  using kv.tally_put [OF assms(1), of "\<lambda>_ e. unat (es_paid e)" a e'] assms(2)
  by (simp add: escrow_sum_def)

lemma escrow_sum_new:
  assumes "sorted_store es" and "sget es a = None"
  shows "escrow_sum (sput a e' es) = escrow_sum es + unat (es_paid e')"
  using kv.tally_put [OF assms(1), of "\<lambda>_ e. unat (es_paid e)" a e'] assms(2)
  by (simp add: escrow_sum_def)

lemma escrow_sum_del:
  assumes "sorted_store es" and "sget es a = Some e"
  shows "escrow_sum (sdel a es) + unat (es_paid e) = escrow_sum es"
  using kv.tally_del [OF assms(1), of "\<lambda>_ e. unat (es_paid e)" a] assms(2)
  by (simp add: escrow_sum_def)

lemma escrow_sum_same_paid:
  assumes "sorted_store es" and "sorted_store es'"
    and "\<And>a. map_option es_paid (sget es' a) = map_option es_paid (sget es a)"
  shows "escrow_sum es' = escrow_sum es"
proof -
  have dom: "dom (sget es') = dom (sget es)"
  proof (intro set_eqI)
    fix a
    show "a \<in> dom (sget es') \<longleftrightarrow> a \<in> dom (sget es)"
      using assms(3) [of a] by (cases "sget es a"; cases "sget es' a") auto
  qed
  have "unat (es_paid (the (sget es' a))) = unat (es_paid (the (sget es a)))" if "a \<in> dom (sget es)" for a
    using assms(3) [of a] that by (auto simp: map_option_case split: option.splits)
  then show ?thesis
    unfolding escrow_sum_def kv.tally_as_sum [OF assms(1)] kv.tally_as_sum [OF assms(2)] dom
    by (rule sum.cong [OF refl])
qed

lemma moves_sum:
  "moves s s' \<Longrightarrow> membership_inv s \<Longrightarrow> membership_inv s' \<Longrightarrow>
     escrow_sum (s_escrows s') = escrow_sum (s_escrows s)"
  by (rule escrow_sum_same_paid) (auto dest: membership_inv_sorted moves_paid)

section \<open>Slashing\<close>

text \<open>The receivers of a distribution fit in a vector of the contract's 32-bit memory.\<close>

definition receivers_fit :: "punishment \<Rightarrow> bool" where
  "receivers_fit p \<longleftrightarrow> (case p of DistributeEscrow _ _ ds _ \<Rightarrow> length ds < 2 ^ 32 | _ \<Rightarrow> True)"

lemma sent_each: "sent (map (\<lambda>a. BankSend a [mk_coin x d]) as) = length as * unat x"
  by (induction as) auto

lemma slash_payout_exact:
  assumes "slash_payout p d sl (paid - sl) = Inr (msgs, left)" and "sl \<le> paid" and "receivers_fit p"
  shows "unat left + sent msgs = unat paid"
proof -
  have sub: "unat (paid - sl) + unat sl = unat paid"
    using assms(2) by (simp add: unat_sub word_le_nat_alt)
  show ?thesis
  proof (cases p)
    case (BurnEscrow m x k)
    with assms(1) sub show ?thesis
      by (auto simp: slash_payout_def word_gt_0 split: if_splits)
  next
    case (DistributeEscrow m x ds k)
    show ?thesis
    proof (cases "sl = 0")
      case True
      with assms(1) sub show ?thesis by (auto simp: slash_payout_def)
    next
      case False
      let ?n = "of_nat (length ds) :: u128"
      have n: "unat ?n = length ds"
        using assms(3) DistributeEscrow by (simp add: receivers_fit_def unat_of_nat)
      from assms(1) False DistributeEscrow
      have msgs: "msgs = map (\<lambda>a. BankSend a [mk_coin (sl div ?n) d]) ds" and left: "left = paid - sl + sl mod ?n"
        by (auto simp: slash_payout_def Let_def word_gt_0 split: if_splits)
      have "sent msgs = length ds * (unat sl div length ds)"
        by (simp add: msgs sent_each unat_div n)
      moreover have "unat left = unat (paid - sl) + unat sl mod length ds"
      proof -
        have "unat sl mod length ds \<le> unat sl" by simp
        moreover have "unat paid < 2 ^ 128" by (rule unat_u128)
        ultimately have "unat (paid - sl) + unat (sl mod ?n) < 2 ^ 128"
          using sub unfolding unat_mod n by linarith
        then have "unat (paid - sl + sl mod ?n) = unat (paid - sl) + unat (sl mod ?n)"
          by (intro unat_add_lem [THEN iffD1]) simp
        then show ?thesis by (simp only: left unat_mod n)
      qed
      ultimately show ?thesis
        using sub mult_div_mod_eq [of "length ds" "unat sl"] by linarith
    qed
  qed
qed

lemma punish_sum:
  assumes "punish_one L env i (s, res, dem) (k, p) = Inr (s', res', dem')"
    and "decimal_law L" and "pun_slashing p \<le> decimal_one" and "receivers_fit p" and "membership_inv s"
  shows "escrow_sum (s_escrows s') + sent (r_messages res') = escrow_sum (s_escrows s) + sent (r_messages res)"
  using assms(1)
proof (cases rule: punish_shape)
  case (1 e tc sl msgs left)
  have "sl \<le> es_paid e" using assms(2,3) 1(4) by (rule mul_decimal_le_one)
  with 1(5) assms(4) have left: "unat left + sent msgs = unat (es_paid e)" by (intro slash_payout_exact)
  have "\<exists>st. s_escrows s' = sput (pun_member p) (e\<lparr>es_paid := left, es_status := st\<rparr>) (s_escrows s)"
  proof -
    have stay: "e\<lparr>es_paid := left\<rparr> = e\<lparr>es_paid := left, es_status := es_status e\<rparr>" by simp
    from 1(6) show ?thesis
      by (auto elim!: long_leave_shape demote_punished_shape simp: save_escrow_def) (metis stay)
  qed
  then obtain st where st: "s_escrows s' = sput (pun_member p) (e\<lparr>es_paid := left, es_status := st\<rparr>) (s_escrows s)" ..
  show ?thesis
    using escrow_sum_put [OF membership_inv_sorted [OF assms(5)] 1(1), of "e\<lparr>es_paid := left, es_status := st\<rparr>"]
      left 1(7) st by simp
qed

lemma punish_members_sum:
  assumes "proposal_punish_members L env i ps s = Inr (s', r)" and "decimal_law L"
    and "\<And>x. x \<in> set ps \<Longrightarrow> pun_slashing x \<le> decimal_one" and "\<And>x. x \<in> set ps \<Longrightarrow> receivers_fit x"
    and "membership_inv s"
  shows "escrow_sum (s_escrows s') + sent (r_messages r) = escrow_sum (s_escrows s)"
proof -
  from assms(1) obtain acc s1 r1 dem where
    loop: "foldE (punish_one L env i) (s, r1, []) (zip (map (\<lambda>i. of_nat (Suc i)) [0..<length ps]) ps) = Inr (s1, acc, dem)"
    and r1: "r_messages r1 = []" and r: "r_messages r = r_messages acc"
    and batch: "create_batch L env i 0 dem s1 = Inr s'"
    by (auto simp: proposal_punish_members_def Let_def)
  have "case (s1, acc, dem) of (x, a, _) \<Rightarrow> membership_inv x \<and>
      escrow_sum (s_escrows x) + sent (r_messages a) = escrow_sum (s_escrows s)"
    by (rule foldE_invariant [OF loop, where P = "\<lambda>(x, a, _). membership_inv x \<and>
          escrow_sum (s_escrows x) + sent (r_messages a) = escrow_sum (s_escrows s)"])
       (use assms(2-5) r1 in \<open>auto dest!: set_zip_rightD dest: punish_sum punish_membership\<close>)
  moreover have "s_escrows s' = s_escrows s1" using batch by (auto elim: create_batch_shape)
  ultimately show ?thesis by (simp add: r)
qed

section \<open>The calls\<close>

lemma add_voting_sum:
  assumes "add_voting_member p h s a = Inr s'" and "paid_inv s" and "membership_inv s"
  shows "escrow_sum (s_escrows s') = escrow_sum (s_escrows s)"
proof (cases "sget (s_escrows s) a")
  case None
  with assms(1) show ?thesis
    using escrow_sum_new [OF membership_inv_sorted [OF assms(3)] None]
    by (auto simp: add_voting_member_def Let_def save_defs escrow_pending_for_def)
next
  case (Some e)
  show ?thesis
  proof (cases "es_status e = NonVoting")
    case True
    with assms(2) Some have "es_paid e = 0" by (auto simp: paid_inv_def entry_ok_def)
    with True Some assms(1) show ?thesis
      using escrow_sum_put [OF membership_inv_sorted [OF assms(3)] Some, of "escrow_pending_for p"]
      by (auto simp: add_voting_member_def Let_def save_defs escrow_pending_for_def)
  next
    case False
    with Some assms(1) show ?thesis by (auto simp: add_voting_member_def Let_def)
  qed
qed

lemma add_non_voting_sum:
  assumes "add_non_voting L Q tc h s r = Inr s'" and "membership_inv s"
  shows "escrow_sum (s_escrows s') = escrow_sum (s_escrows s)"
  using assms(1)
proof (cases rule: add_non_voting_shape)
  case (new a)
  then have "sget (s_escrows s) a = None"
    using assms(2) membership_no_member unfolding membership_inv_def by blast
  with new show ?thesis
    using escrow_sum_new [OF membership_inv_sorted [OF assms(2)], of a escrow_non_voting]
    by (simp add: escrow_non_voting_def)
qed simp

lemma remove_non_voting_sum:
  assumes "remove_non_voting L h s r = Inr s'" and "membership_inv s" and "paid_inv s"
  shows "escrow_sum (s_escrows s') = escrow_sum (s_escrows s)"
  using assms(1)
proof (cases rule: remove_non_voting_shape)
  case (some a e)
  with assms(3) have "es_paid e = 0" by (auto simp: paid_inv_def entry_ok_def)
  with some show ?thesis
    using escrow_sum_del [OF membership_inv_sorted [OF assms(2)] some(1)] by simp
qed simp

text \<open>The three facts that the loops carry along.\<close>

definition steady :: "nat \<Rightarrow> tc_state \<Rightarrow> bool" where
  "steady n s \<longleftrightarrow> escrow_sum (s_escrows s) = n \<and> membership_inv s \<and> paid_inv s"

lemma add_non_voting_steady:
  "add_non_voting L Q tc h s r = Inr s' \<Longrightarrow> steady n s \<Longrightarrow> steady n s'"
  unfolding steady_def
  using add_non_voting_sum add_non_voting_membership add_non_voting_lives paid_inv_lives by metis

lemma remove_non_voting_steady:
  "remove_non_voting L h s r = Inr s' \<Longrightarrow> steady n s \<Longrightarrow> steady n s'"
  unfolding steady_def
  using remove_non_voting_sum remove_non_voting_membership remove_non_voting_lives paid_inv_lives by metis

lemma add_voting_steady:
  assumes "add_voting_member p h s a = Inr s'" and "steady n s"
  shows "steady n s'"
proof -
  from assms(2) have s: "escrow_sum (s_escrows s) = n" "membership_inv s" "paid_inv s"
    by (simp_all add: steady_def)
  then have "entry_ok (sget (s_escrows s) a)" by (simp add: paid_inv_def)
  then have "paid_inv s'" using add_voting_lives [OF assms(1)] s(3) paid_inv_lives by blast
  then show ?thesis
    using add_voting_sum [OF assms(1) s(3,2)] add_voting_membership [OF assms(1) s(2)] s(1)
    by (simp add: steady_def)
qed

lemma add_remove_steady:
  assumes "add_remove_non_voting_members L Q tc h as rs s = Inr (s', ev)" and "steady n s"
  shows "steady n s'"
  using assms
  by (auto simp: add_remove_non_voting_members_def Let_def
      intro: add_non_voting_steady remove_non_voting_steady
      elim!: foldE_invariant [where P = "steady n"])

lemma create_batch_steady: "create_batch L env i g as s = Inr s' \<Longrightarrow> steady n s \<Longrightarrow> steady n s'"
  by (erule create_batch_shape) (auto simp: steady_def membership_inv_def paid_inv_def)

lemma proposal_execute_sum:
  assumes "proposal_execute L Q env i (pr_proposal p) s = Inr (s', r)" and "decimal_law L"
    and "proposal_valid p" and "membership_inv s" and "paid_inv s"
    and "\<And>ps x. pr_proposal p = PunishMembers ps \<Longrightarrow> x \<in> set ps \<Longrightarrow> receivers_fit x"
  shows "escrow_sum (s_escrows s') + sent (r_messages r) = escrow_sum (s_escrows s)"
proof -
  let ?n = "escrow_sum (s_escrows s)"
  have start: "steady ?n s" using assms(4,5) by (simp add: steady_def)
  have same: "escrow_sum (s_escrows x) = ?n" if "steady ?n x" for x
    using that by (simp add: steady_def)
  show ?thesis
  proof (cases "pr_proposal p")
    case (AddVotingMembers as)
    with assms(1) obtain s1 g as' where 1: "create_batch L env i g as' s = Inr s1"
      and 2: "foldE (add_voting_member i (b_height (e_block env))) s1 as' = Inr s'" and r: "r_messages r = []"
      by (auto simp: proposal_execute_def proposal_add_voting_members_def Let_def)
    have "steady ?n s'"
      by (rule foldE_invariant [OF 2, where P = "steady ?n"])
         (auto intro: add_voting_steady create_batch_steady [OF 1 start])
    then show ?thesis using r same by simp
  next
    case (PunishMembers ps)
    with assms show ?thesis
      by (auto simp: proposal_execute_def proposal_valid_def intro: punish_members_sum)
  next
    case (EditTrustedCircle ad)
    with assms(1) show ?thesis
      by (auto simp: proposal_execute_def proposal_edit_trusted_circle_def)
  qed (use assms(1) start in \<open>auto simp: proposal_execute_def proposal_add_remove_non_voting_members_def
       proposal_whitelist_contract_addr_def proposal_remove_contract_addr_def
       whitelist_contract_addr_def remove_contract_addr_def
       intro!: same elim: add_remove_steady\<close>)
qed

text \<open>What a call brings into the escrow account, and whether it concerns that account at all.\<close>

definition deposited :: "execute_msg \<Rightarrow> message_info \<Rightarrow> nat" where
  "deposited msg info = (if msg = DepositEscrow then coins_amount (i_funds info) else 0)"

lemma deposit_sum:
  assumes "execute_deposit_escrow L env info s = Inr (s', r)" and "payment_law L"
    and "membership_inv s" and "membership_inv s'"
  shows "escrow_sum (s_escrows s') + sent (r_messages r) = escrow_sum (s_escrows s) + coins_amount (i_funds info)"
  using assms(1)
proof (cases rule: deposit_shape)
  case (1 e tc amount paid)
  have funds: "coins_amount (i_funds info) = unat amount"
    using must_pay_amount [OF assms(2) 1(3)] by simp
  have put: "escrow_sum (sput (i_sender info) x (s_escrows s)) = escrow_sum (s_escrows s) + unat amount"
    if "es_paid x = paid" for x
    using escrow_sum_put [OF membership_inv_sorted [OF assms(3)] 1(1), of x] that 1(4) by simp
  from 1(6) show ?thesis
  proof
    assume "\<exists>p ev. es_status e = Pending p \<and> get_escrow tc \<le> paid \<and>
        update_batch_after_escrow_paid L env p (i_sender info)
          (s\<lparr>s_escrows := sput (i_sender info) (e\<lparr>es_paid := paid, es_status := PendingPaid p\<rparr>)
            (s_escrows s)\<rparr>) = Inr (s', ev)"
    then obtain p ev where p: "es_status e = Pending p" and up: "update_batch_after_escrow_paid L env p (i_sender info)
          (s\<lparr>s_escrows := sput (i_sender info) (e\<lparr>es_paid := paid, es_status := PendingPaid p\<rparr>)
            (s_escrows s)\<rparr>) = Inr (s', ev)" by blast
    let ?s = "s\<lparr>s_escrows := sput (i_sender info) (e\<lparr>es_paid := paid, es_status := PendingPaid p\<rparr>) (s_escrows s)\<rparr>"
    have "membership_inv ?s"
      using assms(3) 1(1) p
      by (auto simp: membership_inv_def status_points_def intro!: membership_same [of _ _ _ _ _ e])
    then have "escrow_sum (s_escrows s') = escrow_sum (s_escrows ?s)"
      using update_batch_moves [OF up] assms(4) by (intro moves_sum)
    with put 1(5) funds show ?thesis by simp
  next
    assume "(\<exists>p. es_status e = Pending p \<and> paid < get_escrow tc \<or> es_status e = PendingPaid p \<or> es_status e = Voting)
        \<and> s' = s\<lparr>s_escrows := sput (i_sender info) (e\<lparr>es_paid := paid\<rparr>) (s_escrows s)\<rparr>"
    with put 1(5) funds show ?thesis by simp
  qed
qed

lemma return_sum:
  assumes "execute_return_escrow L env info s = Inr (s', r)" and "membership_inv s"
  shows "escrow_sum (s_escrows s') + sent (r_messages r) = escrow_sum (s_escrows s)"
  using assms(1)
proof (cases rule: return_shape)
  case (1 e tc refund)
  note sorted = membership_inv_sorted [OF assms(2)]
  have "escrow_sum (sput (i_sender info) (e\<lparr>es_paid := p\<rparr>) (s_escrows s)) + unat refund = escrow_sum (s_escrows s)"
    if "unat (es_paid e) = unat p + unat refund" for p
    using escrow_sum_put [OF sorted 1(1), of "e\<lparr>es_paid := p\<rparr>"] that by simp
  with 1(4) show ?thesis using escrow_sum_del [OF sorted 1(1)] by auto
qed

lemma long_leave_sum:
  assumes "trigger_long_leave L env a e s = Inr (s', r)" and "membership_inv s"
    and "sget (s_escrows s) a = Some e"
  shows "escrow_sum (s_escrows s') = escrow_sum (s_escrows s)"
proof -
  have "escrow_sum (sput a (e\<lparr>es_status := Leaving c\<rparr>) (s_escrows s)) = escrow_sum (s_escrows s)" for c
    using escrow_sum_put [OF membership_inv_sorted [OF assms(2)] assms(3), of "e\<lparr>es_status := Leaving c\<rparr>"] by simp
  with assms(1) show ?thesis by (auto elim!: long_leave_shape)
qed

lemma leave_sum:
  assumes "execute_leave_trusted_circle L env info s = Inr (s', r)" and "membership_inv s" and "paid_inv s"
  shows "escrow_sum (s_escrows s') + sent (r_messages r) = escrow_sum (s_escrows s)"
  using assms(1)
proof (cases rule: leave_shape)
  case (now e)
  then have "es_paid e = 0" using assms(3) by (auto simp: paid_inv_def entry_ok_def)
  with now show ?thesis using escrow_sum_del [OF membership_inv_sorted [OF assms(2)] now(1)] by simp
next
  case (later e)
  then show ?thesis
    using long_leave_sum [OF later(3) assms(2) later(1)] long_leave_messages [OF later(3)] by simp
qed

lemma execute_sum:
  assumes "execute L Q env info msg s = Inr (s', r)" and "msg \<noteq> WithdrawRewards"
    and "decimal_law L" and "payment_law L"
    and inv: "circle_inv s" "membership_inv s" "paid_inv s"
    and fit: "\<And>i p ps x. sget (s_proposals s) i = Some p \<Longrightarrow> pr_proposal p = PunishMembers ps \<Longrightarrow>
      x \<in> set ps \<Longrightarrow> receivers_fit x"
  shows "escrow_sum (s_escrows s') + sent (r_messages r) = escrow_sum (s_escrows s) + deposited msg info"
proof -
  have inv': "membership_inv s'" using assms(1) inv(2,1) by (rule execute_membership)
  have check: "escrow_sum (s_escrows x) = escrow_sum (s_escrows s)"
    if "check_pending L e s = Inr (x, ev)" for e x ev
    using check_pending_moves [OF that membership_inv_sorted [OF inv(2)] inv(1)]
      check_pending_membership [OF that inv(2)] inv(2) by (intro moves_sum)
  show ?thesis
  proof (cases msg)
    case (Propose t d c)
    with assms have "execute_propose L Q env info t d c s = Inr (s', r)" by (simp add: execute_def)
    then show ?thesis
      by (rule propose_shape) (auto simp: Propose deposited_def dest: check)
  next
    case (Vote i v)
    with assms show ?thesis by (auto simp: execute_def deposited_def elim!: vote_shape)
  next
    case (Close i)
    with assms show ?thesis by (auto simp: execute_def deposited_def elim!: close_shape)
  next
    case (Execute i)
    with assms have "execute_execute L Q env info i s = Inr (s', r)" by (simp add: execute_def)
    then show ?thesis
    proof (cases rule: execute_execute_shape)
      case (1 p r')
      let ?s = "s\<lparr>s_proposals := sput i (p\<lparr>pr_status := StExecuted\<rparr>) (s_proposals s)\<rparr>"
      have p: "proposal_valid p" using 1(1) inv(1) by (auto simp: circle_inv_def)
      have "membership_inv ?s" "paid_inv ?s"
        using inv(2,3) by (simp_all add: membership_inv_def paid_inv_def)
      then have "escrow_sum (s_escrows s') + sent (r_messages r') = escrow_sum (s_escrows ?s)"
        using 1(4) assms(3) p fit [OF 1(1)] by (intro proposal_execute_sum)
      then show ?thesis by (simp add: 1(5) Execute deposited_def)
    qed
  next
    case DepositEscrow
    with assms inv' show ?thesis by (auto simp: execute_def deposited_def intro: deposit_sum)
  next
    case ReturnEscrow
    with assms show ?thesis by (auto simp: execute_def deposited_def intro: return_sum)
  next
    case LeaveTrustedCircle
    with assms show ?thesis by (auto simp: execute_def deposited_def intro: leave_sum)
  next
    case CheckPending
    with assms show ?thesis by (auto simp: execute_def deposited_def dest!: check_call_shape check)
  next
    case DistributeRewards
    with assms show ?thesis by (auto simp: execute_def deposited_def dest!: distribute_shape)
  qed (use assms(2) in simp)
qed

section \<open>Over a run\<close>

definition contents_fit :: "tc_state \<Rightarrow> bool" where
  "contents_fit s \<longleftrightarrow> (\<forall>i p ps x. sget (s_proposals s) i = Some p \<longrightarrow>
     pr_proposal p = PunishMembers ps \<longrightarrow> x \<in> set ps \<longrightarrow> receivers_fit x)"

definition msg_fits :: "execute_msg \<Rightarrow> bool" where
  "msg_fits msg \<longleftrightarrow> (\<forall>t d ps x. msg = Propose t d (PunishMembers ps) \<longrightarrow> x \<in> set ps \<longrightarrow> receivers_fit x)"

lemma contents_kept:
  assumes "proposals_kept s s'" and "contents_fit s"
  shows "contents_fit s'"
  unfolding contents_fit_def
proof (intro allI impI)
  fix i p' ps x
  assume p': "sget (s_proposals s') i = Some p'" "pr_proposal p' = PunishMembers ps" "x \<in> set ps"
  from assms(1) p'(1) obtain p where "sget (s_proposals s) i = Some p" "adjusted_one p p'"
    by (auto simp: proposals_kept_def elim: adjusted_SomeD)
  with assms(2) p' show "receivers_fit x"
    using adjusted_one_same [of p p'] by (simp add: contents_fit_def)
qed

lemma contents_save:
  assumes "contents_fit s" and "\<And>ps x. pr_proposal p = PunishMembers ps \<Longrightarrow> x \<in> set ps \<Longrightarrow> receivers_fit x"
    and "s_proposals s' = sput i p (s_proposals s)"
  shows "contents_fit s'"
  using assms by (auto simp: contents_fit_def)

lemma contents_step:
  assumes "execute L Q env info msg s = Inr (s', r)" and "contents_fit s" and "msg_fits msg"
  shows "contents_fit s'"
  using assms(1)
proof (cases rule: execute_cases)
  case (propose t d c)
  from propose(2) show ?thesis
  proof (cases rule: propose_shape)
    case (1 s1 ev power tc total p p' i x ballots)
    have "contents_fit s1"
      using 1(1) assms(2) by (auto dest: check_pending_governance_kept intro: contents_kept)
    then show ?thesis
      by (rule contents_save [where p = p' and i = i])
         (use 1(7,8,11) assms(3) propose(1) in \<open>auto simp: msg_fits_def dest!: update_status_shape\<close>)
  qed
next
  case (vote i v)
  from vote(2) show ?thesis
  proof (cases rule: vote_shape)
    case (1 p power e ballots p')
    show ?thesis
      by (rule contents_save [OF assms(2), where p = p' and i = i])
         (use 1(1,9,10) assms(2) in \<open>auto simp: contents_fit_def dest!: update_status_shape\<close>)
  qed
next
  case (close i)
  from close(2) show ?thesis
  proof (cases rule: close_shape)
    case (1 p)
    show ?thesis
      by (rule contents_save [OF assms(2), where p = "p\<lparr>pr_status := StRejected\<rparr>" and i = i])
         (use 1(1,4) assms(2) in \<open>auto simp: contents_fit_def\<close>)
  qed
next
  case (run i)
  from run(2) show ?thesis
  proof (cases rule: execute_execute_shape)
    case (1 p r')
    let ?s = "s\<lparr>s_proposals := sput i (p\<lparr>pr_status := StExecuted\<rparr>) (s_proposals s)\<rparr>"
    have "contents_fit ?s"
      by (rule contents_save [OF assms(2), where p = "p\<lparr>pr_status := StExecuted\<rparr>" and i = i])
         (use 1(1) assms(2) in \<open>auto simp: contents_fit_def\<close>)
    moreover have "proposals_kept ?s s'"
      using 1(4) by (rule proposal_execute_governance) (auto simp: kept_defs)
    ultimately show ?thesis by (metis contents_kept)
  qed
next
  case (check ev)
  from check_pending_governance_kept [OF check(2)] assms(2) show ?thesis by (rule contents_kept)
next
  case members
  then have "proposals_kept s s'" by (simp add: governance_kept_def)
  then show ?thesis using assms(2) by (rule contents_kept)
qed

text \<open>
  A run of successful calls, with the coins deposited as escrow and the coins sent out of the
  escrow account (what withdrawals of rewards send is not escrow).
\<close>

fun escrow_run ::
  "cw_lib \<Rightarrow> (querier \<times> env \<times> message_info \<times> execute_msg) list \<Rightarrow> tc_state
     \<Rightarrow> tc_error + (tc_state \<times> nat \<times> nat)" where
  "escrow_run L [] s = Inr (s, 0, 0)"
| "escrow_run L ((Q, env, info, msg) # calls) s =
     bindE (execute L Q env info msg s) (\<lambda>(s, r).
     bindE (escrow_run L calls s) (\<lambda>(s, paid_in, paid_out).
     Inr (s, deposited msg info + paid_in,
       (if msg = WithdrawRewards then 0 else sent (r_messages r)) + paid_out)))"

lemma escrow_run_balance:
  assumes "escrow_run L calls s = Inr (s', i, out)" and "tc_reachable L s" and "contents_fit s"
    and "decimal_law L" and "payment_law L" and "\<And>Q env info msg. (Q, env, info, msg) \<in> set calls \<Longrightarrow> msg_fits msg"
  shows "escrow_sum (s_escrows s') + out = escrow_sum (s_escrows s) + i"
  using assms(1,2,3,6)
proof (induction calls arbitrary: s i out)
  case (Cons c calls)
  obtain Q env info msg where c: "c = (Q, env, info, msg)" by (cases c)
  with Cons.prems(1) obtain s1 r i1 o1 where call: "execute L Q env info msg s = Inr (s1, r)"
    and rest: "escrow_run L calls s1 = Inr (s', i1, o1)"
    and i: "i = deposited msg info + i1"
    and out: "out = (if msg = WithdrawRewards then 0 else sent (r_messages r)) + o1"
    by auto
  have fits: "msg_fits msg" using Cons.prems(4) c by auto
  have "tc_reachable L s1" using Cons.prems(2) call by (auto intro: tc_next tc_call)
  moreover have "contents_fit s1" using call Cons.prems(3) fits by (rule contents_step)
  ultimately have "escrow_sum (s_escrows s') + o1 = escrow_sum (s_escrows s1) + i1"
    using rest Cons.prems(4) by (intro Cons.IH) auto
  moreover have "escrow_sum (s_escrows s1) + (if msg = WithdrawRewards then 0 else sent (r_messages r))
      = escrow_sum (s_escrows s) + deposited msg info"
  proof (cases "msg = WithdrawRewards")
    case True
    with call show ?thesis by (auto simp: execute_def deposited_def dest!: withdraw_shape)
  next
    case False
    with Cons.prems(2,3) call show ?thesis
      using execute_sum [OF call False assms(4,5) reachable_circle reachable_membership reachable_paid]
        assms(4) by (auto simp: contents_fit_def)
  qed
  ultimately show ?case by (simp add: i out)
qed simp

lemma instantiate_sum:
  assumes "instantiate L Q env info msg empty_state = Inr (s, r)" and "payment_law L"
  shows "escrow_sum (s_escrows s) = coins_amount (i_funds info) \<and> contents_fit s"
  using assms(1)
proof (cases rule: instantiate_shape)
  case (1 tc amount ev)
  let ?s = "empty_state\<lparr>s_version := Some (''crates.io:tgrade-trusted_circle'', ''0.15.0''),
          s_circle := Some tc,
          s_escrows := sput (i_sender info) \<lparr>es_paid = amount, es_status = Voting\<rparr> [],
          s_members := sput (i_sender info) (member_info_new 1) [],
          s_history := [(b_height (e_block env), i_sender info, Some (member_info_new 1))],
          s_total := Some 1, s_dist := dist_init (im_reward_denom msg) (s_dist empty_state)\<rparr>"
  have "one_tgd \<le> get_escrow tc" using 1(2) by (auto simp: validate_circle_Inr get_escrow_def le_max_iff_disj)
  with 1(4) have "one_tgd \<le> amount" by simp
  then have "steady (unat amount) ?s"
    by (auto simp: steady_def escrow_sum_def paid_inv_def entry_ok_def membership_inv_def membership_def
        points_agree_def voter_count_def status_points_def sorted_store_def empty_state_def sget_def)
  then have "steady (unat amount) s" using 1(5) by (rule add_remove_steady [rotated])
  moreover have "contents_fit s"
    by (rule contents_kept [where s = ?s])
       (use add_remove_governance [OF 1(5)] in \<open>auto simp: governance_kept_def contents_fit_def empty_state_def\<close>)
  ultimately show ?thesis
    using must_pay_amount [OF assms(2) 1(3)] by (simp add: steady_def)
qed

end
