(* ===== verification/Reward_Ledger.thy ===== *)
theory Reward_Ledger
  imports Storage
begin

text \<open>
  The abstract specification of reward distribution: who votes, what each address is due in
  units of \<open>2^-32\<close> coin, what it has taken, and what could not be divided yet. Joining and
  leaving change the voters and nothing else: a newcomer has no claim on past rewards, a leaver
  keeps what was earned. The locale \<open>ledger_impl\<close> is the contract of an implementation.
\<close>

record ledger =
  lg_voters :: "string set"
  lg_due :: "string \<Rightarrow> nat"
  lg_taken :: "string \<Rightarrow> nat"
  lg_rest :: nat
  lg_total :: nat

datatype ledger_op = Share nat | Take string | Join string | Leave string

fun ledger_step :: "ledger_op \<Rightarrow> ledger \<Rightarrow> ledger" where
  "ledger_step (Share m) l =
     (let n = card (lg_voters l); units = m * 2 ^ 32 + lg_rest l in
      l\<lparr>lg_due := \<lambda>a. lg_due l a + (if a \<in> lg_voters l then units div n else 0),
        lg_rest := units mod n, lg_total := lg_total l + m\<rparr>)"
| "ledger_step (Take a) l = l\<lparr>lg_taken := (lg_taken l)(a := lg_due l a div 2 ^ 32)\<rparr>"
| "ledger_step (Join a) l = l\<lparr>lg_voters := insert a (lg_voters l)\<rparr>"
| "ledger_step (Leave a) l = l\<lparr>lg_voters := lg_voters l - {a}\<rparr>"

fun ledger_allowed :: "ledger_op \<Rightarrow> ledger \<Rightarrow> bool" where
  "ledger_allowed (Share m) l \<longleftrightarrow> lg_voters l \<noteq> {} \<and> card (lg_voters l) < 2 ^ 64
     \<and> 0 < m \<and> lg_total l + m < 2 ^ 95"
| "ledger_allowed (Take a) l \<longleftrightarrow> a \<in> lg_voters l"
| "ledger_allowed (Join a) l \<longleftrightarrow> a \<notin> lg_voters l"
| "ledger_allowed (Leave a) l \<longleftrightarrow> a \<in> lg_voters l"

text \<open>Every unit is accounted for; nobody has taken more than is due.\<close>

definition ledger_inv :: "ledger \<Rightarrow> bool" where
  "ledger_inv l \<longleftrightarrow> finite (lg_voters l) \<and> finite {a. lg_due l a \<noteq> 0}
     \<and> (\<Sum>a | lg_due l a \<noteq> 0. lg_due l a) + lg_rest l = 2 ^ 32 * lg_total l
     \<and> (\<forall>a. lg_taken l a \<le> lg_due l a div 2 ^ 32)"

definition ledger_start :: "string set \<Rightarrow> ledger" where
  "ledger_start V = \<lparr>lg_voters = V, lg_due = \<lambda>_. 0, lg_taken = \<lambda>_. 0, lg_rest = 0, lg_total = 0\<rparr>"

lemma ledger_start_inv: "finite V \<Longrightarrow> ledger_inv (ledger_start V)"
  by (simp add: ledger_inv_def ledger_start_def)

text \<open>The sum may be taken over any finite set of addresses that holds all the claims.\<close>

lemma due_sum:
  assumes "ledger_inv l" and "finite S" and "{a. lg_due l a \<noteq> 0} \<subseteq> S"
  shows "(\<Sum>a \<in> S. lg_due l a) + lg_rest l = 2 ^ 32 * lg_total l"
proof -
  have "(\<Sum>a \<in> S. lg_due l a) = (\<Sum>a | lg_due l a \<noteq> 0. lg_due l a)"
    using assms(2,3) by (intro sum.mono_neutral_right) auto
  then show ?thesis using assms(1) by (simp add: ledger_inv_def)
qed

lemma due_le: "ledger_inv l \<Longrightarrow> lg_due l a \<le> 2 ^ 32 * lg_total l"
proof -
  assume inv: "ledger_inv l"
  then have "finite {a. lg_due l a \<noteq> 0}" by (simp add: ledger_inv_def)
  then have "(\<Sum>b \<in> insert a {a. lg_due l a \<noteq> 0}. lg_due l b) + lg_rest l = 2 ^ 32 * lg_total l"
    by (intro due_sum [OF inv]) auto
  moreover have "lg_due l a \<le> (\<Sum>b \<in> insert a {a. lg_due l a \<noteq> 0}. lg_due l b)"
    using \<open>finite {a. lg_due l a \<noteq> 0}\<close> by (intro member_le_sum) auto
  ultimately show ?thesis by linarith
qed

text \<open>What has been taken, and what is ready to be taken, are covered by what was distributed.\<close>

definition taken_sum :: "ledger \<Rightarrow> nat" where
  "taken_sum l = (\<Sum>a | lg_taken l a \<noteq> 0. lg_taken l a)"

lemma taken_support:
  assumes "ledger_inv l"
  shows "{a. lg_taken l a \<noteq> 0} \<subseteq> {a. lg_due l a \<noteq> 0}"
proof
  fix a
  assume "a \<in> {a. lg_taken l a \<noteq> 0}"
  moreover have "lg_taken l a \<le> lg_due l a div 2 ^ 32" using assms by (simp add: ledger_inv_def)
  ultimately show "a \<in> {a. lg_due l a \<noteq> 0}" by (cases "lg_due l a") simp_all
qed

lemma taken_finite: "ledger_inv l \<Longrightarrow> finite {a. lg_taken l a \<noteq> 0}"
  by (rule finite_subset [OF taken_support]) (simp_all add: ledger_inv_def)

lemma taken_sum_over:
  "ledger_inv l \<Longrightarrow> finite S \<Longrightarrow> {a. lg_taken l a \<noteq> 0} \<subseteq> S \<Longrightarrow> taken_sum l = (\<Sum>a \<in> S. lg_taken l a)"
  unfolding taken_sum_def by (rule sum.mono_neutral_left) auto

lemma claims_covered:
  assumes "ledger_inv l"
  shows "taken_sum l + (lg_due l a div 2 ^ 32 - lg_taken l a) \<le> lg_total l"
proof -
  let ?S = "insert a {a. lg_due l a \<noteq> 0}"
  have fin: "finite ?S" using assms by (simp add: ledger_inv_def)
  have le: "lg_taken l b \<le> lg_due l b div 2 ^ 32" for b
    using assms by (simp add: ledger_inv_def)
  have "taken_sum l = (\<Sum>b \<in> ?S. lg_taken l b)"
    by (rule taken_sum_over [OF assms fin]) (use taken_support [OF assms] in blast)
  also have "\<dots> = lg_taken l a + (\<Sum>b \<in> ?S - {a}. lg_taken l b)"
    using fin by (intro sum.remove) auto
  also have "\<dots> \<le> lg_taken l a + (\<Sum>b \<in> ?S - {a}. lg_due l b div 2 ^ 32)"
    by (intro add_left_mono sum_mono le)
  finally have "taken_sum l + (lg_due l a div 2 ^ 32 - lg_taken l a)
      \<le> lg_due l a div 2 ^ 32 + (\<Sum>b \<in> ?S - {a}. lg_due l b div 2 ^ 32)"
    using le [of a] by linarith
  also have "\<dots> = (\<Sum>b \<in> ?S. lg_due l b div 2 ^ 32)"
    using fin by (intro sum.remove [symmetric]) auto
  also have "\<dots> \<le> lg_total l"
  proof -
    have "(\<Sum>b \<in> ?S. lg_due l b div 2 ^ 32) * 2 ^ 32 = (\<Sum>b \<in> ?S. lg_due l b div 2 ^ 32 * 2 ^ 32)"
      by (rule sum_distrib_right)
    also have "\<dots> \<le> (\<Sum>b \<in> ?S. lg_due l b)" by (intro sum_mono) (rule div_times_less_eq_dividend)
    also have "\<dots> \<le> 2 ^ 32 * lg_total l" using due_sum [OF assms fin] by (metis le_add1 subset_insertI)
    finally show ?thesis by simp
  qed
  finally show ?thesis .
qed

lemma ledger_step_inv:
  assumes "ledger_inv l" and "ledger_allowed op l"
  shows "ledger_inv (ledger_step op l)"
proof (cases op)
  case (Share m)
  let ?V = "lg_voters l" and ?u = "m * 2 ^ 32 + lg_rest l"
  let ?q = "?u div card ?V" and ?due = "\<lambda>a. lg_due l a + (if a \<in> ?V then ?u div card ?V else 0)"
  let ?S = "?V \<union> {a. lg_due l a \<noteq> 0}"
  have fin: "finite ?V" "finite ?S" using assms(1) by (simp_all add: ledger_inv_def)
  have sup: "{a. ?due a \<noteq> 0} \<subseteq> ?S" by auto
  have "(\<Sum>a | ?due a \<noteq> 0. ?due a) = (\<Sum>a \<in> ?S. ?due a)"
    using fin sup by (intro sum.mono_neutral_left) auto
  also have "\<dots> = (\<Sum>a \<in> ?S. lg_due l a) + (\<Sum>a \<in> ?S. if a \<in> ?V then ?q else 0)"
    by (rule sum.distrib)
  also have "(\<Sum>a \<in> ?S. if a \<in> ?V then ?q else 0) = card ?V * ?q"
    using fin by (simp add: sum.If_cases Int_absorb1)
  finally have "(\<Sum>a | ?due a \<noteq> 0. ?due a) + ?u mod card ?V = (\<Sum>a \<in> ?S. lg_due l a) + ?u"
    by simp
  also have "\<dots> = 2 ^ 32 * (lg_total l + m)"
    using due_sum [OF assms(1) fin(2)] by simp
  finally have sum: "(\<Sum>a | ?due a \<noteq> 0. ?due a) + ?u mod card ?V = 2 ^ 32 * (lg_total l + m)" .
  have taken: "lg_taken l a \<le> ?due a div 2 ^ 32" for a
  proof -
    have "lg_taken l a \<le> lg_due l a div 2 ^ 32" using assms(1) by (simp add: ledger_inv_def)
    also have "\<dots> \<le> ?due a div 2 ^ 32" by (intro div_le_mono) simp
    finally show ?thesis .
  qed
  have new: "lg_voters (ledger_step op l) = ?V" "lg_due (ledger_step op l) = ?due"
    "lg_rest (ledger_step op l) = ?u mod card ?V" "lg_total (ledger_step op l) = lg_total l + m"
    "lg_taken (ledger_step op l) = lg_taken l"
    by (simp_all add: Share Let_def cong: if_cong)
  show ?thesis
    unfolding ledger_inv_def new using fin(1) finite_subset [OF sup fin(2)] sum taken by blast
next
  case (Join a)
  with assms(1) show ?thesis by (simp add: ledger_inv_def)
next
  case (Leave a)
  with assms(1) show ?thesis by (simp add: ledger_inv_def)
next
  case (Take a)
  with assms(1) show ?thesis by (simp add: ledger_inv_def)
qed

lemma take_sum:
  assumes "ledger_inv l"
  shows "taken_sum (ledger_step (Take a) l) = taken_sum l + (lg_due l a div 2 ^ 32 - lg_taken l a)"
proof -
  let ?S = "insert a {b. lg_due l b \<noteq> 0}" and ?l = "ledger_step (Take a) l"
  have fin: "finite ?S" using assms by (simp add: ledger_inv_def)
  have inv': "ledger_inv ?l" using assms by (simp add: ledger_inv_def)
  have "taken_sum ?l = (\<Sum>b \<in> ?S. lg_taken ?l b)"
    by (rule taken_sum_over [OF inv' fin]) (use taken_support [OF inv'] in auto)
  also have "\<dots> = lg_due l a div 2 ^ 32 + (\<Sum>b \<in> ?S - {a}. lg_taken l b)"
    using sum.remove [OF fin, of a "lg_taken ?l"] by simp
  finally have 1: "taken_sum ?l = lg_due l a div 2 ^ 32 + (\<Sum>b \<in> ?S - {a}. lg_taken l b)" .
  have "taken_sum l = (\<Sum>b \<in> ?S. lg_taken l b)"
    by (rule taken_sum_over [OF assms fin]) (use taken_support [OF assms] in auto)
  also have "\<dots> = lg_taken l a + (\<Sum>b \<in> ?S - {a}. lg_taken l b)"
    using sum.remove [OF fin, of a "lg_taken l"] by simp
  finally have 2: "taken_sum l = lg_taken l a + (\<Sum>b \<in> ?S - {a}. lg_taken l b)" .
  have "lg_taken l a \<le> lg_due l a div 2 ^ 32" using assms by (simp add: ledger_inv_def)
  with 1 2 show ?thesis by linarith
qed

section \<open>What an implementation promises\<close>

fun ledger_run :: "ledger_op list \<Rightarrow> ledger \<Rightarrow> ledger" where
  "ledger_run [] l = l"
| "ledger_run (op # ops) l = ledger_run ops (ledger_step op l)"

fun run_allowed :: "ledger_op list \<Rightarrow> ledger \<Rightarrow> bool" where
  "run_allowed [] l = True"
| "run_allowed (op # ops) l \<longleftrightarrow> ledger_allowed op l \<and> run_allowed ops (ledger_step op l)"

lemma ledger_run_inv: "ledger_inv l \<Longrightarrow> run_allowed ops l \<Longrightarrow> ledger_inv (ledger_run ops l)"
  by (induction ops arbitrary: l) (auto intro: ledger_step_inv)

locale ledger_impl =
  fixes rep :: "'d \<Rightarrow> ledger \<Rightarrow> bool"
    and step :: "ledger_op \<Rightarrow> 'd \<Rightarrow> 'e + 'd"
  assumes step_sim: "rep d l \<Longrightarrow> ledger_inv l \<Longrightarrow> ledger_allowed op l \<Longrightarrow>
    \<exists>d'. step op d = Inr d' \<and> rep d' (ledger_step op l)"
begin

fun impl_run :: "ledger_op list \<Rightarrow> 'd \<Rightarrow> 'e + 'd" where
  "impl_run [] d = Inr d"
| "impl_run (op # ops) d = bindE (step op d) (\<lambda>d. impl_run ops d)"

text \<open>A run that the specification allows never fails, and ends where the specification does.\<close>

lemma run_sim:
  "rep d l \<Longrightarrow> ledger_inv l \<Longrightarrow> run_allowed ops l \<Longrightarrow>
     \<exists>d'. impl_run ops d = Inr d' \<and> rep d' (ledger_run ops l) \<and> ledger_inv (ledger_run ops l)"
proof (induction ops arbitrary: d l)
  case (Cons op ops)
  then obtain d1 where "step op d = Inr d1" "rep d1 (ledger_step op l)"
    using step_sim [of d l op] by auto
  moreover have "ledger_inv (ledger_step op l)" using Cons.prems by (auto intro: ledger_step_inv)
  ultimately show ?case using Cons.IH [of d1 "ledger_step op l"] Cons.prems(3) by simp
qed simp

end

end
