(* ===== verification/TC_Rewards.thy ===== *)
theory TC_Rewards
  imports TC_Contract Reward_Ledger
begin

text \<open>
  The reward ledger of the trusted circle implements the abstract ledger: with \<open>u128\<close> arithmetic
  that wraps and corrections kept modulo \<open>2^128\<close>, every distribution credits the voters with
  equal shares, every withdrawal pays exactly what is due, a correction of one point on joining
  or leaving leaves all claims alone, and none of these operations fails, as long as less than
  \<open>2^95\<close> coins are distributed in total.
\<close>

definition claim_word :: "dist_config \<Rightarrow> distribution \<Rightarrow> addr set \<Rightarrow> addr \<Rightarrow> u128" where
  "claim_word c d V a = dc_points_per_points c * (if a \<in> V then 1 else 0)
     + wa_points_correction (adjustment_of d a)"

definition represents :: "u64 \<times> distribution \<Rightarrow> ledger \<Rightarrow> bool" where
  "represents td l \<longleftrightarrow> (case td of (t, d) \<Rightarrow> \<exists>c. d_config d = Some c
     \<and> t = of_nat (card (lg_voters l))
     \<and> (\<forall>a. claim_word c d (lg_voters l) a = of_nat (lg_due l a))
     \<and> (\<forall>a. unat (wa_withdrawn_funds (adjustment_of d a)) = lg_taken l a)
     \<and> unat (dc_points_leftover c) = lg_rest l
     \<and> unat (dc_distributed_total c) = lg_total l \<and> lg_total l < 2 ^ 95
     \<and> unat (dc_withdrawable_total c) + taken_sum l = lg_total l
     \<and> unat (dc_points_per_points c) + lg_rest l \<le> 2 ^ 32 * lg_total l)"

lemma representsE:
  assumes "represents (t, d) l"
  obtains c where "d_config d = Some c" "t = of_nat (card (lg_voters l))"
    "\<And>a. claim_word c d (lg_voters l) a = of_nat (lg_due l a)"
    "\<And>a. unat (wa_withdrawn_funds (adjustment_of d a)) = lg_taken l a"
    "unat (dc_points_leftover c) = lg_rest l" "unat (dc_distributed_total c) = lg_total l"
    "lg_total l < 2 ^ 95" "unat (dc_withdrawable_total c) + taken_sum l = lg_total l"
    "unat (dc_points_per_points c) + lg_rest l \<le> 2 ^ 32 * lg_total l"
  using assms unfolding represents_def by auto

lemma due_fits:
  assumes "ledger_inv l" and "lg_total l < 2 ^ 95"
  shows "lg_due l a < 2 ^ 128" and "unat (of_nat (lg_due l a) :: u128) = lg_due l a"
proof -
  have "lg_due l a \<le> 2 ^ 32 * lg_total l" using assms(1) by (rule due_le)
  with assms(2) show *: "lg_due l a < 2 ^ 128" by simp
  then show "unat (of_nat (lg_due l a) :: u128) = lg_due l a" by (simp add: unat_of_nat)
qed

section \<open>Distributing\<close>

lemma word_of_nat_unat: "unat w = n \<Longrightarrow> (w :: 'a::len word) = of_nat n"
  by auto

lemma unat_push_bit_32: "unat (x :: u128) < 2 ^ 95 \<Longrightarrow> unat (push_bit points_shift x) = unat x * 2 ^ 32"
  by (simp add: push_bit_eq_mult unat_word_ariths)

lemma fit_add_unat:
  fixes a b :: u128
  assumes "unat a + unat b < 2 ^ 128"
  shows "fit_add a b = Some (a + b)" and "unat (a + b) = unat a + unat b"
proof -
  show "unat (a + b) = unat a + unat b" using assms by (intro unat_add_lem [THEN iffD1]) simp
  then show "fit_add a b = Some (a + b)" by (simp add: fit_add_Some)
qed

lemma distribute_refines:
  assumes "represents (t, d) l" and "ledger_inv l" and "ledger_allowed (Share m) l"
    and "d_config d = Some c"
    and "q_balance Q (e_contract env) (dc_denom c) = Inr b"
    and "unat (c_amount b) = unat (dc_withdrawable_total c) + m"
  shows "\<exists>d'. distribute_rewards Q env (ucast t) d = Inr (d', mk_coin (of_nat m) (dc_denom c))
     \<and> represents (t, d') (ledger_step (Share m) l)"
proof -
  let ?n = "card (lg_voters l)" and ?u = "m * 2 ^ 32 + lg_rest l"
  from assms(1,4) have rep: "t = of_nat ?n"
    "\<And>a. claim_word c d (lg_voters l) a = of_nat (lg_due l a)"
    "\<And>a. unat (wa_withdrawn_funds (adjustment_of d a)) = lg_taken l a"
    "unat (dc_points_leftover c) = lg_rest l" "unat (dc_distributed_total c) = lg_total l"
    "unat (dc_withdrawable_total c) + taken_sum l = lg_total l"
    "unat (dc_points_per_points c) + lg_rest l \<le> 2 ^ 32 * lg_total l"
    by (auto elim!: representsE)
  from assms(2,3) have n: "0 < ?n" "?n < 2 ^ 64" and m: "0 < m" "lg_total l + m < 2 ^ 95"
    by (simp_all add: ledger_inv_def card_gt_0_iff)
  let ?N = "ucast t :: u128" and ?A = "c_amount b - dc_withdrawable_total c"
  have N: "unat ?N = ?n"
    using n by (simp add: rep(1) unat_ucast_up unat_of_nat)
  have A: "unat ?A = m" using assms(6) by (simp add: unat_sub word_le_nat_alt)
  have up: "unat (ucast (dc_points_leftover c) :: u128) = lg_rest l"
    by (simp add: unat_ucast_up rep(4))
  let ?P = "push_bit points_shift ?A + ucast (dc_points_leftover c) :: u128"
  have u_le: "?u + unat (dc_points_per_points c) \<le> 2 ^ 32 * (lg_total l + m)" using rep(7) by simp
  then have u_small: "?u < 2 ^ 127" using m by simp
  have P: "unat ?P = ?u"
  proof -
    have "unat (push_bit points_shift ?A) = m * 2 ^ 32"
      using A m by (subst unat_push_bit_32) simp_all
    then show ?thesis using up u_small fit_add_unat(2) [of "push_bit points_shift ?A"] by simp
  qed
  have Q: "unat (?P div ?N) = ?u div ?n" and R: "unat (?P mod ?N) = ?u mod ?n"
    by (simp_all add: unat_div unat_mod P N)
  have "?u mod ?n < ?n" using n(1) by (rule mod_less_divisor)
  then have lt: "?u mod ?n < 2 ^ 64" using n(2) by (rule less_trans)
  have R': "unat (ucast (?P mod ?N) :: u64) = ?u mod ?n"
    using R lt by (subst unat_ucast_fits) simp_all
  have qr: "?u div ?n + ?u mod ?n \<le> ?u"
  proof -
    have "?u div ?n * 1 \<le> ?u div ?n * ?n" using n by (intro mult_le_mono) simp_all
    then show ?thesis using div_mult_mod_eq [of ?u ?n] by linarith
  qed
  have ppp: "fit_add (dc_points_per_points c) (?P div ?N) = Some (dc_points_per_points c + ?P div ?N)"
    "unat (dc_points_per_points c + ?P div ?N) = unat (dc_points_per_points c) + ?u div ?n"
    using fit_add_unat [of "dc_points_per_points c" "?P div ?N"] Q qr u_le m by simp_all
  have tot: "fit_add (dc_distributed_total c) ?A = Some (dc_distributed_total c + ?A)"
    "unat (dc_distributed_total c + ?A) = lg_total l + m"
    using fit_add_unat [of "dc_distributed_total c" ?A] A m rep(5) by simp_all
  have wd: "fit_add (dc_withdrawable_total c) ?A = Some (dc_withdrawable_total c + ?A)"
    "unat (dc_withdrawable_total c + ?A) = unat (dc_withdrawable_total c) + m"
    using fit_add_unat [of "dc_withdrawable_total c" ?A] A m rep(6) by simp_all
  define c' where "c' = c\<lparr>dc_points_per_points := dc_points_per_points c + ?P div ?N,
    dc_points_leftover := ucast (?P mod ?N), dc_distributed_total := dc_distributed_total c + ?A,
    dc_withdrawable_total := dc_withdrawable_total c + ?A\<rparr>"
  define d' where "d' = d\<lparr>d_config := Some c'\<rparr>"
  have "?N \<noteq> 0" using N n by (metis unat_0 less_irrefl)
  moreover have "?A \<noteq> 0" using A m by (metis unat_0 less_irrefl)
  ultimately have run: "distribute_rewards Q env ?N d = Inr (d', mk_coin ?A (dc_denom c))"
    by (simp add: distribute_rewards_def assms(4,5) Let_def ppp(1) tot(1) wd(1) d'_def c'_def)
  let ?l = "ledger_step (Share m) l"
  have same: "adjustment_of d' a = adjustment_of d a" for a by (simp add: adjustment_of_def d'_def)
  have new: "lg_voters ?l = lg_voters l" "lg_rest ?l = ?u mod ?n" "lg_total ?l = lg_total l + m"
    "lg_taken ?l = lg_taken l" "taken_sum ?l = taken_sum l"
    by (simp_all add: Let_def taken_sum_def)
  have due: "lg_due ?l a = lg_due l a + (if a \<in> lg_voters l then ?u div ?n else 0)" for a
    by (simp add: Let_def)
  have claim: "claim_word c' d' (lg_voters l) a = of_nat (lg_due ?l a)" for a
  proof -
    have "claim_word c' d' (lg_voters l) a = claim_word c d (lg_voters l) a + (if a \<in> lg_voters l then ?P div ?N else 0)"
      by (simp add: claim_word_def same c'_def algebra_simps)
    also have "?P div ?N = of_nat (?u div ?n)" using Q by (rule word_of_nat_unat)
    finally show ?thesis unfolding rep(2) due by simp
  qed
  have "represents (t, d') ?l"
    unfolding represents_def new
    using rep(1) claim rep(3) same R' tot(2) m(2) wd(2) rep(6) ppp(2) qr u_le
    by (auto simp: d'_def [symmetric] c'_def [symmetric]) (auto simp: d'_def c'_def)
  moreover have "?A = of_nat m" using A by (rule word_of_nat_unat)
  ultimately show ?thesis using run by auto
qed

section \<open>Withdrawing\<close>

lemma unat_drop_bit_div: "unat (drop_bit n (w :: 'a::len word)) = unat w div 2 ^ n"
  by (subst unsigned_drop_bit_eq) (simp add: drop_bit_eq_div take_bit_nat_eq_self)

text \<open>The amount shown to an address is what is due to it and not yet taken.\<close>

lemma withdrawable_due:
  assumes "represents (t, d) l" and "ledger_inv l" and "d_config d = Some c"
  shows "withdrawable_rewards (if a \<in> lg_voters l then 1 else 0) c (adjustment_of d a)
    = mk_coin (of_nat (lg_due l a div 2 ^ 32 - lg_taken l a)) (dc_denom c)"
proof -
  from assms(1,3) have rep: "claim_word c d (lg_voters l) a = of_nat (lg_due l a)"
    "unat (wa_withdrawn_funds (adjustment_of d a)) = lg_taken l a" "lg_total l < 2 ^ 95"
    by (auto elim!: representsE)
  let ?x = "drop_bit points_shift (of_nat (lg_due l a)) :: u128"
  have x: "unat ?x = lg_due l a div 2 ^ 32"
    by (simp only: unat_drop_bit_div due_fits(2) [OF assms(2) rep(3)])
  have le: "lg_taken l a \<le> lg_due l a div 2 ^ 32" using assms(2) by (simp add: ledger_inv_def)
  then have "wa_withdrawn_funds (adjustment_of d a) \<le> ?x" by (simp only: word_le_nat_alt x rep(2))
  then have "unat (?x - wa_withdrawn_funds (adjustment_of d a)) = lg_due l a div 2 ^ 32 - lg_taken l a"
    by (simp only: unat_sub x rep(2))
  then have "?x - wa_withdrawn_funds (adjustment_of d a) = of_nat (lg_due l a div 2 ^ 32 - lg_taken l a)"
    by (rule word_of_nat_unat)
  moreover have "withdrawable_rewards (if a \<in> lg_voters l then 1 else 0) c (adjustment_of d a)
      = mk_coin (drop_bit points_shift (claim_word c d (lg_voters l) a)
          - wa_withdrawn_funds (adjustment_of d a)) (dc_denom c)"
    by (simp only: withdrawable_rewards_def claim_word_def Let_def)
  ultimately show ?thesis by (simp only: rep(1))
qed

lemma withdraw_refines:
  assumes "represents (t, d) l" and "ledger_inv l" and "a \<in> lg_voters l" and "d_config d = Some c"
  shows "\<exists>d'. withdraw_rewards a 1 d
      = Inr (d', mk_coin (of_nat (lg_due l a div 2 ^ 32 - lg_taken l a)) (dc_denom c))
     \<and> represents (t, d') (ledger_step (Take a) l)"
proof -
  let ?x = "lg_due l a div 2 ^ 32 - lg_taken l a" and ?adj = "adjustment_of d a"
  from assms(1,4) have rep: "t = of_nat (card (lg_voters l))"
    "\<And>a. claim_word c d (lg_voters l) a = of_nat (lg_due l a)"
    "\<And>a. unat (wa_withdrawn_funds (adjustment_of d a)) = lg_taken l a"
    "unat (dc_points_leftover c) = lg_rest l" "unat (dc_distributed_total c) = lg_total l"
    "lg_total l < 2 ^ 95" "unat (dc_withdrawable_total c) + taken_sum l = lg_total l"
    "unat (dc_points_per_points c) + lg_rest l \<le> 2 ^ 32 * lg_total l"
    by (auto elim!: representsE)
  have le: "lg_taken l a \<le> lg_due l a div 2 ^ 32" using assms(2) by (simp add: ledger_inv_def)
  have cover: "taken_sum l + ?x \<le> lg_total l" using assms(2) by (rule claims_covered)
  have "?x < 2 ^ 95" using cover rep(6) by linarith
  then have x: "unat (of_nat ?x :: u128) = ?x" by (simp add: unat_of_nat)
  have token: "withdrawable_rewards 1 c ?adj = mk_coin (of_nat ?x) (dc_denom c)"
    using withdrawable_due [OF assms(1,2,4), of a] assms(3) by simp
  have step_taken: "taken_sum (ledger_step (Take a) l) = taken_sum l + ?x"
    using assms(2) by (rule take_sum)
  show ?thesis
  proof (cases "?x = 0")
    case True
    then have "lg_taken l a = lg_due l a div 2 ^ 32" using le by simp
    then have "ledger_step (Take a) l = l" by (simp add: fun_upd_idem)
    moreover have "withdraw_rewards a 1 d = Inr (d, mk_coin 0 (dc_denom c))"
      using token True by (simp add: withdraw_rewards_def assms(4))
    ultimately show ?thesis using assms(1) True by auto
  next
    case False
    let ?w = "of_nat ?x :: u128"
    have "?w \<noteq> 0" using False x by (metis unat_0)
    have "lg_due l a div 2 ^ 32 \<le> lg_total l"
      using due_le [OF assms(2), of a] by (simp add: div_le_mono [of _ "2 ^ 32 * lg_total l" "2 ^ 32", simplified])
    then have "lg_taken l a + ?x < 2 ^ 128" using le rep(6) by simp
    then have taken: "fit_add (wa_withdrawn_funds ?adj) ?w = Some (wa_withdrawn_funds ?adj + ?w)"
      "unat (wa_withdrawn_funds ?adj + ?w) = lg_due l a div 2 ^ 32"
      using fit_add_unat [of "wa_withdrawn_funds ?adj" ?w] rep(3) [of a] x le by simp_all
    have w_le: "?w \<le> dc_withdrawable_total c"
      using cover rep(7) x by (simp add: word_le_nat_alt)
    then have pool: "fit_sub (dc_withdrawable_total c) ?w = Some (dc_withdrawable_total c - ?w)"
      by (simp add: fit_sub_def)
    have pool': "unat (dc_withdrawable_total c - ?w) = unat (dc_withdrawable_total c) - ?x"
      using w_le x by (simp only: unat_sub)
    define c' where "c' = c\<lparr>dc_withdrawable_total := dc_withdrawable_total c - ?w\<rparr>"
    define d' where "d' = d\<lparr>d_config := Some c',
      d_adjustment := sput a (?adj\<lparr>wa_withdrawn_funds := wa_withdrawn_funds ?adj + ?w\<rparr>) (d_adjustment d)\<rparr>"
    have run: "withdraw_rewards a 1 d = Inr (d', mk_coin ?w (dc_denom c))"
      unfolding withdraw_rewards_def assms(4) opt_results(4) bindE.simps Let_def token mk_coin_simps
        taken(1) pool opt_results(5) d'_def c'_def
      using \<open>?w \<noteq> 0\<close> by (simp only: if_False)
    have adj: "adjustment_of d' b = (if b = a then ?adj\<lparr>wa_withdrawn_funds := wa_withdrawn_funds ?adj + ?w\<rparr>
        else adjustment_of d b)" for b
      by (simp add: adjustment_of_def d'_def)
    have claim: "claim_word c' d' (lg_voters l) b = of_nat (lg_due l b)" for b
      unfolding rep(2) [symmetric] by (simp add: claim_word_def adj c'_def)
    have new: "lg_voters (ledger_step (Take a) l) = lg_voters l" "lg_due (ledger_step (Take a) l) = lg_due l"
      "lg_rest (ledger_step (Take a) l) = lg_rest l" "lg_total (ledger_step (Take a) l) = lg_total l"
      "lg_taken (ledger_step (Take a) l) = (lg_taken l)(a := lg_due l a div 2 ^ 32)"
      by simp_all
    have balance: "unat (dc_withdrawable_total c - ?w) + (taken_sum l + ?x) = lg_total l"
      using pool' cover rep(7) by linarith
    have conf: "d_config d' = Some c'" by (simp add: d'_def)
    have fields: "dc_points_leftover c' = dc_points_leftover c" "dc_distributed_total c' = dc_distributed_total c"
      "dc_withdrawable_total c' = dc_withdrawable_total c - ?w" "dc_points_per_points c' = dc_points_per_points c"
      by (simp_all add: c'_def)
    have withdrawn: "unat (wa_withdrawn_funds (adjustment_of d' b)) = ((lg_taken l)(a := lg_due l a div 2 ^ 32)) b" for b
      using taken(2) rep(3) by (simp add: adj)
    have "represents (t, d') (ledger_step (Take a) l)"
      unfolding represents_def new step_taken
      using conf rep(1) claim withdrawn rep(4-6,8) balance fields by auto
    then show ?thesis using run by blast
  qed
qed

section \<open>A distribution by the contract\<close>

text \<open>
  A distribution, at the entry point of the contract, is a step of the abstract ledger: all that
  has come in, \<open>m\<close> coins, is shared among the voters.
\<close>

lemma circle_distributes:
  assumes "represents (t, s_dist s) l" and "s_total s = Some t" and "ledger_inv l"
    and "ledger_allowed (Share m) l" and "d_config (s_dist s) = Some dc"
    and "q_balance Q (e_contract env) (dc_denom dc) = Inr b"
    and "unat (c_amount b) = unat (dc_withdrawable_total dc) + m"
  shows "\<exists>d' r. execute L Q env info DistributeRewards s = Inr (s\<lparr>s_dist := d'\<rparr>, r) \<and> r_messages r = []
     \<and> represents (t, d') (ledger_step (Share m) l)
     \<and> (\<forall>v \<in> lg_voters l. \<exists>d''. withdraw_rewards v 1 d'
          = Inr (d'', mk_coin (of_nat (lg_due (ledger_step (Share m) l) v div 2 ^ 32 - lg_taken l v)) (dc_denom dc)))"
proof -
  obtain d' where run: "distribute_rewards Q env (ucast t) (s_dist s) = Inr (d', mk_coin (of_nat m) (dc_denom dc))"
    and rep: "represents (t, d') (ledger_step (Share m) l)"
    using distribute_refines [OF assms(1,3-7)] by blast
  have inv: "ledger_inv (ledger_step (Share m) l)" using assms(3,4) by (rule ledger_step_inv)
  from rep obtain dc' where dc': "d_config d' = Some dc'" by (rule representsE)
  have denom: "dc_denom dc' = dc_denom dc"
    using run dc' assms(5) by (auto simp: distribute_rewards_def Let_def split: if_splits)
  have "\<exists>d''. withdraw_rewards v 1 d'
      = Inr (d'', mk_coin (of_nat (lg_due (ledger_step (Share m) l) v div 2 ^ 32 - lg_taken l v)) (dc_denom dc))"
    if "v \<in> lg_voters l" for v
    using withdraw_refines [OF rep inv _ dc', of v] that denom by (auto simp: Let_def)
  with run rep assms(2) show ?thesis
    by (auto simp: execute_def execute_distribute_funds_def)
qed

section \<open>Joining and leaving\<close>

lemma correct_refines:
  assumes "represents (t, d) l" and "diff = 1 \<and> a \<notin> lg_voters l \<and> op = Join a \<or> diff = - 1 \<and> a \<in> lg_voters l \<and> op = Leave a"
    and "finite (lg_voters l)" and "t' = (if op = Join a then t + 1 else t - 1)"
  shows "\<exists>d'. apply_points_correction [(a, diff)] d = Inr d' \<and> represents (t', d') (ledger_step op l)"
proof -
  from assms(1) obtain c where c: "d_config d = Some c" and rep: "t = of_nat (card (lg_voters l))"
    "\<And>a. claim_word c d (lg_voters l) a = of_nat (lg_due l a)"
    "\<And>a. unat (wa_withdrawn_funds (adjustment_of d a)) = lg_taken l a"
    "unat (dc_points_leftover c) = lg_rest l" "unat (dc_distributed_total c) = lg_total l"
    "lg_total l < 2 ^ 95" "unat (dc_withdrawable_total c) + taken_sum l = lg_total l"
    "unat (dc_points_per_points c) + lg_rest l \<le> 2 ^ 32 * lg_total l"
    by (rule representsE) blast
  let ?adj = "adjustment_of d a"
  define d' where "d' = d\<lparr>d_adjustment := sput a
    (?adj\<lparr>wa_points_correction := wa_points_correction ?adj - dc_points_per_points c * diff\<rparr>) (d_adjustment d)\<rparr>"
  have run: "apply_points_correction [(a, diff)] d = Inr d'"
    by (simp add: apply_points_correction_def c correct_points_def Let_def d'_def)
  have adj: "adjustment_of d' b = (if b = a
      then ?adj\<lparr>wa_points_correction := wa_points_correction ?adj - dc_points_per_points c * diff\<rparr>
      else adjustment_of d b)" for b
    by (simp add: adjustment_of_def d'_def)
  have new: "lg_due (ledger_step op l) = lg_due l" "lg_taken (ledger_step op l) = lg_taken l"
    "lg_rest (ledger_step op l) = lg_rest l" "lg_total (ledger_step op l) = lg_total l"
    "taken_sum (ledger_step op l) = taken_sum l"
    using assms(2) by (auto simp: taken_sum_def)
  have claim: "claim_word c d' (lg_voters (ledger_step op l)) b = of_nat (lg_due l b)" for b
    unfolding rep(2) [symmetric] using assms(2) by (auto simp: claim_word_def adj algebra_simps)
  have card: "t' = of_nat (card (lg_voters (ledger_step op l)))"
  proof (cases "op = Join a")
    case True
    with assms(2-4) rep(1) show ?thesis by auto
  next
    case False
    with assms(2) have "a \<in> lg_voters l" "op = Leave a" "diff = - 1" by auto
    then have "card (lg_voters l) = Suc (card (lg_voters l - {a}))"
      using assms(3) by (metis card_Suc_Diff1)
    then have "t = of_nat (card (lg_voters l - {a})) + 1" using rep(1) by simp
    with \<open>op = Leave a\<close> assms(4) show ?thesis by simp
  qed
  have conf: "d_config d' = Some c" using c by (simp add: d'_def)
  have withdrawn: "unat (wa_withdrawn_funds (adjustment_of d' b)) = lg_taken l b" for b
    using rep(3) by (simp add: adj)
  have "represents (t', d') (ledger_step op l)"
    unfolding represents_def new prod.case
    by (intro exI [of _ c] conjI allI conf card claim withdrawn rep(4-8))
  with run show ?thesis by blast
qed

section \<open>The implementation\<close>

text \<open>
  The ledger driven as the contract drives it: \<open>TOTAL\<close> next to the distribution, one correction
  per join or leave, and a balance that exceeds the withdrawable total by the new rewards.
\<close>

definition paying_querier :: "u128 \<Rightarrow> querier" where
  "paying_querier n = \<lparr>q_contract_info = (\<lambda>_. SystemErr NoSuchContract), q_wasm_raw = (\<lambda>_ _. Inr None),
     q_balance = (\<lambda>_ d. Inr (mk_coin n d))\<rparr>"

definition reward_step :: "env \<Rightarrow> ledger_op \<Rightarrow> u64 \<times> distribution \<Rightarrow> tc_error + (u64 \<times> distribution)" where
  "reward_step env op td = (case td of (t, d) \<Rightarrow> case op of
       Share m \<Rightarrow> bindE (load (d_config d)) (\<lambda>c.
         bindE (distribute_rewards (paying_querier (dc_withdrawable_total c + of_nat m)) env (ucast t) d)
           (\<lambda>(d, _). Inr (t, d)))
     | Take a \<Rightarrow> bindE (withdraw_rewards a 1 d) (\<lambda>(d, _). Inr (t, d))
     | Join a \<Rightarrow> bindE (apply_points_correction [(a, 1)] d) (\<lambda>d. Inr (t + 1, d))
     | Leave a \<Rightarrow> bindE (apply_points_correction [(a, - 1)] d) (\<lambda>d. Inr (t - 1, d)))"

lemma reward_step_sim:
  assumes "represents td l" and "ledger_inv l" and "ledger_allowed op l"
  shows "\<exists>td'. reward_step env op td = Inr td' \<and> represents td' (ledger_step op l)"
proof -
  obtain t d where td: "td = (t, d)" by (cases td)
  with assms(1) have rep: "represents (t, d) l" by simp
  then obtain c where c: "d_config d = Some c" and wd: "unat (dc_withdrawable_total c) + taken_sum l = lg_total l"
    by (auto elim: representsE)
  have fin: "finite (lg_voters l)" using assms(2) by (simp add: ledger_inv_def)
  show ?thesis
  proof (cases op)
    case (Share m)
    with assms(3) have "lg_total l + m < 2 ^ 95" by simp
    then have m: "unat (dc_withdrawable_total c) + m < 2 ^ 128" "unat (of_nat m :: u128) = m"
      using wd by (simp_all add: unat_of_nat)
    then have bal: "unat (dc_withdrawable_total c + of_nat m) = unat (dc_withdrawable_total c) + m"
      using fit_add_unat(2) [of "dc_withdrawable_total c" "of_nat m"] by simp
    have "\<exists>d'. distribute_rewards (paying_querier (dc_withdrawable_total c + of_nat m)) env (ucast t) d
        = Inr (d', mk_coin (of_nat m) (dc_denom c)) \<and> represents (t, d') (ledger_step op l)"
      unfolding Share
      by (rule distribute_refines [OF rep assms(2) _ c, where b = "mk_coin (dc_withdrawable_total c + of_nat m) (dc_denom c)"])
         (use assms(3) Share bal in \<open>simp_all add: paying_querier_def\<close>)
    then show ?thesis unfolding td by (auto simp: reward_step_def c Share)
  next
    case (Take a)
    with assms(3) have "a \<in> lg_voters l" by simp
    from withdraw_refines [OF rep assms(2) this c] Take show ?thesis
      unfolding td by (auto simp: reward_step_def)
  next
    case (Join a)
    then show ?thesis
      using correct_refines [OF rep _ fin, of 1 a op "t + 1"] assms(3)
      unfolding td by (auto simp: reward_step_def)
  next
    case (Leave a)
    then show ?thesis
      using correct_refines [OF rep _ fin, of "- 1" a op "t - 1"] assms(3)
      unfolding td by (auto simp: reward_step_def)
  qed
qed

interpretation tcl: ledger_impl represents "reward_step env" for env
  by unfold_locales (rule reward_step_sim)

lemma represents_start:
  "finite V \<Longrightarrow> represents (of_nat (card V), dist_init denom \<lparr>d_config = None, d_adjustment = []\<rparr>) (ledger_start V)"
  by (simp add: represents_def ledger_start_def dist_init_def claim_word_def adjustment_of_def
      empty_adjustment_def taken_sum_def)

end
