(* ===== verification/TC_Accounts.thy ===== *)
theory TC_Accounts
  imports TC_Examples TC_Escrow TC_Rewards
begin

text \<open>
  The properties of the trusted circle that are about money and the standing of members: the
  escrow account balances, members move along their life cycle only, rewards are shared and paid
  out exactly; one path on which they are not, and one on which the escrow is not kept.
\<close>

section \<open>Escrow\<close>

text \<open>
  C3. The escrow account balances to the last unit. Over any run of successful calls, what the
  escrow entries hold plus what was sent or burned from escrow (refunds, slashed escrow, shares of
  a distribution) is what the founder paid plus what was deposited. The vectors of receivers in
  proposals are those that fit into the memory of the contract.
\<close>

theorem escrow_conserved:
  assumes "instantiate L Q env info msg empty_state = Inr (s0, r0)"
    and "escrow_run L calls s0 = Inr (s, paid_in, paid_out)"
    and "decimal_law L" and "payment_law L"
    and "\<And>Q env info msg. (Q, env, info, msg) \<in> set calls \<Longrightarrow> msg_fits msg"
  shows "escrow_sum (s_escrows s) + paid_out = coins_amount (i_funds info) + paid_in"
proof -
  have "escrow_sum (s_escrows s0) = coins_amount (i_funds info)" "contents_fit s0"
    using instantiate_sum [OF assms(1,4)] by simp_all
  moreover have "tc_reachable L s0" using assms(1) by (rule tc_start)
  ultimately show ?thesis using escrow_run_balance [OF assms(2) _ _ assms(3,4,5)] by simp
qed

lemma ex_escrow_run:
  "escrow_run std_lib (map (\<lambda>(env, info, msg). (ex_querier, env, info, msg)) ex_calls) ex_founded
   = Inr (ex_voters, 1000000, 0)"
  by (simp add: ex_voters_def ex_calls_def ex_founded ex_circle_def ex_dist_def deposited_def coins_amount_def
      call_defs eval_defs cong: if_weak_cong)

lemma escrow_conserved_witness:
  "escrow_sum (s_escrows ex_voters) + 0 = coins_amount [mk_coin 1000000 ''utgd''] + 1000000"
proof -
  obtain r where "instantiate std_lib ex_querier (ex_env 10 1000) (ex_pay ''a'' 1000000) ex_init empty_state
      = Inr (ex_founded, r)" using ex_instantiate by blast
  from escrow_conserved [OF this ex_escrow_run] show ?thesis
    by (auto simp: ex_calls_def msg_fits_def ex_pay_def)
qed

text \<open>
  A punishment pays out exactly. Whatever share of the escrow is slashed, what is sent to the
  receivers or burned plus what stays with the member is what the member had paid; the remainder
  of the division among the receivers stays with the member.
\<close>

theorem slash_pays_exactly:
  assumes "slash_payout p d slashed (paid - slashed) = Inr (msgs, left)" and "slashed \<le> paid"
    and "receivers_fit p"
  shows "unat left + sent msgs = unat paid \<and> unat paid - unat slashed \<le> unat left"
proof -
  have sum: "unat left + sent msgs = unat paid" using assms by (rule slash_payout_exact)
  have "sent msgs \<le> unat slashed"
  proof (cases "slashed = 0")
    case True
    then show ?thesis using assms(1) by (simp add: slash_payout_def)
  next
    case False
    show ?thesis
    proof (cases p)
      case (BurnEscrow m x k)
      with assms(1) False show ?thesis by (auto simp: slash_payout_def word_gt_0)
    next
      case (DistributeEscrow m x ds k)
      let ?n = "of_nat (length ds) :: u128"
      have n: "unat ?n = length ds"
        using assms(3) DistributeEscrow by (simp add: receivers_fit_def unat_of_nat)
      have "sent msgs = length ds * unat (slashed div ?n)"
        using assms(1) False DistributeEscrow
        by (auto simp: slash_payout_def Let_def word_gt_0 sent_each split: if_splits)
      also have "\<dots> \<le> unat slashed" by (simp add: unat_div n)
      finally show ?thesis .
    qed
  qed
  with sum show ?thesis by linarith
qed

lemma slash_pays_exactly_witness:
  "\<exists>msgs left. slash_payout (DistributeEscrow ''m'' 0 [''a'', ''b'', ''c''] False) ''utgd'' 10 (25 - 10) = Inr (msgs, left)
     \<and> unat left + sent msgs = 25"
proof -
  let ?p = "DistributeEscrow ''m'' 0 [''a'', ''b'', ''c''] False"
  obtain msgs left where pay: "slash_payout ?p ''utgd'' 10 (25 - 10) = Inr (msgs, left)"
    by (simp add: slash_payout_def Let_def)
  then have "unat left + sent msgs = unat (25 :: u128)"
    using slash_pays_exactly [of ?p "''utgd''" 10 25] by (simp add: receivers_fit_def)
  with pay show ?thesis by auto
qed

section \<open>Members\<close>







text \<open>
  C24. Voters have paid. In every reachable state a voting member, and one waiting for the batch with
  the escrow paid, holds at least one TGD of escrow, and a non-voting member none.
\<close>

theorem voters_have_paid:
  assumes "tc_reachable L s" and "decimal_law L" and "sget (s_escrows s) a = Some e"
  shows "(es_status e = NonVoting \<longrightarrow> es_paid e = 0)
     \<and> (es_status e = Voting \<or> is_pending_paid (es_status e) \<longrightarrow> 1000000 \<le> es_paid e)"
  using reachable_paid [OF assms(1,2)] assms(3)
  by (auto simp: paid_inv_def entry_ok_def is_pending_paid_iff)

lemma voters_have_paid_witness: "(1000000 :: u128) \<le> 1000000 \<and> es_paid escrow_non_voting = 0"
  using voters_have_paid [OF ex_voters_reachable std_decimal_law, of "''c''"]
    voters_have_paid [OF ex_voters_reachable std_decimal_law, of "''b''"]
  by (simp add: ex_voters sget_def escrow_non_voting_def)

text \<open>The events of added and removed non-voting members that are returned are those without a member.\<close>

lemma member_events_are_empty:
  "add_remove_non_voting_members L Q tc h as rs s = Inr (s', ev) \<Longrightarrow> \<forall>e \<in> set ev. ev_attrs e = []"
  by (auto simp: add_remove_non_voting_members_def Let_def split: if_splits)

section \<open>Rewards\<close>





text \<open>
  C13. With one denomination the escrow is shared out as rewards. When rewards are paid in the
  denomination of the escrow and the contract holds just the escrow and what can be withdrawn, a
  distribution that anybody may ask for succeeds and shares the whole escrow among the voters, who
  can withdraw it, while every entry stays as it was: the contract then owes more than it holds,
  by all of the escrow.
\<close>

theorem escrow_shared_as_rewards:
  assumes "s_circle s = Some tc" and "s_total s = Some t" and "represents (t, s_dist s) l" and "ledger_inv l"
    and "lg_voters l \<noteq> {}" and "card (lg_voters l) < 2 ^ 64"
    and "d_config (s_dist s) = Some dc" and "dc_denom dc = tc_denom tc"
    and "q_balance Q (e_contract env) (tc_denom tc) = Inr b"
    and "unat (c_amount b) = escrow_sum (s_escrows s) + unat (dc_withdrawable_total dc)"
    and "0 < escrow_sum (s_escrows s)" and "lg_total l + escrow_sum (s_escrows s) < 2 ^ 95"
  shows "\<exists>d' dc' r. execute L Q env info DistributeRewards s = Inr (s\<lparr>s_dist := d'\<rparr>, r)
     \<and> represents (t, d') (ledger_step (Share (escrow_sum (s_escrows s))) l) \<and> d_config d' = Some dc'
     \<and> escrow_sum (s_escrows (s\<lparr>s_dist := d'\<rparr>)) + unat (dc_withdrawable_total dc') = unat (c_amount b) + escrow_sum (s_escrows s)
     \<and> (\<forall>v \<in> lg_voters l. \<exists>d''. withdraw_rewards v 1 d' = Inr (d'', mk_coin
          (of_nat (lg_due (ledger_step (Share (escrow_sum (s_escrows s))) l) v div 2 ^ 32 - lg_taken l v)) (tc_denom tc)))"
proof -
  let ?m = "escrow_sum (s_escrows s)"
  have allowed: "ledger_allowed (Share ?m) l" using assms(5,6,11,12) by simp
  have denom: "q_balance Q (e_contract env) (dc_denom dc) = Inr b" using assms(8,9) by simp
  obtain d' r where run: "execute L Q env info DistributeRewards s = Inr (s\<lparr>s_dist := d'\<rparr>, r)"
    and rep: "represents (t, d') (ledger_step (Share ?m) l)"
    and pay: "\<forall>v \<in> lg_voters l. \<exists>d''. withdraw_rewards v 1 d'
      = Inr (d'', mk_coin (of_nat (lg_due (ledger_step (Share ?m) l) v div 2 ^ 32 - lg_taken l v)) (dc_denom dc))"
    using circle_distributes [OF assms(3,2,4) allowed assms(7) denom] assms(10) by (metis add.commute)
  obtain dc' where dc': "d_config d' = Some dc'"
    "unat (dc_withdrawable_total dc') + taken_sum (ledger_step (Share ?m) l) = lg_total (ledger_step (Share ?m) l)"
    using rep by (rule representsE)
  moreover have "taken_sum (ledger_step (Share ?m) l) = taken_sum l" "lg_total (ledger_step (Share ?m) l) = lg_total l + ?m"
    by (simp_all add: Let_def taken_sum_def)
  moreover have "unat (dc_withdrawable_total dc) + taken_sum l = lg_total l"
    using assms(3,7) by (auto elim!: representsE)
  ultimately have "?m + unat (dc_withdrawable_total dc') = unat (c_amount b) + ?m" using assms(10) by linarith
  with run rep pay dc'(1) assms(8) show ?thesis by auto
qed

text \<open>Two voters with an escrow of a million each: each can withdraw a million, and is still owed the escrow.\<close>

lemma ex_voters_books: "represents (2, s_dist ex_voters) (ledger_start {''a'', ''c''})"
proof -
  have "adjustment_of (s_dist ex_voters) v = empty_adjustment" for v
    by (simp add: ex_voters adjustment_of_def sget_def)
  then show ?thesis
    by (simp add: represents_def ledger_start_def claim_word_def taken_sum_def empty_adjustment_def)
       (simp add: ex_voters ex_dist_def)
qed

lemma escrow_shared_as_rewards_witness:
  "\<exists>d' r d''. execute std_lib (paying_querier 2000000) (ex_env 30 90000) (ex_call ''anybody'') DistributeRewards ex_voters
       = Inr (ex_voters\<lparr>s_dist := d'\<rparr>, r)
     \<and> withdraw_rewards ''c'' 1 d' = Inr (d'', mk_coin 1000000 ''utgd'')"
proof -
  let ?l = "ledger_start {''a'', ''c''}"
  have books: "s_circle ex_voters = Some ex_circle" "s_total ex_voters = Some 2" "d_config (s_dist ex_voters) = Some ex_dist"
    "dc_denom ex_dist = tc_denom ex_circle" "tc_denom ex_circle = ''utgd''" "dc_withdrawable_total ex_dist = 0"
    "escrow_sum (s_escrows ex_voters) = 2000000"
    by (simp_all add: ex_voters ex_dist_def ex_circle_def escrow_sum_def)
  have l: "lg_total ?l = 0" "card (lg_voters ?l) = 2" "lg_voters ?l = {''a'', ''c''}" "ledger_inv ?l"
    by (simp_all add: ledger_start_inv) (simp_all add: ledger_start_def)
  have due: "lg_due (ledger_step (Share 2000000) ?l) ''c'' div 2 ^ 32 - lg_taken ?l ''c'' = 1000000"
    by (simp add: ledger_start_def flip: numeral_2_eq_2)
  have bal: "q_balance (paying_querier 2000000) (e_contract (ex_env 30 90000)) (tc_denom ex_circle)
      = Inr (mk_coin 2000000 ''utgd'')"
    by (simp add: paying_querier_def books)
  have "\<exists>d' r. execute std_lib (paying_querier 2000000) (ex_env 30 90000) (ex_call ''anybody'') DistributeRewards ex_voters
        = Inr (ex_voters\<lparr>s_dist := d'\<rparr>, r)
     \<and> (\<forall>v \<in> {''a'', ''c''}. \<exists>d''. withdraw_rewards v 1 d' = Inr (d'', mk_coin
          (of_nat (lg_due (ledger_step (Share 2000000) ?l) v div 2 ^ 32 - lg_taken ?l v)) ''utgd''))"
    using escrow_shared_as_rewards [OF books(1,2) ex_voters_books l(4) _ _ books(3,4) bal, of std_lib "ex_call ''anybody''"]
    unfolding books l by (simp del: ledger_step.simps) blast
  then show ?thesis using due by (fastforce simp del: ledger_step.simps)
qed

end
