(* ===== verification/TC_Tally.thy ===== *)
theory TC_Tally
  imports TC_Voting TC_Membership
begin

text \<open>
  The book-keeping of proposals and ballots: the votes stored with a proposal are the ballots
  cast on it, one per member and of one point each; a proposal's terms never change, and its
  status moves only forward. Proposal numbers are 64-bit and wrap, so these hold for runs of
  fewer than \<open>2^64\<close> calls (\<open>tc_after\<close>), in blocks whose time, in nanoseconds, is below \<open>2^63\<close>
  (the year 2262), so that adding a voting period does not overflow.
\<close>

section \<open>Runs\<close>

definition clock_ok :: "env \<Rightarrow> bool" where
  "clock_ok env \<longleftrightarrow> b_time (e_block env) < 9223372036854775808"

inductive tc_after :: "cw_lib \<Rightarrow> nat \<Rightarrow> tc_state \<Rightarrow> bool" for L :: cw_lib where
  after_start: "instantiate L Q env info msg empty_state = Inr (s, r) \<Longrightarrow> tc_after L 0 s"
| after_call: "tc_after L n s \<Longrightarrow> clock_ok env \<Longrightarrow> execute L Q env info msg s = Inr (s', r) \<Longrightarrow>
    tc_after L (Suc n) s'"

lemma tc_after_reachable: "tc_after L n s \<Longrightarrow> tc_reachable L s"
  by (induction rule: tc_after.induct) (auto intro: tc_start tc_next tc_call)

section \<open>Counting ballots\<close>

definition kind_points :: "u64 \<Rightarrow> vote \<Rightarrow> ballots \<Rightarrow> u64" where
  "kind_points i v bs = tally (\<lambda>(j, _) b. if j = i \<and> bl_vote b = v then bl_points b else 0) bs"

lemma kind_points_put:
  assumes "sorted_store bs" and "sget bs (j, a) = None"
  shows "kind_points i v (sput (j, a) b bs)
    = kind_points i v bs + (if j = i \<and> bl_vote b = v then bl_points b else 0)"
  using kv.tally_put [OF assms(1), of "\<lambda>(j, _) b. if j = i \<and> bl_vote b = v then bl_points b else (0 :: u64)" "(j, a)" b]
    assms(2) by (simp add: kind_points_def)

lemma kind_points_none:
  assumes "sorted_store bs" and "\<And>a. sget bs (i, a) = None"
  shows "kind_points i v bs = 0"
proof -
  have "kind_points i v bs = tally (\<lambda>_ _. 0 :: u64) bs"
    unfolding kind_points_def using assms
    by (intro tally_cong) (auto simp: kv.entries_get [OF assms(1)] split: if_splits)
  moreover have "tally (\<lambda>_ _. 0 :: u64) xs = 0" for xs :: ballots
    by (induction xs) auto
  ultimately show ?thesis by simp
qed

lemma kind_points_card:
  assumes "sorted_store bs" and "\<And>a b. sget bs (i, a) = Some b \<Longrightarrow> bl_points b = 1"
  shows "kind_points i v bs = of_nat (card {a. \<exists>b. sget bs (i, a) = Some b \<and> bl_vote b = v})"
proof -
  let ?D = "dom (sget bs)" and ?P = "\<lambda>k. fst k = i \<and> bl_vote (the (sget bs k)) = v"
  let ?A = "{a. \<exists>b. sget bs (i, a) = Some b \<and> bl_vote b = v}"
  have "kind_points i v bs = (\<Sum>k \<in> ?D. if ?P k then 1 else 0)"
    unfolding kind_points_def kv.tally_as_sum [OF assms(1)]
    by (intro sum.cong) (use assms(2) in \<open>auto split: prod.splits\<close>)
  also have "\<dots> = (\<Sum>k \<in> {k \<in> ?D. ?P k}. 1)"
    by (rule sum.inter_filter [symmetric]) (rule kv.finite_dom [OF assms(1)])
  also have "\<dots> = of_nat (card {k \<in> ?D. ?P k})" by simp
  also have "card {k \<in> ?D. ?P k} = card ?A"
    by (rule bij_betw_same_card [of snd])
       (auto simp: bij_betw_def inj_on_def image_iff)
  finally show ?thesis .
qed

definition votes_match :: "ballots \<Rightarrow> u64 \<Rightarrow> votes \<Rightarrow> bool" where
  "votes_match bs i v \<longleftrightarrow> v = \<lparr>v_yes = kind_points i VYes bs, v_no = kind_points i VNo bs,
     v_abstain = kind_points i VAbstain bs, v_veto = kind_points i VVeto bs\<rparr>"

lemma votes_match_add:
  assumes "sorted_store bs" and "sget bs (i, a) = None" and "votes_match bs i v"
    and "bl_vote b = x" and "bl_points b = p"
  shows "votes_match (sput (i, a) b bs) i (add_vote x p v)"
  using assms by (cases x) (auto simp: votes_match_def kind_points_put)

lemma votes_match_other:
  "sorted_store bs \<Longrightarrow> sget bs (j, a) = None \<Longrightarrow> j \<noteq> i \<Longrightarrow> votes_match bs i v \<Longrightarrow>
     votes_match (sput (j, a) b bs) i v"
  by (simp add: votes_match_def kind_points_put)

section \<open>The invariant\<close>

definition prop_count :: "tc_state \<Rightarrow> u64" where
  "prop_count s = (case s_proposal_count s of None \<Rightarrow> 0 | Some n \<Rightarrow> n)"

definition books_inv :: "tc_state \<Rightarrow> bool" where
  "books_inv s \<longleftrightarrow> sorted_store (s_proposals s) \<and> sorted_store (s_ballots s) \<and> unit_history (s_history s)
     \<and> (\<forall>i p. sget (s_proposals s) i = Some p \<longrightarrow>
          i \<noteq> 0 \<and> i \<le> prop_count s \<and> votes_match (s_ballots s) i (pr_votes p) \<and> pr_status p \<noteq> StPending)
     \<and> (\<forall>i a b. sget (s_ballots s) (i, a) = Some b \<longrightarrow>
          bl_points b = 1 \<and> bl_voter b = a \<and> sget (s_proposals s) i \<noteq> None)"

lemma books_kept:
  assumes "proposals_kept s s'" and "books_inv s"
  shows "books_inv s'"
proof -
  have eq: "prop_count s' = prop_count s" "s_ballots s' = s_ballots s"
    using assms(1) by (simp_all add: proposals_kept_def prop_count_def)
  have adj: "adjusted (s_proposals s) (s_proposals s')" using assms(1) by (simp add: proposals_kept_def)
  have props: "i \<noteq> 0 \<and> i \<le> prop_count s' \<and> votes_match (s_ballots s') i (pr_votes p') \<and> pr_status p' \<noteq> StPending"
    if p': "sget (s_proposals s') i = Some p'" for i p'
  proof -
    obtain p where "sget (s_proposals s) i = Some p" "adjusted_one p p'"
      using adjusted_SomeD [OF adj p'] .
    then show ?thesis
      using assms(2) adjusted_one_same [of p p'] by (simp add: books_inv_def eq)
  qed
  have "unit_history (s_history s')"
    using assms by (auto simp: proposals_kept_def books_inv_def intro: history_grows_unit)
  then show ?thesis
    using assms adj props adjusted_None [OF adj]
    by (simp add: books_inv_def proposals_kept_def eq adjusted_def)
qed

lemma points_of_one: "points_of m \<noteq> 0 \<Longrightarrow> points_of m \<le> 1 \<Longrightarrow> points_of m = 1"
proof -
  assume "points_of m \<noteq> 0" "points_of m \<le> 1"
  then have "unat (points_of m) \<noteq> 0" "unat (points_of m) \<le> 1"
    by (simp_all add: unat_eq_zero word_le_nat_alt)
  then have "unat (points_of m) = unat (1 :: u64)" by simp
  then show "points_of m = 1" unfolding word_unat_eq_iff .
qed

lemma past_points:
  assumes "history_law L" and "unit_history hs" and "points_of (l_at_height L hs a h) \<noteq> 0"
  shows "points_of (l_at_height L hs a h) = 1"
proof -
  have eq: "l_at_height L hs a h = snapshot_at hs a h" using assms(1) by (simp add: history_law_def)
  from snapshot_at_cases [of hs a h] have "points_of (snapshot_at hs a h) \<le> 1"
  proof
    assume "\<exists>g. (g, a, snapshot_at hs a h) \<in> set hs"
    then show ?thesis using assms(2) unfolding unit_history_def by fastforce
  qed simp
  with assms(3) show ?thesis unfolding eq by (intro points_of_one) simp_all
qed

lemma member_points:
  assumes "membership_inv s" and "points_of (sget (s_members s) a) \<noteq> 0"
  shows "points_of (sget (s_members s) a) = 1"
proof -
  have "map_option (\<lambda>e. of_nat (status_points e)) (sget (s_escrows s) a) = map_option mi_points (sget (s_members s) a)"
    using assms(1) by (simp add: membership_inv_def membership_def points_agree_def)
  then show ?thesis
    using assms(2)
    by (cases "sget (s_escrows s) a"; cases "sget (s_members s) a")
       (auto simp: points_of_def status_points_def split: if_splits)
qed

lemma books_vote:
  assumes "execute_vote L env info i v s = Inr (s', r)" and "ballot_law L" and "history_law L"
    and "books_inv s"
  shows "books_inv s'"
  using assms(1)
proof (cases rule: vote_shape)
  case (1 p power e ballots p')
  let ?b = "\<lparr>bl_voter = i_sender info, bl_vote = v, bl_points = power\<rparr>"
  have power: "power = 1"
    using past_points [OF assms(3)] 1(4,5) assms(4) by (simp add: books_inv_def)
  have new: "sget (s_ballots s) (i, i_sender info) = None"
    and bs: "ballots = sput (i, i_sender info) ?b (s_ballots s)"
    using create_ballot_Inr [OF assms(2) 1(8)] by auto
  obtain st where p': "p' = p\<lparr>pr_votes := add_vote v power (pr_votes p), pr_status := st\<rparr>"
    and st: "st \<noteq> StPending"
    using 1(2) update_status_shape [OF 1(9)]
    by (auto simp: current_status_def split: if_splits)
  have sorted: "sorted_store (s_ballots s)" using assms(4) by (simp add: books_inv_def)
  have match: "votes_match ballots i (add_vote v power (pr_votes p))"
    unfolding bs by (rule votes_match_add [OF sorted new])
      (use 1(1) assms(4) in \<open>simp_all add: books_inv_def\<close>)
  have others: "votes_match ballots j (pr_votes q)" if "j \<noteq> i" "sget (s_proposals s) j = Some q" for j q
    unfolding bs by (rule votes_match_other [OF sorted new])
      (use that assms(4) in \<open>simp_all add: books_inv_def\<close>)
  have voters: "bl_points b = 1 \<and> bl_voter b = a \<and> sget (s_proposals s') j \<noteq> None"
    if "sget ballots (j, a) = Some b" for j a b
    using that assms(4) 1(1) power unfolding bs 1(10)
    by (auto simp: books_inv_def split: if_splits)
  have props: "j \<noteq> 0 \<and> j \<le> prop_count s' \<and> votes_match ballots j (pr_votes q) \<and> pr_status q \<noteq> StPending"
    if "sget (s_proposals s') j = Some q" for j q
    using that match others [of j q] assms(4) 1(1) st p' unfolding 1(10)
    by (auto simp: books_inv_def prop_count_def split: if_splits)
  show ?thesis
    using assms(4) voters props unfolding 1(10) by (auto simp: books_inv_def bs)
qed

lemma unat_max: "unat (- 1 :: u64) = 2 ^ 64 - 1"
  by (simp add: unsigned_minus_1_eq_mask mask_eq_exp_minus_1)

lemma next_id:
  fixes n :: u64
  assumes "n \<noteq> - 1"
  shows "n + 1 \<noteq> 0" "i \<le> n \<Longrightarrow> i < n + 1" "i \<le> n \<Longrightarrow> i \<le> n + 1" "unat (n + 1) = Suc (unat n)"
proof -
  have "unat n \<noteq> unat (- 1 :: u64)" using assms by (simp only: word_unat_eq_iff not_False_eq_True)
  then have "unat n + unat (1 :: u64) < 2 ^ LENGTH(64)"
    using unat_max unat_u64 [of n] by simp
  then have "unat (n + 1) = unat n + unat (1 :: u64)" by (rule unat_add_lem [THEN iffD1])
  then show suc: "unat (n + 1) = Suc (unat n)" by simp
  then show "n + 1 \<noteq> 0" by (metis unat_0 nat.distinct(1))
  show "i \<le> n \<Longrightarrow> i < n + 1" "i \<le> n \<Longrightarrow> i \<le> n + 1"
    unfolding word_le_nat_alt word_less_nat_alt suc by simp_all
qed

lemma books_propose:
  assumes "execute_propose L Q env info t d c s = Inr (s', r)" and "ballot_law L"
    and "books_inv s" and "membership_inv s" and "prop_count s \<noteq> - 1"
  shows "books_inv s'"
  using assms(1)
proof (cases rule: propose_shape)
  case (1 s1 ev power tc total p p' i x ballots)
  let ?b = "\<lparr>bl_voter = i_sender info, bl_vote = VYes, bl_points = power\<rparr>"
  have kept: "proposals_kept s s1" using 1(1) by (auto dest: check_pending_governance_kept)
  then have books: "books_inv s1" using assms(3) by (rule books_kept)
  have count: "prop_count s1 = prop_count s" using kept by (simp add: prop_count_def proposals_kept_def)
  have i: "i = prop_count s1 + 1" using 1(9) by (simp add: prop_count_def)
  have "membership_inv s1" using 1(1) assms(4) by (auto dest: check_pending_membership)
  then have power: "power = 1" using 1(2,3) member_points by simp
  have new: "sget (s_ballots s1) (i, i_sender info) = None"
    and bs: "ballots = sput (i, i_sender info) ?b (s_ballots s1)"
    using create_ballot_Inr [OF assms(2) 1(10)] by auto
  note fresh = next_id [of "prop_count s1"] assms(5) count
  have no_prop: "sget (s_proposals s1) i = None"
  proof (rule ccontr)
    assume "sget (s_proposals s1) i \<noteq> None"
    then have "i \<le> prop_count s1" using books by (auto simp: books_inv_def)
    then show False using fresh i by (metis less_irrefl)
  qed
  have no_ballot: "sget (s_ballots s1) (i, a) = None" for a
    using books no_prop unfolding books_inv_def by (cases "sget (s_ballots s1) (i, a)") fastforce+
  have sorted: "sorted_store (s_ballots s1)" using books by (simp add: books_inv_def)
  have "votes_match (s_ballots s1) i \<lparr>v_yes = 0, v_no = 0, v_abstain = 0, v_veto = 0\<rparr>"
    using kind_points_none [OF sorted no_ballot] by (simp add: votes_match_def)
  from votes_match_add [OF sorted new this, of ?b VYes power]
  have "votes_match ballots i (votes_yes power)"
    unfolding bs by (simp add: votes_yes_def)
  moreover obtain st where "p' = p\<lparr>pr_status := st\<rparr>" "st \<noteq> StPending"
    using 1(7) update_status_shape [OF 1(8)] by (auto simp: current_status_def split: if_splits)
  ultimately have mine: "votes_match ballots i (pr_votes p') \<and> pr_status p' \<noteq> StPending"
    using 1(7) by simp
  have others: "votes_match ballots j (pr_votes q)" if "j \<noteq> i" "sget (s_proposals s1) j = Some q" for j q
    unfolding bs by (rule votes_match_other [OF sorted new])
      (use that books in \<open>simp_all add: books_inv_def\<close>)
  have props: "j \<noteq> 0 \<and> j \<le> i \<and> votes_match ballots j (pr_votes q) \<and> pr_status q \<noteq> StPending"
    if "sget (sput i p' (s_proposals s1)) j = Some q" for j q
    using that mine others [of j q] books fresh i by (auto simp: books_inv_def split: if_splits)
  have voters: "bl_points b = 1 \<and> bl_voter b = a \<and> sget (sput i p' (s_proposals s1)) j \<noteq> None"
    if "sget ballots (j, a) = Some b" for j a b
    using that books power unfolding bs by (auto simp: books_inv_def split: if_splits)
  have "prop_count s' = i" unfolding 1(11) by (simp add: prop_count_def)
  then show ?thesis
    using books props voters unfolding 1(11) by (auto simp: books_inv_def bs)
qed

lemma books_status:
  assumes "books_inv s" and "sget (s_proposals s) i = Some p" and "st \<noteq> StPending"
  shows "books_inv (s\<lparr>s_proposals := sput i (p\<lparr>pr_status := st\<rparr>) (s_proposals s)\<rparr>)"
proof -
  let ?s = "s\<lparr>s_proposals := sput i (p\<lparr>pr_status := st\<rparr>) (s_proposals s)\<rparr>"
  have same: "prop_count ?s = prop_count s" "s_ballots ?s = s_ballots s" "s_history ?s = s_history s"
    by (simp_all add: prop_count_def)
  have "j \<noteq> 0 \<and> j \<le> prop_count s \<and> votes_match (s_ballots s) j (pr_votes q) \<and> pr_status q \<noteq> StPending"
    if "sget (s_proposals ?s) j = Some q" for j q
    using that assms by (cases "j = i") (auto simp: books_inv_def)
  moreover have "bl_points b = 1 \<and> bl_voter b = a \<and> sget (s_proposals ?s) j \<noteq> None"
    if "sget (s_ballots s) (j, a) = Some b" for j a b
    using that assms(1) by (simp add: books_inv_def)
  moreover have "sorted_store (s_proposals ?s) \<and> sorted_store (s_ballots s) \<and> unit_history (s_history s)"
    using assms(1) by (simp add: books_inv_def)
  ultimately show ?thesis unfolding books_inv_def same by blast
qed

lemma proposal_execute_kept:
  "proposal_execute L Q env i c s = Inr (s', r) \<Longrightarrow> proposals_kept s s'"
  by (erule proposal_execute_governance) (auto simp: kept_defs)

lemma execute_books:
  assumes "execute L Q env info msg s = Inr (s', r)" and "ballot_law L" and "history_law L"
    and "books_inv s" and "membership_inv s" and "prop_count s \<noteq> - 1"
  shows "books_inv s'"
  using assms(1)
proof (cases rule: execute_cases)
  case (propose t d c)
  show ?thesis using propose(2) assms(2,4,5,6) by (rule books_propose)
next
  case (vote i v)
  show ?thesis using vote(2) assms(2,3,4) by (rule books_vote)
next
  case (close i)
  from close(2) show ?thesis
    by (rule close_shape) (use books_status [OF assms(4)] in auto)
next
  case (run i)
  from run(2) show ?thesis
    by (rule execute_execute_shape)
       (use books_status [OF assms(4)] in \<open>auto dest!: proposal_execute_kept dest: books_kept\<close>)
next
  case (check ev)
  show ?thesis using check_pending_governance_kept [OF check(2)] assms(4) by (rule books_kept)
next
  case members
  then have "proposals_kept s s'" by (simp add: governance_kept_def)
  then show ?thesis using assms(4) by (rule books_kept)
qed

text \<open>The proposal counter grows by one with each proposal, and stays otherwise.\<close>

lemma execute_count:
  assumes "execute L Q env info msg s = Inr (s', r)"
  shows "prop_count s' = prop_count s \<or> prop_count s' = prop_count s + 1"
proof -
  have kept: "proposals_kept x y \<Longrightarrow> prop_count y = prop_count x" for x y
    by (simp add: proposals_kept_def prop_count_def)
  from assms show ?thesis
  proof (cases rule: execute_cases)
    case (propose t d c)
    from propose(2) show ?thesis
    proof (cases rule: propose_shape)
      case (1 s1 ev power tc total p p' i x ballots)
      have "prop_count s1 = prop_count s" using 1(1) by (auto dest: check_pending_governance_kept kept)
      then show ?thesis using 1(9,11) by (simp add: prop_count_def)
    qed
  next
    case (vote i v)
    then show ?thesis by (auto elim!: vote_shape simp: prop_count_def)
  next
    case (close i)
    then show ?thesis by (auto elim!: close_shape simp: prop_count_def)
  next
    case (run i)
    from run(2) show ?thesis
      by (rule execute_execute_shape) (auto dest!: proposal_execute_kept kept simp: prop_count_def)
  next
    case (check ev)
    then show ?thesis by (auto dest!: check_pending_governance_kept kept)
  next
    case members
    then show ?thesis by (auto simp: governance_kept_def dest: kept)
  qed
qed

text \<open>Whatever is called, the history of the members is only appended to.\<close>

lemma execute_history:
  assumes "execute L Q env info msg s = Inr (s', r)"
  shows "history_grows (s_history s) (s_history s')"
proof -
  have kept: "proposals_kept x y \<Longrightarrow> history_grows (s_history x) (s_history y)" for x y
    by (simp add: proposals_kept_def)
  from assms show ?thesis
  proof (cases rule: execute_cases)
    case (propose t d c)
    from propose(2) show ?thesis
      by (rule propose_shape) (auto dest!: check_pending_governance_kept kept)
  next
    case (run i)
    from run(2) show ?thesis
      by (rule execute_execute_shape) (auto dest!: proposal_execute_kept kept)
  next
    case (check ev)
    then show ?thesis by (auto dest!: check_pending_governance_kept kept)
  next
    case members
    then show ?thesis by (auto simp: governance_kept_def dest: kept)
  qed (auto elim!: vote_shape close_shape)
qed

lemma instantiate_books:
  assumes "instantiate L Q env info msg empty_state = Inr (s, r)"
  shows "books_inv s \<and> prop_count s = 0"
  using assms
proof (cases rule: instantiate_shape)
  case (1 tc amount ev)
  let ?s = "empty_state\<lparr>s_version := Some (''crates.io:tgrade-trusted_circle'', ''0.15.0''),
          s_circle := Some tc,
          s_escrows := sput (i_sender info) \<lparr>es_paid = amount, es_status = Voting\<rparr> [],
          s_members := sput (i_sender info) (member_info_new 1) [],
          s_history := [(b_height (e_block env), i_sender info, Some (member_info_new 1))],
          s_total := Some 1, s_dist := dist_init (im_reward_denom msg) (s_dist empty_state)\<rparr>"
  have kept: "proposals_kept ?s s"
    using add_remove_governance [OF 1(5)] by (simp add: governance_kept_def)
  have "books_inv ?s" and "prop_count ?s = 0"
    by (simp_all add: books_inv_def prop_count_def empty_state_def unit_history_def)
  moreover have "prop_count s = prop_count ?s"
    using kept unfolding proposals_kept_def prop_count_def by (simp only:)
  ultimately show ?thesis using books_kept [OF kept] by simp
qed

lemma after_books:
  assumes "tc_after L n s" and "n < 2 ^ 64" and "ballot_law L" and "history_law L"
  shows "books_inv s \<and> unat (prop_count s) \<le> n"
  using assms(1,2)
proof (induction rule: tc_after.induct)
  case (after_start Q env info msg s r)
  then show ?case using instantiate_books by auto
next
  case (after_call n s env Q info msg s' r)
  then have books: "books_inv s" and le: "unat (prop_count s) \<le> n" and n: "Suc n < 2 ^ 64" by simp_all
  have count: "prop_count s \<noteq> - 1"
  proof
    assume "prop_count s = - 1"
    then have "unat (prop_count s) = 2 ^ 64 - 1" using unat_max by simp
    with le n show False by simp
  qed
  have "membership_inv s" using after_call(1) by (intro reachable_membership tc_after_reachable)
  then have "books_inv s'"
    using execute_books [OF after_call(3) assms(3,4) books _ count] by simp
  moreover have "unat (prop_count s') \<le> Suc n"
    using execute_count [OF after_call(3)] next_id(4) [OF count] le by auto
  ultimately show ?case ..
qed

end
