(* ===== verification/TC_Status.thy ===== *)
theory TC_Status
  imports TC_Tally
begin

text \<open>
  The status of a proposal as a state machine: what one call can do to one proposal, that final
  states are final, and that only rules with an early end ever let a proposal pass.
\<close>

definition same_terms :: "proposal \<Rightarrow> proposal \<Rightarrow> bool" where
  "same_terms p p' \<longleftrightarrow> pr_title p' = pr_title p \<and> pr_description p' = pr_description p
     \<and> pr_start_height p' = pr_start_height p \<and> pr_expires p' = pr_expires p
     \<and> pr_proposal p' = pr_proposal p \<and> pr_rules p' = pr_rules p"

text \<open>What the call \<open>msg\<close> does to proposal number \<open>i\<close>.\<close>

definition proposal_step :: "execute_msg \<Rightarrow> u64 \<Rightarrow> proposal \<Rightarrow> proposal \<Rightarrow> bool" where
  "proposal_step msg i p p' \<longleftrightarrow> same_terms p p' \<and>
     (pr_status p' = pr_status p
      \<or> (\<exists>v. msg = Vote i v) \<and> pr_status p = StOpen \<and> pr_status p' = StPassed \<and> vr_allow_end_early (pr_rules p)
      \<or> msg = Close i \<and> pr_status p = StOpen \<and> pr_status p' = StRejected
      \<or> msg = Execute i \<and> pr_status p = StPassed \<and> pr_status p' = StExecuted) \<and>
     (pr_votes p' = pr_votes p
      \<or> (\<exists>v. msg = Vote i v \<and> (pr_status p = StOpen \<or> pr_status p = StPassed)
           \<and> pr_votes p' = add_vote v 1 (pr_votes p))) \<and>
     (pr_total_points p' = pr_total_points p \<or> pr_status p = StOpen)"

lemma proposal_step_refl: "proposal_step msg i p p"
  by (simp add: proposal_step_def same_terms_def)

lemma adjusted_step: "adjusted_one p p' \<Longrightarrow> proposal_step msg i p p'"
  by (auto simp: adjusted_one_def proposal_step_def same_terms_def)

lemma kept_step:
  assumes "proposals_kept s s'" and "sget (s_proposals s) i = Some p"
  shows "\<exists>p'. sget (s_proposals s') i = Some p' \<and> proposal_step msg i p p'"
proof -
  have "adjusted (s_proposals s) (s_proposals s')" using assms(1) by (simp add: proposals_kept_def)
  then obtain p' where "sget (s_proposals s') i = Some p'" "adjusted_one p p'"
    using assms(2) by (rule adjusted_SomeI)
  then show ?thesis by (blast intro: adjusted_step)
qed

lemma kept_none:
  "proposals_kept s s' \<Longrightarrow> sget (s_proposals s) i = None \<Longrightarrow> sget (s_proposals s') i = None"
  unfolding proposals_kept_def by (blast intro: adjusted_None [THEN iffD2])

lemma running_status:
  assumes "update_status L b p = Inr p'" and "\<not> l_is_expired L (pr_expires p) b" and "pr_status p = StOpen"
  shows "pr_status p' = StOpen \<or> (pr_status p' = StPassed \<and> vr_allow_end_early (pr_rules p))"
  using assms
  by (auto simp: update_status_def current_status_def is_passed_def Let_def split: if_splits)

lemma settled_status:
  "update_status L b p = Inr p' \<Longrightarrow> pr_status p \<noteq> StOpen \<Longrightarrow> p' = p"
  by (auto simp: update_status_def current_status_def)

lemma vote_step:
  assumes "execute_vote L env info i v s = Inr (s', r)" and "ballot_law L" and "history_law L"
    and "books_inv s" and "sget (s_proposals s) j = Some p"
  shows "\<exists>p'. sget (s_proposals s') j = Some p' \<and> proposal_step (Vote i v) j p p'"
  using assms(1)
proof (cases rule: vote_shape)
  case (1 q power e ballots q')
  show ?thesis
  proof (cases "j = i")
    case False
    with assms(5) 1(10) show ?thesis by (auto intro: proposal_step_refl)
  next
    case True
    with 1(1) assms(5) have q: "q = p" by simp
    have "power = 1" using past_points [OF assms(3)] 1(4,5) assms(4) by (simp add: books_inv_def)
    let ?p = "p\<lparr>pr_votes := add_vote v 1 (pr_votes p)\<rparr>"
    have up: "update_status L (e_block env) ?p = Inr q'" using 1(9) q \<open>power = 1\<close> by simp
    have "proposal_step (Vote i v) j p q'"
    proof (cases "pr_status p = StOpen")
      case True
      then have "pr_status q' = StOpen \<or> (pr_status q' = StPassed \<and> vr_allow_end_early (pr_rules p))"
        using running_status [OF up] 1(3) q by simp
      with True \<open>j = i\<close> update_status_shape [OF up] show ?thesis
        by (auto simp: proposal_step_def same_terms_def)
    next
      case False
      with settled_status [OF up] have "q' = ?p" by simp
      with False 1(2) q \<open>j = i\<close> show ?thesis by (auto simp: proposal_step_def same_terms_def)
    qed
    with True 1(10) show ?thesis by simp
  qed
qed

lemma propose_step:
  assumes "execute_propose L Q env info t d c s = Inr (s', r)" and "books_inv s"
    and "prop_count s \<noteq> - 1" and "sget (s_proposals s) j = Some p"
  shows "\<exists>p'. sget (s_proposals s') j = Some p' \<and> proposal_step msg j p p'"
  using assms(1)
proof (cases rule: propose_shape)
  case (1 s1 ev power tc total q q' i x ballots)
  have kept: "proposals_kept s s1" using 1(1) by (auto dest: check_pending_governance_kept)
  have "j \<le> prop_count s" using assms(2,4) by (auto simp: books_inv_def)
  moreover have "i = prop_count s + 1"
    using kept 1(9) by (simp add: prop_count_def proposals_kept_def)
  ultimately have "j \<noteq> i" using next_id(2) [OF assms(3)] by (metis less_irrefl)
  with kept_step [OF kept assms(4)] 1(11) show ?thesis by simp
qed

lemma execute_step:
  assumes "execute L Q env info msg s = Inr (s', r)" and "ballot_law L" and "history_law L"
    and "books_inv s" and "prop_count s \<noteq> - 1" and "sget (s_proposals s) j = Some p"
  shows "\<exists>p'. sget (s_proposals s') j = Some p' \<and> proposal_step msg j p p'"
  using assms(1)
proof (cases rule: execute_cases)
  case (propose t d c)
  show ?thesis using propose(2) assms(4-6) by (rule propose_step)
next
  case (vote i v)
  show ?thesis unfolding vote(1) using vote(2) assms(2-4,6) by (rule vote_step)
next
  case (close i)
  from close(2) show ?thesis
  proof (cases rule: close_shape)
    case (1 q)
    have "pr_status q \<noteq> StPending" using 1(1) assms(4) by (auto simp: books_inv_def)
    then show ?thesis
      using 1 assms(6) close(1)
      by (cases "j = i") (auto simp: proposal_step_refl, simp add: proposal_step_def same_terms_def)
  qed
next
  case (run i)
  from run(2) show ?thesis
  proof (cases rule: execute_execute_shape)
    case (1 q r')
    let ?s = "s\<lparr>s_proposals := sput i (q\<lparr>pr_status := StExecuted\<rparr>) (s_proposals s)\<rparr>"
    have kept: "proposals_kept ?s s'" using 1(4) by (rule proposal_execute_kept)
    show ?thesis
    proof (cases "j = i")
      case False
      with assms(6) have "sget (s_proposals ?s) j = Some p" by simp
      with kept show ?thesis by (rule kept_step)
    next
      case True
      then have q: "q = p" using 1(1) assms(6) by simp
      have "adjusted (s_proposals ?s) (s_proposals s')" using kept by (simp add: proposals_kept_def)
      moreover have "sget (s_proposals ?s) j = Some (p\<lparr>pr_status := StExecuted\<rparr>)" using True q by simp
      ultimately obtain p' where "sget (s_proposals s') j = Some p'"
        "adjusted_one (p\<lparr>pr_status := StExecuted\<rparr>) p'" by (rule adjusted_SomeI)
      with 1(2) q True run(1) show ?thesis
        by (auto simp: adjusted_one_def proposal_step_def same_terms_def)
    qed
  qed
next
  case (check ev)
  show ?thesis using check_pending_governance_kept [OF check(2)] assms(6) by (rule kept_step)
next
  case members
  then have "proposals_kept s s'" by (simp add: governance_kept_def)
  then show ?thesis using assms(6) by (rule kept_step)
qed

section \<open>Over a run\<close>

inductive tc_from :: "cw_lib \<Rightarrow> tc_state \<Rightarrow> nat \<Rightarrow> tc_state \<Rightarrow> bool" for L :: cw_lib and s :: tc_state where
  from_here: "tc_from L s 0 s"
| from_call: "tc_from L s n t \<Longrightarrow> clock_ok env \<Longrightarrow> execute L Q env info msg t = Inr (u, r) \<Longrightarrow>
    tc_from L s (Suc n) u"

lemma tc_from_after: "tc_from L s m s' \<Longrightarrow> tc_after L n s \<Longrightarrow> tc_after L (n + m) s'"
  by (induction rule: tc_from.induct) (auto intro: after_call)

lemma after_count:
  assumes "tc_after L n s" and "Suc n < 2 ^ 64" and "ballot_law L" and "history_law L"
  shows "books_inv s \<and> prop_count s \<noteq> - 1"
proof -
  have "books_inv s \<and> unat (prop_count s) \<le> n" using assms by (intro after_books) simp_all
  moreover have "prop_count s \<noteq> - 1"
  proof
    assume "prop_count s = - 1"
    then have "unat (prop_count s) = 2 ^ 64 - 1" using unat_max by simp
    with calculation assms(2) show False by simp
  qed
  ultimately show ?thesis by simp
qed

lemma final_status:
  assumes "tc_from L s m s'" and "tc_after L n s" and "n + m < 2 ^ 64" and "ballot_law L" and "history_law L"
    and "sget (s_proposals s) i = Some p" and "pr_status p = StExecuted \<or> pr_status p = StRejected"
  shows "\<exists>p'. sget (s_proposals s') i = Some p' \<and> same_terms p p' \<and> pr_status p' = pr_status p
     \<and> pr_votes p' = pr_votes p"
  using assms(1,3)
proof (induction rule: tc_from.induct)
  case from_here
  then show ?case using assms(6) by (simp add: same_terms_def)
next
  case (from_call m t env Q info msg u r)
  then obtain q where q: "sget (s_proposals t) i = Some q" "same_terms p q"
    "pr_status q = pr_status p" "pr_votes q = pr_votes p" by auto
  have "tc_after L (n + m) t" using from_call(1) assms(2) by (rule tc_from_after)
  then have "books_inv t \<and> prop_count t \<noteq> - 1"
    using from_call.prems assms(4,5) by (intro after_count) simp_all
  then obtain p' where "sget (s_proposals u) i = Some p'" "proposal_step msg i q p'"
    using execute_step [OF from_call(3) assms(4,5) _ _ q(1)] by blast
  with q assms(7) show ?case by (auto simp: proposal_step_def same_terms_def)
qed

lemma settled_refuses:
  assumes "sget (s_proposals s) i = Some p" and "pr_status p = StExecuted \<or> pr_status p = StRejected"
  shows "\<exists>e. execute L Q env info (Execute i) s = Inl e"
    and "\<exists>e. execute L Q env info (Vote i v) s = Inl e"
    and "\<exists>e. execute L Q env info (Close i) s = Inl e"
proof -
  have no: "\<exists>e. x = Inl e" if "\<And>y r. x \<noteq> Inr (y, r)" for x :: "(bank_msg response) tc_result"
    using that by (cases x) auto
  show "\<exists>e. execute L Q env info (Execute i) s = Inl e"
    by (rule no) (use assms in \<open>auto simp: execute_def elim!: execute_execute_shape\<close>)
  show "\<exists>e. execute L Q env info (Vote i v) s = Inl e"
    by (rule no) (use assms in \<open>auto simp: execute_def elim!: vote_shape\<close>)
  show "\<exists>e. execute L Q env info (Close i) s = Inl e"
    by (rule no) (use assms in \<open>auto simp: execute_def elim!: close_shape\<close>)
qed

text \<open>Later calls keep the terms of a proposal, and only add to the history of the members.\<close>

lemma from_terms:
  assumes "tc_from L s m s'" and "tc_after L n s" and "n + m < 2 ^ 64" and "ballot_law L" and "history_law L"
    and "sget (s_proposals s) i = Some p"
  shows "(\<exists>p'. sget (s_proposals s') i = Some p' \<and> same_terms p p') \<and> history_grows (s_history s) (s_history s')"
  using assms(1,3)
proof (induction rule: tc_from.induct)
  case from_here
  then show ?case using assms(6) by (simp add: same_terms_def)
next
  case (from_call m t env Q info msg u r)
  then obtain q where q: "sget (s_proposals t) i = Some q" "same_terms p q"
    and grows: "history_grows (s_history s) (s_history t)" by auto
  have "tc_after L (n + m) t" using from_call(1) assms(2) by (rule tc_from_after)
  then have "books_inv t \<and> prop_count t \<noteq> - 1"
    using from_call.prems assms(4,5) by (intro after_count) simp_all
  then obtain p' where p': "sget (s_proposals u) i = Some p'" "proposal_step msg i q p'"
    using execute_step [OF from_call(3) assms(4,5) _ _ q(1)] by blast
  with q(2) have "same_terms p p'" by (simp add: proposal_step_def same_terms_def)
  moreover have "history_grows (s_history s) (s_history u)"
    using grows execute_history [OF from_call(3)] by (rule history_grows_trans)
  ultimately show ?case using p'(1) by blast
qed

section \<open>Rules without an early end\<close>

lemma expiry_later:
  assumes "clock_law L" and "clock_ok env" and "validate_rules r = Inr ()"
  shows "b_time (e_block env) < l_plus_seconds L (b_time (e_block env)) (voting_period_secs r)"
proof -
  let ?t = "b_time (e_block env)" and ?d = "vr_voting_period r"
  have t: "unat ?t < 9223372036854775808" using assms(2) by (simp add: clock_ok_def word_less_nat_alt)
  have d: "0 < unat ?d" "unat ?d \<le> 365"
    using assms(3) by (auto simp: validate_rules_Inr word_le_nat_alt unat_gt_0 word_gt_0)
  have "unat (ucast ?d :: u64) = unat ?d" by (rule unat_ucast_up) simp
  then have "unat (voting_period_secs r * 1000000000) = unat ?d * 86400000000000"
    using d by (simp add: voting_period_secs_def unat_word_ariths)
  then have "unat (?t + voting_period_secs r * 1000000000) = unat ?t + unat ?d * 86400000000000"
    using t d by (simp add: unat_word_ariths)
  then show ?thesis using assms(1) d(1) by (simp add: clock_law_def word_less_nat_alt)
qed

definition early_inv :: "tc_state \<Rightarrow> bool" where
  "early_inv s \<longleftrightarrow> (\<forall>i p. sget (s_proposals s) i = Some p \<longrightarrow>
     pr_status p = StPassed \<or> pr_status p = StExecuted \<longrightarrow> vr_allow_end_early (pr_rules p))"

lemma new_proposal:
  assumes "execute L Q env info msg s = Inr (s', r)" and "circle_inv s"
    and "clock_law L" and "expiry_law L" and "clock_ok env"
    and "sget (s_proposals s) j = None" and "sget (s_proposals s') j = Some p"
  shows "(\<exists>t d c. msg = Propose t d c) \<and>
    (pr_status p = StOpen \<or> pr_status p = StPassed \<and> vr_allow_end_early (pr_rules p))"
proof -
  have none: "proposals_kept x s' \<Longrightarrow> sget (s_proposals x) j = None \<Longrightarrow> False" for x
    using kept_none assms(7) by fastforce
  from assms(1) show ?thesis
  proof (cases rule: execute_cases)
    case (propose t d c)
    from propose(2) show ?thesis
    proof (cases rule: propose_shape)
      case (1 s1 ev power tc total q q' i x ballots)
      have s1: "proposals_kept s s1" "circle_inv s1"
          using 1(1) assms(2) by (auto dest: check_pending_governance_kept check_pending_circle)
      from kept_none [OF s1(1) assms(6)] have "sget (s_proposals s1) j = None" .
      with assms(7) 1(11) have p: "p = q'" by (auto split: if_splits)
      have "validate_rules (tc_rules tc) = Inr ()"
        using s1(2) 1(5) by (auto simp: circle_inv_def validate_circle_Inr)
      then have "\<not> l_is_expired L (pr_expires q) (e_block env)"
        using expiry_later [OF assms(3,5)] assms(4) 1(7) by (simp add: expiry_law_def not_le)
      then have "pr_status q' = StOpen \<or> (pr_status q' = StPassed \<and> vr_allow_end_early (pr_rules q))"
        using running_status [OF 1(8)] 1(7) by simp
      with p update_status_shape [OF 1(8)] propose(1) show ?thesis by auto
    qed
  next
    case (vote i v)
    with assms(6,7) show ?thesis by (auto elim!: vote_shape split: if_splits)
  next
    case (close i)
    with assms(6,7) show ?thesis by (auto elim!: close_shape split: if_splits)
  next
    case (run i)
    from run(2) show ?thesis
      by (rule execute_execute_shape)
         (use assms(6,7) in \<open>auto dest!: proposal_execute_kept none split: if_splits\<close>)
  next
    case (check ev)
    with assms(6,7) show ?thesis by (auto dest!: check_pending_governance_kept none)
  next
    case members
    with assms(6,7) show ?thesis by (auto simp: governance_kept_def dest: none)
  qed
qed

lemma after_early:
  assumes "tc_after L n s" and "n < 2 ^ 64" and "ballot_law L" and "history_law L"
    and "clock_law L" and "expiry_law L"
  shows "early_inv s"
  using assms(1,2)
proof (induction rule: tc_after.induct)
  case (after_start Q env info msg s r)
  then show ?case
  proof (cases rule: instantiate_shape)
    case (1 tc amount ev)
    have "proposals_kept (empty_state\<lparr>s_version := Some (''crates.io:tgrade-trusted_circle'', ''0.15.0''),
          s_circle := Some tc,
          s_escrows := sput (i_sender info) \<lparr>es_paid = amount, es_status = Voting\<rparr> [],
          s_members := sput (i_sender info) (member_info_new 1) [],
          s_history := [(b_height (e_block env), i_sender info, Some (member_info_new 1))],
          s_total := Some 1, s_dist := dist_init (im_reward_denom msg) (s_dist empty_state)\<rparr>) s"
      using add_remove_governance [OF 1(5)] by (simp add: governance_kept_def)
    then have "sget (s_proposals s) i = None" for i
      by (rule kept_none) (simp add: empty_state_def)
    then show ?thesis by (simp add: early_inv_def)
  qed
next
  case (after_call n s env Q info msg s' r)
  have books: "books_inv s \<and> prop_count s \<noteq> - 1"
    using after_call(1) after_call.prems assms(3,4) by (intro after_count)
  have circle: "circle_inv s" using after_call(1) by (intro reachable_circle tc_after_reachable)
  have inv: "early_inv s" using after_call by simp
  show ?case
    unfolding early_inv_def
  proof (intro allI impI)
    fix i p'
    assume p': "sget (s_proposals s') i = Some p'" and st: "pr_status p' = StPassed \<or> pr_status p' = StExecuted"
    show "vr_allow_end_early (pr_rules p')"
    proof (cases "sget (s_proposals s) i")
      case None
      then show ?thesis
        using new_proposal [OF after_call(3) circle assms(5,6) after_call(2) None p'] st by auto
    next
      case (Some p)
      then obtain q where "sget (s_proposals s') i = Some q" "proposal_step msg i p q"
        using execute_step [OF after_call(3) assms(3,4) _ _ Some] books by blast
      with p' have step: "proposal_step msg i p p'" by simp
      have "pr_status p = StPassed \<or> pr_status p = StExecuted \<longrightarrow> vr_allow_end_early (pr_rules p)"
        using inv Some by (simp add: early_inv_def)
      with step st show ?thesis by (auto simp: proposal_step_def same_terms_def)
    qed
  qed
qed

end
