(* ===== verification/Paging.thy ===== *)
theory Paging
  imports Storage
begin

text \<open>
  Listings that return one page of a range at a time. A client asks for the page after the last
  key it has received, until a page comes back empty; the locale \<open>paged_listing\<close> is what it
  relies on, and what it gets: every item once, in the order of the keys.
\<close>

definition page_of :: "nat \<Rightarrow> 'k::linorder option \<Rightarrow> ('k, 'v) store \<Rightarrow> ('k, 'v) store" where
  "page_of sz start m = take sz (safter start m)"

lemma safter_append_key:
  assumes "sorted_store (xs @ (k, v) # ys)"
  shows "safter (Some k) (xs @ (k, v) # ys) = ys"
  using assms unfolding sorted_store_def safter_def by (auto simp: sorted_wrt_append filter_id_conv filter_empty_conv)

lemma sorted_safter: "sorted_store m \<Longrightarrow> sorted_store (safter start m)"
  by (auto simp: sorted_store_def safter_def sorted_wrt_map split: option.splits intro: sorted_wrt_filter)

fun pages :: "nat \<Rightarrow> nat \<Rightarrow> 'k::linorder option \<Rightarrow> ('k, 'v) store \<Rightarrow> ('k, 'v) store" where
  "pages 0 sz start m = []"
| "pages (Suc n) sz start m =
     (case page_of sz start m of
        [] \<Rightarrow> []
      | e # es \<Rightarrow> (e # es) @ pages n sz (Some (fst (last (e # es)))) m)"

lemma safter_rest:
  assumes "sorted_store m" and "safter start m = xs @ [(k, v)] @ ys"
  shows "safter (Some k) m = ys"
proof -
  let ?a = "\<lambda>k. case start of None \<Rightarrow> True | Some j \<Rightarrow> j < k"
  have a: "safter start m = filter (\<lambda>e. ?a (fst e)) m"
    by (simp add: safter_def split: option.splits)
  have "(k, v) \<in> set (filter (\<lambda>e. ?a (fst e)) m)" using assms(2) a by simp
  then have "?a k" by (cases start) auto
  then have "safter (Some k) m = filter (\<lambda>e. k < fst e) (filter (\<lambda>e. ?a (fst e)) m)"
    by (auto simp: safter_def split: option.splits intro!: filter_cong)
  also have "\<dots> = safter (Some k) (xs @ (k, v) # ys)"
    using assms(2) a by (simp add: safter_def)
  also have "\<dots> = ys"
    using sorted_safter [OF assms(1), of start] assms(2) by (intro safter_append_key) simp
  finally show ?thesis .
qed

lemma pages_complete:
  assumes "sorted_store m" and "0 < sz" and "length (safter start m) \<le> n"
  shows "pages n sz start m = safter start m"
  using assms(3)
proof (induction n arbitrary: start)
  case (Suc n)
  let ?p = "page_of sz start m" and ?rest = "drop sz (safter start m)"
  show ?case
  proof (cases "safter start m")
    case Nil
    then show ?thesis by (simp add: page_of_def)
  next
    case (Cons e es)
    with assms(2) obtain f fs where p: "?p = f # fs" by (cases sz) (auto simp: page_of_def)
    obtain k v where kv: "last ?p = (k, v)" by (cases "last ?p")
    have "butlast ?p @ [(k, v)] = ?p" unfolding kv [symmetric] using p by (intro append_butlast_last_id) simp
    moreover have "?p @ ?rest = safter start m" by (simp add: page_of_def)
    ultimately have split: "safter start m = butlast ?p @ [(k, v)] @ ?rest" by (metis append_assoc)
    have "safter (Some k) m = ?rest" by (rule safter_rest [OF assms(1) split])
    moreover have "length ?rest \<le> n" using Suc.prems assms(2) by simp
    ultimately have "pages n sz (Some k) m = ?rest" using Suc.IH [of "Some k"] by simp
    then have "pages (Suc n) sz start m = ?p @ ?rest" using p kv by simp
    then show ?thesis by (simp add: page_of_def)
  qed
qed simp

section \<open>What a listing promises\<close>

locale paged_listing =
  fixes fetch :: "'s \<Rightarrow> 'k::linorder option \<Rightarrow> 'r list"
    and items :: "'s \<Rightarrow> ('k, 'v) store"
    and sz :: nat
    and render :: "'s \<Rightarrow> 'k \<times> 'v \<Rightarrow> 'r"
    and key :: "'r \<Rightarrow> 'k"
  assumes size_pos: "0 < sz"
    and key_render: "key (render s e) = fst e"
    and fetch_page: "fetch s start = map (render s) (page_of sz start (items s))"
begin

fun read_all :: "nat \<Rightarrow> 's \<Rightarrow> 'k option \<Rightarrow> 'r list" where
  "read_all 0 s start = []"
| "read_all (Suc n) s start =
     (case fetch s start of [] \<Rightarrow> [] | r # rs \<Rightarrow> (r # rs) @ read_all n s (Some (key (last (r # rs)))))"

lemma read_all_pages: "read_all n s start = map (render s) (pages n sz start (items s))"
proof (induction n arbitrary: start)
  case (Suc n)
  show ?case
  proof (cases "page_of sz start (items s)")
    case Nil
    then have "fetch s start = []" using fetch_page [of s start] by simp
    then show ?thesis using Nil by simp
  next
    case (Cons e es)
    have "fetch s start = map (render s) (e # es)" using Cons fetch_page [of s start] by simp
    moreover have "key (last (map (render s) (e # es))) = fst (last (e # es))"
      by (simp add: last_map key_render del: list.map)
    ultimately show ?thesis using Suc.IH Cons by simp
  qed
qed simp

text \<open>With as many rounds as there are items, everything is read, each item once and in order.\<close>

lemma read_all_complete:
  "sorted_store (items s) \<Longrightarrow> length (items s) \<le> n \<Longrightarrow> read_all n s None = map (render s) (items s)"
  using pages_complete [of "items s" sz None n] size_pos by (simp add: read_all_pages safter_def)

end

end
