(* ===== verification/TC_Query.thy ===== *)
theory TC_Query
  imports TC_Contract Paging
begin

text \<open>
  The queries of the trusted circle (second half of \<open>contract.rs\<close>): lookups of one item, and
  listings that return one page of a range at a time. A query returns a standard error when an
  address does not validate or an item is missing.
\<close>

definition load_q :: "'a option \<Rightarrow> std_error + 'a" where
  "load_q r = of_opt NotFound r"

lemma load_q_simps [simp]: "load_q (Some x) = Inr x" "load_q r = Inr x \<longleftrightarrow> r = Some x"
  by (simp_all add: load_q_def)

section \<open>Single items\<close>

definition query_total_points :: "tc_state \<Rightarrow> std_error + u64" where
  "query_total_points s = load_q (s_total s)"

definition query_rules :: "tc_state \<Rightarrow> std_error + voting_rules" where
  "query_rules s = bindE (load_q (s_circle s)) (\<lambda>tc. Inr (tc_rules tc))"

definition query_trusted_circle :: "tc_state \<Rightarrow> std_error + trusted_circle" where
  "query_trusted_circle s = load_q (s_circle s)"

definition query_member ::
  "cw_lib \<Rightarrow> string \<Rightarrow> u64 option \<Rightarrow> tc_state \<Rightarrow> std_error + member_info option" where
  "query_member L a height s =
     bindE (l_addr_validate L a) (\<lambda>a.
     Inr (case height of
        Some h \<Rightarrow> l_at_height L (s_history s) a h
      | None \<Rightarrow> sget (s_members s) a))"

definition query_escrow :: "cw_lib \<Rightarrow> string \<Rightarrow> tc_state \<Rightarrow> std_error + escrow_status option" where
  "query_escrow L a s = bindE (l_addr_validate L a) (\<lambda>a. Inr (sget (s_escrows s) a))"

section \<open>Pages\<close>

text \<open>\<open>limit.unwrap_or(DEFAULT_LIMIT).min(MAX_LIMIT)\<close>\<close>

definition page_limit :: "u32 option \<Rightarrow> nat" where
  "page_limit limit = unat (min (case limit of None \<Rightarrow> 30 | Some l \<Rightarrow> l) 100)"

definition maybe_addr :: "cw_lib \<Rightarrow> string option \<Rightarrow> std_error + addr option" where
  "maybe_addr L a =
     (case a of None \<Rightarrow> Inr None | Some x \<Rightarrow> bindE (l_addr_validate L x) (\<lambda>y. Inr (Some y)))"

definition page :: "'k::linorder option \<Rightarrow> u32 option \<Rightarrow> ('k, 'v) store \<Rightarrow> ('k, 'v) store" where
  "page start limit m = page_of (page_limit limit) start m"

record member =
  m_addr :: addr
  m_points :: u64
  m_start_height :: "u64 option"

definition to_member :: "addr \<times> member_info \<Rightarrow> member" where
  "to_member e = \<lparr>m_addr = fst e, m_points = mi_points (snd e), m_start_height = mi_start_height (snd e)\<rparr>"

definition list_members ::
  "cw_lib \<Rightarrow> string option \<Rightarrow> u32 option \<Rightarrow> tc_state \<Rightarrow> std_error + member list" where
  "list_members L start_after limit s =
     bindE (maybe_addr L start_after) (\<lambda>start.
     Inr (map to_member (page start limit (s_members s))))"

text \<open>The index on points: the members with the given points, in the order of addresses.\<close>

definition with_points :: "u64 \<Rightarrow> (addr, member_info) store \<Rightarrow> (addr, member_info) store" where
  "with_points p ms = filter (\<lambda>e. mi_points (snd e) = p) ms"

definition list_voting_members ::
  "cw_lib \<Rightarrow> string option \<Rightarrow> u32 option \<Rightarrow> tc_state \<Rightarrow> std_error + member list" where
  "list_voting_members L start_after limit s =
     bindE (maybe_addr L start_after) (\<lambda>start.
     Inr (map to_member (page start limit (with_points voting_points (s_members s)))))"

definition list_non_voting_members ::
  "cw_lib \<Rightarrow> string option \<Rightarrow> u32 option \<Rightarrow> tc_state \<Rightarrow> std_error + member list" where
  "list_non_voting_members L start_after limit s =
     bindE (maybe_addr L start_after) (\<lambda>start.
     Inr (map to_member (page start limit (with_points 0 (s_members s)))))"

definition list_escrows ::
  "cw_lib \<Rightarrow> string option \<Rightarrow> u32 option \<Rightarrow> tc_state \<Rightarrow> std_error + (addr \<times> escrow_status) list" where
  "list_escrows L start_after limit s =
     bindE (maybe_addr L start_after) (\<lambda>start. Inr (page start limit (s_escrows s)))"

section \<open>Proposals and votes\<close>

text \<open>A panic while the status is computed aborts the query; it is shown as an error here.\<close>

definition shown_status :: "cw_lib \<Rightarrow> block_info \<Rightarrow> proposal \<Rightarrow> std_error + status" where
  "shown_status L block p = map_err (\<lambda>_. GenericErr ''panic'') (current_status L p block)"

record proposal_response =
  ps_id :: u64
  ps_title :: string
  ps_description :: string
  ps_proposal :: proposal_content
  ps_status :: status
  ps_expires :: expiration
  ps_rules :: voting_rules
  ps_total_points :: u64
  ps_votes :: votes

definition map_proposal :: "cw_lib \<Rightarrow> block_info \<Rightarrow> u64 \<times> proposal \<Rightarrow> std_error + proposal_response" where
  "map_proposal L block e =
     (case e of (i, p) \<Rightarrow> bindE (shown_status L block p) (\<lambda>status.
        Inr \<lparr>ps_id = i, ps_title = pr_title p, ps_description = pr_description p,
             ps_proposal = pr_proposal p, ps_status = status, ps_expires = pr_expires p,
             ps_rules = pr_rules p, ps_total_points = pr_total_points p, ps_votes = pr_votes p\<rparr>))"

definition query_proposal :: "cw_lib \<Rightarrow> env \<Rightarrow> u64 \<Rightarrow> tc_state \<Rightarrow> std_error + proposal_response" where
  "query_proposal L env i s =
     bindE (load_q (sget (s_proposals s) i)) (\<lambda>p. map_proposal L (e_block env) (i, p))"

text \<open>In descending order the start is an upper bound.\<close>

definition sbefore_rev :: "'k::linorder option \<Rightarrow> ('k, 'v) store \<Rightarrow> ('k, 'v) store" where
  "sbefore_rev start m =
     rev (case start of None \<Rightarrow> m | Some k \<Rightarrow> filter (\<lambda>e. fst e < k) m)"

definition list_proposals ::
  "cw_lib \<Rightarrow> env \<Rightarrow> u64 option \<Rightarrow> u32 option \<Rightarrow> bool \<Rightarrow> tc_state \<Rightarrow> std_error + proposal_response list" where
  "list_proposals L env start_after limit reverse s =
     mapE (map_proposal L (e_block env)) (take (page_limit limit)
       (if reverse then sbefore_rev start_after (s_proposals s)
        else safter start_after (s_proposals s)))"

record vote_info =
  vi_proposal_id :: u64
  vi_voter :: string
  vi_vote :: vote
  vi_points :: u64

definition query_vote ::
  "cw_lib \<Rightarrow> u64 \<Rightarrow> string \<Rightarrow> tc_state \<Rightarrow> std_error + vote_info option" where
  "query_vote L proposal_id voter s =
     bindE (l_addr_validate L voter) (\<lambda>voter_addr.
     Inr (map_option (\<lambda>b. \<lparr>vi_proposal_id = proposal_id, vi_voter = voter,
         vi_vote = bl_vote b, vi_points = bl_points b\<rparr>)
       (sget (s_ballots s) (proposal_id, voter_addr))))"

definition ballots_of_proposal :: "u64 \<Rightarrow> ballots \<Rightarrow> (addr, ballot) store" where
  "ballots_of_proposal i bs = map (\<lambda>((_, a), b). (a, b)) (filter (\<lambda>((j, _), _). j = i) bs)"

definition list_votes_by_proposal ::
  "cw_lib \<Rightarrow> u64 \<Rightarrow> string option \<Rightarrow> u32 option \<Rightarrow> tc_state \<Rightarrow> std_error + vote_info list" where
  "list_votes_by_proposal L proposal_id start_after limit s =
     bindE (maybe_addr L start_after) (\<lambda>start.
     Inr (map (\<lambda>(voter, b). \<lparr>vi_proposal_id = proposal_id, vi_voter = voter,
            vi_vote = bl_vote b, vi_points = bl_points b\<rparr>)
          (page start limit (ballots_of_proposal proposal_id (s_ballots s)))))"

definition ballots_of_voter :: "addr \<Rightarrow> ballots \<Rightarrow> ballots" where
  "ballots_of_voter a bs = filter (\<lambda>(_, b). bl_voter b = a) bs"

definition list_votes_by_voter ::
  "cw_lib \<Rightarrow> string \<Rightarrow> u64 option \<Rightarrow> u32 option \<Rightarrow> tc_state \<Rightarrow> std_error + vote_info list" where
  "list_votes_by_voter L voter start_after limit s =
     bindE (l_addr_validate L voter) (\<lambda>voter_addr.
     Inr (map (\<lambda>((proposal_id, _), b). \<lparr>vi_proposal_id = proposal_id, vi_voter = bl_voter b,
            vi_vote = bl_vote b, vi_points = bl_points b\<rparr>)
          (page (map_option (\<lambda>i. (i, voter_addr)) start_after) limit
            (ballots_of_voter voter_addr (s_ballots s)))))"

section \<open>Rewards\<close>

definition panic_std :: "tc_error \<Rightarrow> std_error" where
  "panic_std e = (case e of Std x \<Rightarrow> x | _ \<Rightarrow> GenericErr ''panic'')"

definition query_withdrawable_funds :: "string \<Rightarrow> tc_state \<Rightarrow> std_error + coin" where
  "query_withdrawable_funds owner s =
     bindE (load_q (sget (s_escrows s) owner)) (\<lambda>escrow.
     let points = (case es_status escrow of Voting \<Rightarrow> 1 | _ \<Rightarrow> 0) in
     map_err panic_std (adjusted_withdrawable_rewards owner points (s_dist s)))"

definition query_distributed_funds :: "tc_state \<Rightarrow> std_error + coin" where
  "query_distributed_funds s = map_err panic_std (distributed_rewards (s_dist s))"

definition query_undistributed_funds :: "querier \<Rightarrow> env \<Rightarrow> tc_state \<Rightarrow> std_error + coin" where
  "query_undistributed_funds Q env s = map_err panic_std (undistributed_rewards Q env (s_dist s))"

section \<open>The query entry point\<close>

datatype query_msg =
  QTrustedCircle
| QTotalPoints
| QListMembers "string option" "u32 option"
| QListNonVotingMembers "string option" "u32 option"
| QMember string "u64 option"
| QEscrow string
| QRules
| QProposal u64
| QListProposals "u64 option" "u32 option"
| QReverseProposals "u64 option" "u32 option"
| QVote u64 string
| QListVotes u64 "string option" "u32 option"
| QListVotesByVoter string "u64 option" "u32 option"
| QVoter string
| QListVoters "string option" "u32 option"
| QListEscrows "string option" "u32 option"
| QWithdrawableRewards string
| QDistributedRewards
| QUndistributedRewards

datatype query_answer =
  ACircle trusted_circle
| APoints u64
| AMembers "member list"
| AMember "member_info option"
| AEscrow "escrow_status option"
| ARules voting_rules
| AProposal proposal_response
| AProposals "proposal_response list"
| AVote "vote_info option"
| AVotes "vote_info list"
| AEscrows "(addr \<times> escrow_status) list"
| ARewards coin

definition answer :: "('a \<Rightarrow> query_answer) \<Rightarrow> std_error + 'a \<Rightarrow> std_error + query_answer" where
  "answer f r = bindE r (\<lambda>x. Inr (f x))"

definition query ::
  "cw_lib \<Rightarrow> querier \<Rightarrow> env \<Rightarrow> query_msg \<Rightarrow> tc_state \<Rightarrow> std_error + query_answer" where
  "query L Q env msg s =
     (case msg of
        QMember a height \<Rightarrow> answer AMember (query_member L a height s)
      | QEscrow a \<Rightarrow> answer AEscrow (query_escrow L a s)
      | QListMembers start limit \<Rightarrow> answer AMembers (list_members L start limit s)
      | QListNonVotingMembers start limit \<Rightarrow> answer AMembers (list_non_voting_members L start limit s)
      | QTotalPoints \<Rightarrow> answer APoints (query_total_points s)
      | QTrustedCircle \<Rightarrow> answer ACircle (query_trusted_circle s)
      | QRules \<Rightarrow> answer ARules (query_rules s)
      | QProposal i \<Rightarrow> answer AProposal (query_proposal L env i s)
      | QVote i voter \<Rightarrow> answer AVote (query_vote L i voter s)
      | QListProposals start limit \<Rightarrow> answer AProposals (list_proposals L env start limit False s)
      | QReverseProposals start limit \<Rightarrow> answer AProposals (list_proposals L env start limit True s)
      | QListVotes i start limit \<Rightarrow> answer AVotes (list_votes_by_proposal L i start limit s)
      | QListVotesByVoter voter start limit \<Rightarrow> answer AVotes (list_votes_by_voter L voter start limit s)
      | QVoter a \<Rightarrow> answer AMember (query_member L a None s)
      | QListVoters start limit \<Rightarrow> answer AMembers (list_voting_members L start limit s)
      | QListEscrows start limit \<Rightarrow> answer AEscrows (list_escrows L start limit s)
      | QWithdrawableRewards owner \<Rightarrow> answer ARewards (query_withdrawable_funds owner s)
      | QDistributedRewards \<Rightarrow> answer ARewards (query_distributed_funds s)
      | QUndistributedRewards \<Rightarrow> answer ARewards (query_undistributed_funds Q env s))"

section \<open>Reading a listing page by page\<close>

fun read_members ::
  "nat \<Rightarrow> cw_lib \<Rightarrow> string option \<Rightarrow> u32 option \<Rightarrow> tc_state \<Rightarrow> member list" where
  "read_members 0 L start limit s = []"
| "read_members (Suc n) L start limit s =
     (case list_members L start limit s of
        Inr (m # ms) \<Rightarrow> (m # ms) @ read_members n L (Some (m_addr (last (m # ms)))) limit s
      | _ \<Rightarrow> [])"

lemma m_addr_to_member [simp]: "m_addr (to_member e) = fst e"
  by (simp add: to_member_def)

lemma read_members_pages:
  assumes "\<And>a. a \<in> fst ` set (s_members s) \<Longrightarrow> l_addr_validate L a = Inr a"
    and "maybe_addr L start = Inr start"
  shows "read_members n L start limit s = map to_member (pages n (page_limit limit) start (s_members s))"
  using assms(2)
proof (induction n arbitrary: start)
  case (Suc n)
  show ?case
  proof (cases "page start limit (s_members s)")
    case (Cons e es)
    have "last (e # es) \<in> set (page start limit (s_members s))"
      unfolding Cons by (rule last_in_set) simp
    then have "fst (last (e # es)) \<in> fst ` set (s_members s)"
      by (auto simp: page_def page_of_def safter_def dest: in_set_takeD split: option.splits)
    then have "maybe_addr L (Some (fst (last (e # es)))) = Inr (Some (fst (last (e # es))))"
      using assms(1) by (simp add: maybe_addr_def)
    then have "read_members n L (Some (fst (last (e # es)))) limit s
        = map to_member (pages n (page_limit limit) (Some (fst (last (e # es)))) (s_members s))"
      by (rule Suc.IH)
    then show ?thesis
      using Suc.prems Cons by (cases "es = []") (simp_all add: list_members_def last_map page_def [symmetric])
  qed (use Suc in \<open>simp add: list_members_def page_def [symmetric]\<close>)
qed simp

end
