(* ===== verification/TC_Ballots.thy ===== *)
theory TC_Ballots
  imports TC_Examples TC_Status TC_Query
begin

text \<open>
  The properties of the trusted circle that are about proposals: the tally is the ballots, one
  point each, a proposal moves along its status machine only and is settled at most once, and
  one kind of proposal that can never be executed.
\<close>

lemma ex_run_after:
  "tc_after std_lib n s \<Longrightarrow> \<forall>c \<in> set calls. clock_ok (fst c) \<Longrightarrow> ex_run s calls = Inr s' \<Longrightarrow>
     tc_after std_lib (n + length calls) s'"
proof (induction calls arbitrary: s n)
  case (Cons c calls)
  obtain env info msg where c: "c = (env, info, msg)" by (cases c)
  with Cons.prems(3) obtain s1 r where "execute std_lib ex_querier env info msg s = Inr (s1, r)"
    and rest: "ex_run s1 calls = Inr s'" by auto
  then have "tc_after std_lib (Suc n) s1" using Cons.prems(1,2) c by (auto intro: after_call)
  from Cons.IH [OF this _ rest] Cons.prems(2) show ?case by simp
qed simp

lemma ex_after: "tc_after std_lib 3 ex_voters"
proof -
  obtain r where "instantiate std_lib ex_querier (ex_env 10 1000) (ex_pay ''a'' 1000000) ex_init empty_state
      = Inr (ex_founded, r)" using ex_instantiate by blast
  then have "tc_after std_lib (0 + length ex_calls) ex_voters"
    using ex_voters_run by (intro ex_run_after after_start) (auto simp: ex_calls_def clock_ok_def ex_env_def)
  moreover have "0 + length ex_calls = 3" by (simp add: ex_calls_def)
  ultimately show ?thesis by (simp only:)
qed

abbreviation ex_executed :: proposal where
  "ex_executed \<equiv> \<lparr>pr_title = ''t'', pr_description = ''d'', pr_start_height = 11,
     pr_expires = AtTime 87410000000000, pr_proposal = AddVotingMembers [''c''], pr_status = StExecuted,
     pr_rules = tc_rules ex_circle, pr_total_points = 1, pr_votes = votes_yes 1\<rparr>"

lemma ex_voters_proposal: "sget (s_proposals ex_voters) 1 = Some ex_executed"
  by (simp add: ex_voters sget_def)

section \<open>Tallies\<close>

text \<open>
  C17. One voter, one vote, one point. After any number of calls below \<open>2^64\<close>, the tally of every
  proposal counts, for each kind of vote, the addresses whose ballot on this proposal is of that
  kind; every ballot has one point, is filed under its own voter, and belongs to a proposal.
\<close>

theorem tally_counts_voters:
  assumes "tc_after L n s" and "n < 2 ^ 64" and "ballot_law L" and "history_law L"
    and "sget (s_proposals s) i = Some p"
  shows "(\<forall>k. (case k of VYes \<Rightarrow> v_yes (pr_votes p) | VNo \<Rightarrow> v_no (pr_votes p)
         | VAbstain \<Rightarrow> v_abstain (pr_votes p) | VVeto \<Rightarrow> v_veto (pr_votes p))
        = of_nat (card {a. \<exists>b. sget (s_ballots s) (i, a) = Some b \<and> bl_vote b = k}))
     \<and> (\<forall>j a b. sget (s_ballots s) (j, a) = Some b \<longrightarrow>
          bl_points b = 1 \<and> bl_voter b = a \<and> sget (s_proposals s) j \<noteq> None)"
proof -
  have books: "books_inv s" using after_books [OF assms(1-4)] by simp
  then have "votes_match (s_ballots s) i (pr_votes p)" using assms(5) by (auto simp: books_inv_def)
  moreover have "kind_points i k (s_ballots s)
      = of_nat (card {a. \<exists>b. sget (s_ballots s) (i, a) = Some b \<and> bl_vote b = k})" for k
    using books by (intro kind_points_card) (auto simp: books_inv_def)
  ultimately show ?thesis
    using books by (auto simp: votes_match_def books_inv_def split: vote.split)
qed

lemma tally_counts_voters_witness:
  "v_yes (votes_yes 1) = of_nat (card {a. \<exists>b. sget (s_ballots ex_voters) (1, a) = Some b \<and> bl_vote b = VYes})"
  using tally_counts_voters [OF ex_after _ std_ballot_law std_history_law ex_voters_proposal]
  by (auto dest!: spec [of _ VYes])

section \<open>The status machine\<close>

text \<open>
  C16. A proposal changes only as its status machine allows. A successful call keeps every proposal
  with its text, terms and expiry; its status changes only from open to passed by a vote
  (when the rules allow an early end), from open to rejected by closing, from passed to executed
  by executing; its tally changes only by one point of a vote on it while it is open or passed,
  and the points it is measured against only while it is open.
\<close>

theorem proposals_follow_status_machine:
  assumes "tc_after L n s" and "Suc n < 2 ^ 64" and "ballot_law L" and "history_law L"
    and "execute L Q env info msg s = Inr (s', r)" and "sget (s_proposals s) i = Some p"
  shows "\<exists>p'. sget (s_proposals s') i = Some p' \<and> proposal_step msg i p p'"
  using execute_step [OF assms(5,3,4) _ _ assms(6)] after_count [OF assms(1-4)] by blast

lemma proposals_follow_status_machine_witness:
  "\<exists>s' r p'. execute std_lib ex_querier (ex_env 14 1040) (ex_call ''a'') (Propose ''u'' ''v'' (AddVotingMembers [''d''])) ex_voters
       = Inr (s', r) \<and> sget (s_proposals s') 1 = Some p' \<and> pr_status p' = StExecuted"
proof -
  let ?msg = "Propose ''u'' ''v'' (AddVotingMembers [''d''])"
  have "\<exists>s' r. execute std_lib ex_querier (ex_env 14 1040) (ex_call ''a'') ?msg ex_voters = Inr (s', r)"
    by (simp add: ex_voters ex_circle_def ex_dist_def call_defs eval_defs member_info_new_def cong: if_weak_cong)
  then obtain s' r where run: "execute std_lib ex_querier (ex_env 14 1040) (ex_call ''a'') ?msg ex_voters = Inr (s', r)"
    by blast
  from proposals_follow_status_machine [OF ex_after _ std_ballot_law std_history_law run ex_voters_proposal]
  show ?thesis using run by (auto simp: proposal_step_def)
qed

text \<open>
  C18. A settled proposal stays settled. Once executed or rejected, a proposal keeps its status and
  its tally through any later calls, and every attempt to execute it again, to vote on it or to
  close it is an error: a proposal takes effect at most once.
\<close>

theorem settled_is_final:
  assumes "tc_from L s m s'" and "tc_after L n s" and "n + m < 2 ^ 64" and "ballot_law L" and "history_law L"
    and "sget (s_proposals s) i = Some p" and "pr_status p = StExecuted \<or> pr_status p = StRejected"
  shows "\<exists>p'. sget (s_proposals s') i = Some p' \<and> pr_status p' = pr_status p \<and> pr_votes p' = pr_votes p
     \<and> (\<forall>msg \<in> {Execute i, Vote i v, Close i}. \<exists>e. execute L Q env info msg s' = Inl e)"
proof -
  obtain p' where p': "sget (s_proposals s') i = Some p'" "pr_status p' = pr_status p" "pr_votes p' = pr_votes p"
    using final_status [OF assms] by blast
  then have "pr_status p' = StExecuted \<or> pr_status p' = StRejected" using assms(7) by simp
  from settled_refuses [OF p'(1) this] p' show ?thesis by auto
qed

lemma settled_is_final_witness:
  "\<exists>e. execute std_lib ex_querier (ex_env 14 1040) (ex_call ''a'') (Execute 1) ex_voters = Inl e"
  using settled_is_final [OF from_here ex_after _ std_ballot_law std_history_law ex_voters_proposal,
      of VYes ex_querier "ex_env 14 1040" "ex_call ''a''"] by auto

text \<open>
  C37. Proposals without an early end are never executed. When the rules of a proposal do not allow
  an early end, its stored status is never passed or executed, however the votes go: voting
  stops with the voting period, and executing does not compute the status anew.
\<close>

theorem no_early_end_never_executes:
  assumes "tc_after L n s" and "n < 2 ^ 64" and "ballot_law L" and "history_law L"
    and "clock_law L" and "expiry_law L"
    and "sget (s_proposals s) i = Some p" and "\<not> vr_allow_end_early (pr_rules p)"
  shows "pr_status p \<noteq> StPassed \<and> pr_status p \<noteq> StExecuted
     \<and> (\<exists>e. execute L Q env info (Execute i) s = Inl e)"
proof -
  have "early_inv s" using assms(1-6) by (rule after_early)
  then have "pr_status p \<noteq> StPassed" "pr_status p \<noteq> StExecuted"
    using assms(7,8) by (auto simp: early_inv_def)
  moreover from this have "execute L Q env info (Execute i) s \<noteq> Inr (s', r)" for s' r
    using assms(7) by (auto simp: execute_def elim!: execute_execute_shape)
  then have "\<exists>e. execute L Q env info (Execute i) s = Inl e"
    by (cases "execute L Q env info (Execute i) s") auto
  ultimately show ?thesis by simp
qed

definition ex_slow :: tc_state where
  "ex_slow = (case bindE (instantiate std_lib ex_querier (ex_env 10 1000) (ex_pay ''a'' 1000000)
       (ex_init\<lparr>im_allow_end_early := False\<rparr>) empty_state) (\<lambda>(s, _).
       ex_run s [(ex_env 11 1010, ex_call ''a'', Propose ''t'' ''d'' (AddVotingMembers [''c'']))]) of
     Inr s \<Rightarrow> s | Inl _ \<Rightarrow> empty_state)"

lemma ex_slow_run:
  "bindE (instantiate std_lib ex_querier (ex_env 10 1000) (ex_pay ''a'' 1000000)
       (ex_init\<lparr>im_allow_end_early := False\<rparr>) empty_state) (\<lambda>(s, _).
     ex_run s [(ex_env 11 1010, ex_call ''a'', Propose ''t'' ''d'' (AddVotingMembers [''c'']))]) = Inr ex_slow"
  by (simp add: ex_slow_def instantiate_def call_defs eval_defs cong: if_weak_cong)

lemma ex_slow_proposal:
  "\<exists>p. sget (s_proposals ex_slow) 1 = Some p \<and> \<not> vr_allow_end_early (pr_rules p)
     \<and> pr_status p = StOpen \<and> pr_total_points p = 1 \<and> pr_votes p = votes_yes 1"
  by (simp add: ex_slow_def instantiate_def call_defs eval_defs cong: if_weak_cong)

lemma no_early_end_never_executes_witness:
  "\<exists>p. sget (s_proposals ex_slow) 1 = Some p \<and> is_passed std_lib p (e_block (ex_env 99 90000)) = Inr True
     \<and> (\<exists>e. execute std_lib ex_querier (ex_env 99 90000) (ex_call ''a'') (Execute 1) ex_slow = Inl e)"
proof -
  obtain s0 r0 where start: "instantiate std_lib ex_querier (ex_env 10 1000) (ex_pay ''a'' 1000000)
      (ex_init\<lparr>im_allow_end_early := False\<rparr>) empty_state = Inr (s0, r0)"
    and call: "ex_run s0 [(ex_env 11 1010, ex_call ''a'', Propose ''t'' ''d'' (AddVotingMembers [''c'']))] = Inr ex_slow"
    using ex_slow_run unfolding bindE_eq_Inr by auto
  have after: "tc_after std_lib (0 + 1) ex_slow"
    using ex_run_after [OF after_start [OF start] _ call] by (simp add: clock_ok_def ex_env_def)
  obtain p where p: "sget (s_proposals ex_slow) 1 = Some p" "\<not> vr_allow_end_early (pr_rules p)"
    using ex_slow_proposal by blast
  have "is_passed std_lib p (e_block (ex_env 99 90000)) = Inr True"
    using p(1) by (simp add: ex_slow_def instantiate_def call_defs eval_defs cong: if_weak_cong) auto
  with p no_early_end_never_executes [OF after _ _ _ _ _ p] show ?thesis by auto
qed

section \<open>Listings\<close>

text \<open>
  A client that pages through the members misses nobody. Where addresses validate as
  themselves, asking for the page after the last member received, with any limit but zero, until
  a page is empty yields every member with the points stored, once, in ascending order.
\<close>

theorem members_listing_complete:
  assumes "tc_reachable L s" and "\<And>a. a \<in> fst ` set (s_members s) \<Longrightarrow> l_addr_validate L a = Inr a"
    and "limit \<noteq> Some 0" and "length (s_members s) \<le> n"
  shows "read_members n L None limit s = map to_member (s_members s)
     \<and> sorted_wrt (<) (map m_addr (read_members n L None limit s))"
proof -
  have sorted: "sorted_store (s_members s)"
    using reachable_membership [OF assms(1)] by (simp add: membership_inv_def membership_def)
  have "0 < page_limit limit"
    using assms(3) by (cases limit) (auto simp: page_limit_def min_def unat_gt_0)
  then have all: "read_members n L None limit s = map to_member (s_members s)"
    using read_members_pages [where s = s and n = n and start = None and limit = limit, OF assms(2)] pages_complete [OF sorted, of "page_limit limit" None n] assms(4)
    by (simp add: maybe_addr_def safter_def)
  show ?thesis
    using sorted unfolding all by (simp add: sorted_store_def comp_def)
qed

lemma members_listing_complete_witness:
  "map m_addr (read_members 3 std_lib None (Some 1) ex_voters) = [''a'', ''b'', ''c'']"
proof -
  have members: "s_members ex_voters = [(''a'', member_info_new 1), (''b'', member_info_new 0), (''c'', member_info_new 1)]"
    by (simp add: ex_voters)
  have "l_addr_validate std_lib a = Inr a" if "a \<in> fst ` set (s_members ex_voters)" for a
    using that by (auto simp: members std_lib_def)
  then have "read_members 3 std_lib None (Some 1) ex_voters = map to_member (s_members ex_voters)"
    using members_listing_complete [OF ex_voters_reachable, of "Some 1" 3] by (simp add: members)
  then show ?thesis by (simp add: members)
qed

end
