(* ===== verification/TC_Block.thy ===== *)
theory TC_Block
  imports TC_Ballots
begin

text \<open>
  Two calls of one block: a member promoted in the block in which a proposal is made is counted
  in the points that the proposal is measured against, but can never vote on it.
\<close>

lemma proposed_terms:
  assumes "execute L Q env info (Propose t d c) s = Inr (s', r)"
  obtains i p where "s_proposal_count s' = Some i" "sget (s_proposals s') i = Some p"
    "pr_start_height p = b_height (e_block env)" "s_total s' = Some (pr_total_points p)"
  using assms unfolding execute_def execute_msg.case
proof (cases rule: propose_shape)
  case (1 s1 ev power tc total q q' i x ballots)
  show thesis
  proof (rule that [of i q'])
    show "s_total s' = Some (pr_total_points q')" "pr_start_height q' = b_height (e_block env)"
      using 1(6,7,11) update_status_shape [OF 1(8)] by auto
  qed (simp_all add: 1(11))
qed

text \<open>
  C39. A voter promoted in the block of a proposal is counted in it and barred from it. When a member
  was made a voter earlier in the block in which a proposal is made, the proposal is measured
  against all voters, this one included; but the snapshot at the start height has the member
  without a point, so that every vote of this member on the proposal is an error, at any later time.
\<close>

theorem same_block_voter_is_barred:
  assumes "tc_after L n s" and "clock_ok env"
    and "execute L Q env info (Propose t d c) s = Inr (s1, r)" and "tc_from L s1 m s'"
    and "Suc (n + m) < 2 ^ 64" and "ballot_law L" and "history_law L"
    and "sget (s_escrows s1) a = Some e" and "es_status e = Voting"
    and "(b_height (e_block env), a, w) \<in> set (s_history s)"
    and "points_of (l_at_height L (s_history s) a (b_height (e_block env))) = 0"
  shows "\<exists>i p V. s_proposal_count s1 = Some i \<and> sget (s_proposals s1) i = Some p
     \<and> pr_total_points p = of_nat (card V) \<and> a \<in> V
     \<and> V = {b. \<exists>e. sget (s_escrows s1) b = Some e \<and> es_status e = Voting}
     \<and> (\<forall>Q' env' info' v. i_sender info' = a \<longrightarrow> (\<exists>e. execute L Q' env' info' (Vote i v) s' = Inl e))"
proof -
  let ?h = "b_height (e_block env)" and ?V = "{b. \<exists>e. sget (s_escrows s1) b = Some e \<and> es_status e = Voting}"
  obtain i p where p: "s_proposal_count s1 = Some i" "sget (s_proposals s1) i = Some p"
    "pr_start_height p = ?h" "s_total s1 = Some (pr_total_points p)"
    using assms(3) by (rule proposed_terms)
  have after: "tc_after L (Suc n) s1" using assms(1-3) by (rule after_call)
  then have "membership_inv s1" by (intro reachable_membership tc_after_reachable)
  then have "s_total s1 = Some (of_nat (voter_count (s_escrows s1)))" "voter_count (s_escrows s1) = card ?V"
    by (simp_all add: membership_inv_def membership_def voter_count_card)
  then have total: "pr_total_points p = of_nat (card ?V)" using p(4) by simp
  have "history_grows (s_history s) (s_history s1)" using assms(3) by (rule execute_history)
  moreover obtain p' where p': "sget (s_proposals s') i = Some p'" "same_terms p p'"
    and "history_grows (s_history s1) (s_history s')"
    using from_terms [OF assms(4) after _ assms(6,7) p(2)] assms(5) by auto
  ultimately have "history_grows (s_history s) (s_history s')" by (blast intro: history_grows_trans)
  then obtain ws where hist: "s_history s' = s_history s @ ws" by (auto simp: history_grows_def)
  have start: "pr_start_height p' = ?h" using p'(2) p(3) by (simp add: same_terms_def)
  have none: "points_of (l_at_height L (s_history s') a ?h) = 0"
    using assms(7,11) snapshot_at_settled [OF assms(10)] by (simp add: history_law_def hist)
  have "\<exists>e. execute L Q' env' info' (Vote i v) s' = Inl e" if "i_sender info' = a" for Q' env' info' v
  proof (cases "execute L Q' env' info' (Vote i v) s'")
    case (Inr y)
    then have "execute_vote L env' info' i v s' = Inr (fst y, snd y)" by (simp add: execute_def)
    then have False by (rule vote_shape) (use that p'(1) start none in auto)
    then show ?thesis ..
  qed blast
  with p(1,2) total assms(8,9) show ?thesis by blast
qed

text \<open>
  In the example \<open>c\<close> pays at height 13 and becomes the second voter; a proposal of that same block
  needs one vote of two, and \<open>c\<close> cannot cast one.
\<close>

lemma same_block_voter_is_barred_witness:
  "\<exists>s' r p e. execute std_lib ex_querier (ex_env 13 1035) (ex_call ''a'') (Propose ''u'' ''v'' (AddVotingMembers [''d''])) ex_voters
       = Inr (s', r)
     \<and> sget (s_proposals s') 2 = Some p \<and> pr_total_points p = 2
     \<and> execute std_lib ex_querier (ex_env 14 1040) (ex_call ''c'') (Vote 2 VYes) s' = Inl e"
proof -
  let ?env = "ex_env 13 1035" and ?msg = "Propose ''u'' ''v'' (AddVotingMembers [''d''])"
  have "\<exists>s' r. execute std_lib ex_querier ?env (ex_call ''a'') ?msg ex_voters = Inr (s', r)
     \<and> s_escrows s' = s_escrows ex_voters \<and> s_proposal_count s' = Some 2"
    by (simp add: ex_voters ex_circle_def ex_dist_def call_defs eval_defs member_info_new_def cong: if_weak_cong)
  then obtain s' r where run: "execute std_lib ex_querier ?env (ex_call ''a'') ?msg ex_voters = Inr (s', r)"
    and s': "s_escrows s' = s_escrows ex_voters" "s_proposal_count s' = Some 2" by blast
  have V: "{b. \<exists>e. sget (s_escrows s') b = Some e \<and> es_status e = Voting} = {''a'', ''c''}"
    by (auto simp: s' ex_voters sget_def split: if_splits)
  have "points_of (l_at_height std_lib (s_history ex_voters) ''c'' 13) = 0"
    by (simp add: ex_voters std_lib_def snapshot_at_def last_write_def points_of_def member_info_new_def)
  then have "\<exists>p. sget (s_proposals s') 2 = Some p \<and> pr_total_points p = 2
     \<and> (\<exists>e. execute std_lib ex_querier (ex_env 14 1040) (ex_call ''c'') (Vote 2 VYes) s' = Inl e)"
    using same_block_voter_is_barred [OF ex_after _ run from_here _ std_ballot_law std_history_law,
        of "''c''" "\<lparr>es_paid = 1000000, es_status = Voting\<rparr>" "Some (member_info_new 1)"] s' V
    by (force simp: clock_ok_def ex_env_def ex_call_def ex_voters sget_def)
  with run show ?thesis by blast
qed

end
