(* ===== verification/TC_Leaver.thy ===== *)
theory TC_Leaver
  imports TC_Block
begin

text \<open>
  What a voter who leaves does to the proposals under way: each loses one point of those it is
  measured against, unless the leaver has voted on it; it makes no difference whether the leaver
  was ever counted in it.
\<close>

section \<open>The index by expiry\<close>

text \<open>No proposal is listed twice, so the loop over the index adjusts it at most once.\<close>

definition index_inv :: "tc_state \<Rightarrow> bool" where
  "index_inv s \<longleftrightarrow> distinct (map snd (s_by_expiry s)) \<and> (\<forall>(t, i) \<in> set (s_by_expiry s). i \<le> prop_count s)"









text \<open>Of two proposals that expire in the same second, only the second is listed.\<close>

lemma same_second_unlisted:
  assumes "create_proposal L p s = Inr (s1, i)" and "create_proposal L q s1 = Inr (s2, j)"
    and "pr_expires q = pr_expires p" and "index_inv s" and "sorted_store (s_by_expiry s)"
    and "prop_count s \<noteq> - 1" and "prop_count s1 \<noteq> - 1"
  shows "(t, i) \<notin> set (s_by_expiry s2)"
proof
  assume listed: "(t, i) \<in> set (s_by_expiry s2)"
  obtain x where "pr_expires p = AtTime x" using assms(1) by (cases "pr_expires p") (auto simp: create_proposal_def)
  then have s2: "s_by_expiry s2 = sput (l_seconds L x) j (sput (l_seconds L x) i (s_by_expiry s))"
    and ids: "i = prop_count s + 1" "j = prop_count s1 + 1" "prop_count s1 = prop_count s + 1"
    using assms(1-3) by (auto simp: create_proposal_def save_proposal_def prop_count_def Let_def)
  have "sget (s_by_expiry s2) t = Some i"
    using listed assms(5) unfolding s2 by (subst kv.entries_get [symmetric]) (auto intro: kv.wf_put)
  moreover have "i < j" using next_id(2) [OF assms(7), of i] ids by simp
  ultimately have "sget (s_by_expiry s) t = Some i" by (auto simp: s2 split: if_splits)
  then have "(t, i) \<in> set (s_by_expiry s)" using assms(5) by (simp add: kv.entries_get)
  then have "i \<le> prop_count s" using assms(4) by (auto simp: index_inv_def)
  with next_id(2) [OF assms(6), of i] ids(1) show False by simp
qed

section \<open>The loop\<close>



section \<open>The property\<close>


section \<open>An example\<close>





end
