(* ===== verification/TC_Migration.thy ===== *)
theory TC_Migration
  imports TC_Contract
begin

text \<open>
  Migration of the trusted circle (\<open>migration.rs\<close> and the entry point \<open>migrate\<close> of \<open>contract.rs\<close>).
  A stored proposal is a JSON object: one written before version 0.6.0-beta1 has the field
  \<open>total_weight\<close> where the present ones have \<open>total_points\<close>, and neither reads as the other.
\<close>

section \<open>Stored proposals\<close>

record proposal_0_6_0_beta1 =
  op_title :: string
  op_description :: string
  op_start_height :: u64
  op_expires :: expiration
  op_proposal :: proposal_content
  op_status :: status
  op_rules :: voting_rules
  op_total_weight :: u64
  op_votes :: votes

datatype stored_proposal = PresentProposal proposal | OldProposal proposal_0_6_0_beta1



fun read_present :: "stored_proposal \<Rightarrow> std_error + proposal" where
  "read_present (PresentProposal p) = Inr p"
| "read_present (OldProposal _) = Inl (GenericErr ''missing field total_points'')"

section \<open>Migration\<close>



section \<open>What it does\<close>












end
