(* ===== verification/TC_Wire.thy ===== *)
theory TC_Wire
  imports TC_Contract
begin

text \<open>
  What the trusted circle writes and reads: the \<open>i128\<close> of a points correction, stored as a string
  of decimal digits (\<open>contracts/tgrade-trusted-circle/src/i128.rs\<close>), and the wrapper with which a
  client calls the contract (\<open>helpers.rs\<close>). The JSON format is a package's; what it does with a
  string is a parameter.
\<close>

section \<open>Formatting and parsing\<close>

text \<open>\<open>i128::to_string\<close> and \<open>str::parse::<i128>\<close> of the standard library, on the bytes of the string.\<close>

type_synonym i128 = "128 word"

definition i128_to_string :: "i128 \<Rightarrow> string" where
  "i128_to_string v =
     (if sint v < 0 then CHR ''-'' # digits_from 39 (nat (- sint v)) else digits_from 39 (nat (sint v)))"

datatype int_error = IntEmpty | InvalidDigit | PosOverflow | NegOverflow

fun fmt_int_error :: "int_error \<Rightarrow> string" where
  "fmt_int_error IntEmpty = ''cannot parse integer from empty string''"
| "fmt_int_error InvalidDigit = ''invalid digit found in string''"
| "fmt_int_error PosOverflow = ''number too large to fit in target type''"
| "fmt_int_error NegOverflow = ''number too small to fit in target type''"

definition fit_i128 :: "int \<Rightarrow> int option" where
  "fit_i128 i = (if - (2 ^ 127) \<le> i \<and> i < 2 ^ 127 then Some i else None)"

text \<open>
  The loop over the digits, away from zero in the direction of the sign: the digit is checked
  first, then the multiplication, then the addition.
\<close>

fun parse_digits :: "int \<Rightarrow> int_error \<Rightarrow> int \<Rightarrow> string \<Rightarrow> int_error + int" where
  "parse_digits sign overflow acc [] = Inr acc"
| "parse_digits sign overflow acc (ch # cs) =
     bindE (if is_digit ch then Inr (int (digit_value ch)) else Inl InvalidDigit) (\<lambda>digit.
     bindE (of_opt overflow (fit_i128 (acc * 10))) (\<lambda>shifted.
     bindE (of_opt overflow (fit_i128 (shifted + sign * digit))) (\<lambda>acc.
     parse_digits sign overflow acc cs)))"

definition parse_i128 :: "string \<Rightarrow> int_error + i128" where
  "parse_i128 s =
     (case s of
        [] \<Rightarrow> Inl IntEmpty
      | ch # cs \<Rightarrow>
          if (ch = CHR ''+'' \<or> ch = CHR ''-'') \<and> cs = [] then Inl InvalidDigit
          else if ch = CHR ''+'' then bindE (parse_digits 1 PosOverflow 0 cs) (\<lambda>i. Inr (of_int i))
          else if ch = CHR ''-'' then bindE (parse_digits (- 1) NegOverflow 0 cs) (\<lambda>i. Inr (of_int i))
          else bindE (parse_digits 1 PosOverflow 0 s) (\<lambda>i. Inr (of_int i)))"

section \<open>The serialised integer\<close>

definition int128_zero :: i128 where
  "int128_zero = 0"

definition i128_serialize :: "(string \<Rightarrow> string + 'o) \<Rightarrow> i128 \<Rightarrow> string + 'o" where
  "i128_serialize serialize_str v = serialize_str (i128_to_string v)"

definition visit_str :: "string \<Rightarrow> string + i128" where
  "visit_str v =
     (case parse_i128 v of
        Inr i \<Rightarrow> Inr i
      | Inl e \<Rightarrow> Inl (''invalid Int128 '' @ [CHR 0x27] @ v @ [CHR 0x27] @ '' - '' @ fmt_int_error e))"

text \<open>A deserializer of a string hands the string that it finds to the visitor, or fails.\<close>

definition i128_deserialize :: "((string \<Rightarrow> string + i128) \<Rightarrow> string + i128) \<Rightarrow> string + i128" where
  "i128_deserialize deserialize_str = deserialize_str visit_str"

text \<open>What a format promises: a string that it has written it reads as that string.\<close>

definition format_law :: "(string \<Rightarrow> string + 'o) \<Rightarrow> ('o \<Rightarrow> (string \<Rightarrow> string + i128) \<Rightarrow> string + i128) \<Rightarrow> bool" where
  "format_law S D \<longleftrightarrow> (\<forall>s out visit. S s = Inr out \<longrightarrow> D out visit = visit s)"

section \<open>The client's wrapper\<close>

datatype tg4_contract = Tg4Contract (tg4_addr: addr)

datatype tg_trusted_circle_contract = TgTrustedCircleContract (circle_deref: tg4_contract)

definition tg_trusted_circle_contract_new :: "addr \<Rightarrow> tg_trusted_circle_contract" where
  "tg_trusted_circle_contract_new a = TgTrustedCircleContract (Tg4Contract a)"

datatype 'b cosmos_msg = ExecuteContract addr 'b "coin list"

definition circle_encode_msg ::
  "(execute_msg \<Rightarrow> std_error + 'b) \<Rightarrow> tg_trusted_circle_contract \<Rightarrow> execute_msg \<Rightarrow> std_error + 'b cosmos_msg" where
  "circle_encode_msg to_binary c msg =
     bindE (to_binary msg) (\<lambda>binary. Inr (ExecuteContract (tg4_addr (circle_deref c)) binary []))"

section \<open>What a string denotes\<close>

text \<open>A sign or none, and one digit or more.\<close>

definition denotes :: "string \<Rightarrow> int \<Rightarrow> bool" where
  "denotes s i \<longleftrightarrow> (\<exists>sign ds. s = sign @ ds \<and> sign \<in> {'''', ''+'', ''-''} \<and> ds \<noteq> [] \<and> list_all is_digit ds
     \<and> i = (if sign = ''-'' then - int (read_digits 0 ds) else int (read_digits 0 ds)))"

lemma read_digits_ge: "acc \<le> read_digits acc cs"
proof (induction cs arbitrary: acc)
  case (Cons ch cs)
  show ?case using Cons [of "10 * acc + digit_value ch"] by simp
qed simp

text \<open>
  The loop returns what the digits denote, and exactly when that fits: an intermediate result is
  never larger than the last one.
\<close>

lemma parse_digits_Inr:
  assumes "sign = 1 \<or> sign = - 1"
  shows "parse_digits sign ovf (sign * int acc) cs = Inr i \<longleftrightarrow>
     list_all is_digit cs \<and> i = sign * int (read_digits acc cs) \<and> (cs = [] \<or> fit_i128 i = Some i)"
proof (induction cs arbitrary: acc)
  case (Cons ch cs)
  let ?acc = "10 * acc + digit_value ch"
  have shift: "sign * int acc * 10 + sign * int (digit_value ch) = sign * int ?acc" by (simp add: algebra_simps)
  show ?case
  proof (cases "is_digit ch \<and> fit_i128 (sign * int ?acc) \<noteq> None")
    case True
    then have "fit_i128 (sign * int acc * 10) = Some (sign * int acc * 10)"
      "fit_i128 (sign * int ?acc) = Some (sign * int ?acc)"
      using assms by (auto simp: fit_i128_def split: if_splits)
    with True shift have "parse_digits sign ovf (sign * int acc) (ch # cs) = parse_digits sign ovf (sign * int ?acc) cs"
      by simp
    with True Cons [of ?acc] show ?thesis by (auto simp: fit_i128_def split: if_splits)
  next
    case False
    have "fit_i128 (sign * int (read_digits ?acc cs)) = None" if "fit_i128 (sign * int ?acc) = None"
      using that assms read_digits_ge [of ?acc cs] by (auto simp: fit_i128_def split: if_splits)
    with False shift show ?thesis by (auto simp: fit_i128_def split: if_splits)
  qed
qed auto

lemma fit_i128_sint: "fit_i128 (sint v) = Some (sint v)" for v :: i128
  using sint_range_size [of v] by (simp add: fit_i128_def word_size)

lemma fit_i128_word: "fit_i128 i = Some i \<Longrightarrow> sint (of_int i :: i128) = i"
  by (simp add: fit_i128_def signed_of_int signed_take_bit_int_eq_self split: if_splits)

lemma parse_magnitude:
  fixes v :: i128
  assumes "sign = 1 \<or> sign = - 1" and "ds \<noteq> []"
  shows "bindE (parse_digits sign ovf 0 ds) (\<lambda>i. Inr (of_int i)) = Inr v \<longleftrightarrow>
     list_all is_digit ds \<and> sint v = sign * int (read_digits 0 ds)"
proof -
  have "bindE (parse_digits sign ovf 0 ds) (\<lambda>i. Inr (of_int i)) = Inr v \<longleftrightarrow>
      (\<exists>i. parse_digits sign ovf 0 ds = Inr i \<and> of_int i = v)" by auto
  also have "\<dots> \<longleftrightarrow> parse_digits sign ovf 0 ds = Inr (sint v)"
  proof -
    have "fit_i128 i = Some i" if "parse_digits sign ovf 0 ds = Inr i" for i
      using parse_digits_Inr [OF assms(1), of ovf 0 ds i] that assms(2) by auto
    then have "sint v = i" if "parse_digits sign ovf 0 ds = Inr i" "of_int i = v" for i
      using that fit_i128_word by fast
    moreover have "of_int (sint v) = v" by simp
    ultimately show ?thesis by metis
  qed
  also have "\<dots> \<longleftrightarrow> list_all is_digit ds \<and> sint v = sign * int (read_digits 0 ds)"
    using parse_digits_Inr [OF assms(1), of ovf 0 ds] fit_i128_sint [of v] by auto
  finally show ?thesis .
qed

lemma no_sign_digit [simp]: "\<not> is_digit CHR ''+''" "\<not> is_digit CHR ''-''"
  by (simp_all add: is_digit_def)

lemma denotes_cases:
  "denotes s i \<longleftrightarrow> (s \<noteq> [] \<and> list_all is_digit s \<and> i = int (read_digits 0 s))
     \<or> (\<exists>ds. s = CHR ''+'' # ds \<and> ds \<noteq> [] \<and> list_all is_digit ds \<and> i = int (read_digits 0 ds))
     \<or> (\<exists>ds. s = CHR ''-'' # ds \<and> ds \<noteq> [] \<and> list_all is_digit ds \<and> i = - int (read_digits 0 ds))"
  unfolding denotes_def by (simp add: ex_disj_distrib conj_disj_distribL conj_disj_distribR)

lemma denotes_simps:
  "\<not> denotes [] i"
  "denotes (CHR ''+'' # cs) i \<longleftrightarrow> cs \<noteq> [] \<and> list_all is_digit cs \<and> i = int (read_digits 0 cs)"
  "denotes (CHR ''-'' # cs) i \<longleftrightarrow> cs \<noteq> [] \<and> list_all is_digit cs \<and> i = - int (read_digits 0 cs)"
  "ch \<noteq> CHR ''+'' \<Longrightarrow> ch \<noteq> CHR ''-'' \<Longrightarrow>
     denotes (ch # cs) i \<longleftrightarrow> list_all is_digit (ch # cs) \<and> i = int (read_digits 0 (ch # cs))"
  by (simp_all add: denotes_cases)

lemma parse_i128_simps:
  "parse_i128 [] = Inl IntEmpty"
  "parse_i128 (CHR ''+'' # cs) =
     (if cs = [] then Inl InvalidDigit else bindE (parse_digits 1 PosOverflow 0 cs) (\<lambda>i. Inr (of_int i)))"
  "parse_i128 (CHR ''-'' # cs) =
     (if cs = [] then Inl InvalidDigit else bindE (parse_digits (- 1) NegOverflow 0 cs) (\<lambda>i. Inr (of_int i)))"
  "ch \<noteq> CHR ''+'' \<Longrightarrow> ch \<noteq> CHR ''-'' \<Longrightarrow>
     parse_i128 (ch # cs) = bindE (parse_digits 1 PosOverflow 0 (ch # cs)) (\<lambda>i. Inr (of_int i))"
  by (simp_all add: parse_i128_def del: parse_digits.simps)

lemma parse_i128_Inr: "parse_i128 s = Inr v \<longleftrightarrow> denotes s (sint v)"
proof (cases s)
  case Nil
  then show ?thesis by (simp add: parse_i128_simps denotes_simps)
next
  case (Cons ch cs)
  consider (plus) "ch = CHR ''+''" | (minus) "ch = CHR ''-''" | (digit) "ch \<noteq> CHR ''+''" "ch \<noteq> CHR ''-''"
    by blast
  then show ?thesis
  proof cases
    case plus
    show ?thesis
      using parse_magnitude [of 1 cs PosOverflow v]
      by (cases "cs = []") (simp_all only: Cons plus parse_i128_simps denotes_simps if_True if_False simp_thms sum.distinct mult_1)
  next
    case minus
    show ?thesis
      using parse_magnitude [of "- 1" cs NegOverflow v]
      by (cases "cs = []") (simp_all only: Cons minus parse_i128_simps denotes_simps if_True if_False simp_thms sum.distinct mult_minus1)
  next
    case digit
    show ?thesis
      using parse_magnitude [of 1 "ch # cs" PosOverflow v]
      by (simp only: Cons digit parse_i128_simps denotes_simps simp_thms list.distinct mult_1)
  qed
qed

lemma to_string_denotes: "denotes (i128_to_string v) (sint v)"
proof -
  have small: "nat (sint v) < 10 ^ 39" "nat (- sint v) < 10 ^ 39"
    using sint_range_size [of v] by (simp_all add: word_size) linarith+
  have digits: "list_all is_digit (digits_from 39 n)" for n
    using digits_from_digits by (auto simp: list_all_iff)
  have some: "digits_from 39 n \<noteq> []" for n
    using digits_from_Suc [of 38 n] by simp
  show ?thesis
  proof (cases "sint v < 0")
    case True
    with small digits some show ?thesis
      by (simp add: i128_to_string_def denotes_simps read_digits_from)
  next
    case False
    with small digits some show ?thesis
      by (simp add: i128_to_string_def denotes_cases read_digits_from)
  qed
qed

section \<open>The property\<close>

text \<open>
  C36. A stored correction is read back as it was. Whatever format carries the string, if it reads
  what it has written, a serialised integer deserialises to itself, whatever its sign. And no
  string is read as another number: the visitor accepts exactly the strings of an optional sign
  and at least one digit whose number is in the range of the type, and returns that number.
\<close>

theorem int128_round_trip:
  assumes "format_law S D" and "i128_serialize S v = Inr out"
  shows "i128_deserialize (D out) = Inr v \<and> (\<forall>s w. visit_str s = Inr w \<longleftrightarrow> denotes s (sint w))"
proof -
  have visit: "visit_str s = Inr w \<longleftrightarrow> denotes s (sint w)" for s w
    unfolding parse_i128_Inr [symmetric] by (cases "parse_i128 s") (simp_all add: visit_str_def)
  have "D out visit_str = visit_str (i128_to_string v)"
    using assms by (simp add: format_law_def i128_serialize_def)
  then show ?thesis using visit to_string_denotes by (simp add: i128_deserialize_def)
qed

text \<open>A format that writes a string between quotation marks.\<close>

definition quoting :: "string \<Rightarrow> string + string" where
  "quoting s = Inr ([CHR 0x22] @ s @ [CHR 0x22])"

definition unquoting :: "string \<Rightarrow> (string \<Rightarrow> string + i128) \<Rightarrow> string + i128" where
  "unquoting s visit = (if length s < 2 then Inl ''expected a string'' else visit (butlast (tl s)))"

lemma int128_round_trip_witness:
  "i128_to_string (- 8589934592) = ''-8589934592'' \<and> i128_deserialize (unquoting ([CHR 0x22] @ ''-8589934592'' @ [CHR 0x22])) = Inr (- 8589934592)
     \<and> visit_str ''+007'' = Inr 7"
proof -
  have law: "format_law quoting unquoting" by (simp add: format_law_def quoting_def unquoting_def)
  have str: "i128_to_string (- 8589934592) = ''-8589934592''"
    by (simp add: i128_to_string_def digits_from_rec char_of_def bit_0)
  then have "i128_serialize quoting (- 8589934592) = Inr ([CHR 0x22] @ ''-8589934592'' @ [CHR 0x22])"
    by (simp add: i128_serialize_def quoting_def)
  from int128_round_trip [OF law this] str show ?thesis
    by (simp add: denotes_simps is_digit_def digit_value_def)
qed

end
