(* ===== verification/DM_State.thy ===== *)
theory DM_State
  imports Voting_Math
begin

text \<open>
  The data of the dispute multisig (\<open>contracts/tgrade-dispute-multisig/src/state.rs\<close>, \<open>msg.rs\<close>
  and \<open>error.rs\<close>) and the functions on it: the tally, the quota, and the two decisions, passed
  and rejected, from which the status of the vote follows. \<open>Threshold\<close> and \<open>Duration\<close> are
  enumerations of \<open>cw_utils\<close>; only their constructors are used here, and the validation of a
  threshold is a parameter of the instantiation.
\<close>

section \<open>Data\<close>

datatype threshold =
  AbsoluteCount u64
| AbsolutePercentage decimal
| ThresholdQuorum decimal decimal

datatype duration = DurationHeight u64 | DurationTime u64

record dm_config =
  mc_parent :: addr
  mc_threshold :: threshold
  mc_total_weight :: u64
  mc_expires :: expiration
  mc_complaint_id :: u64

record dm_votes =
  mv_yes :: u64
  mv_no :: u64
  mv_abstain :: u64
  mv_veto :: u64

record dm_poll =
  mp_votes :: dm_votes
  mp_status :: status

record dm_ballot =
  mb_points :: u64
  mb_vote :: vote

datatype dm_error =
  DM_Std std_error
| DM_Threshold string
| DM_ZeroWeight
| DM_UnreachableWeight
| DM_NoVoters
| DM_Unauthorized
| DM_NotOpen
| DM_Expired
| DM_NotExpired
| DM_WrongExpiration
| DM_AlreadyVoted
| DM_WrongExecuteStatus
| DM_WrongCloseStatus
| DM_Panic

definition dm_load :: "'a option \<Rightarrow> dm_error + 'a" where
  "dm_load r = of_opt (DM_Std NotFound) r"

definition dm_or_panic :: "'a option \<Rightarrow> dm_error + 'a" where
  "dm_or_panic r = of_opt DM_Panic r"

lemma dm_opt_results [simp]:
  "dm_load r = Inr x \<longleftrightarrow> r = Some x"
  "dm_or_panic r = Inr x \<longleftrightarrow> r = Some x"
  "dm_load (Some x) = Inr x"
  "dm_or_panic (Some x) = Inr x"
  by (simp_all add: dm_load_def dm_or_panic_def)

section \<open>The tally\<close>

definition dm_votes_total :: "dm_votes \<Rightarrow> u64" where
  "dm_votes_total v = mv_yes v + mv_no v + mv_abstain v + mv_veto v"

definition dm_votes_yes :: "u64 \<Rightarrow> dm_votes" where
  "dm_votes_yes init_weight = \<lparr>mv_yes = init_weight, mv_no = 0, mv_abstain = 0, mv_veto = 0\<rparr>"

fun dm_add_vote :: "vote \<Rightarrow> u64 \<Rightarrow> dm_votes \<Rightarrow> dm_votes" where
  "dm_add_vote VYes weight v = v\<lparr>mv_yes := mv_yes v + weight\<rparr>"
| "dm_add_vote VAbstain weight v = v\<lparr>mv_abstain := mv_abstain v + weight\<rparr>"
| "dm_add_vote VNo weight v = v\<lparr>mv_no := mv_no v + weight\<rparr>"
| "dm_add_vote VVeto weight v = v\<lparr>mv_veto := mv_veto v + weight\<rparr>"

abbreviation dm_precision_factor :: u128 where "dm_precision_factor \<equiv> 1000000000"

definition dm_votes_needed :: "cw_lib \<Rightarrow> u64 \<Rightarrow> decimal \<Rightarrow> dm_error + u64" where
  "dm_votes_needed L weight percentage =
     bindE (dm_or_panic (l_mul_decimal L (dm_precision_factor * ucast weight) percentage)) (\<lambda>applied.
     Inr (ucast ((applied + dm_precision_factor - 1) div dm_precision_factor)))"

section \<open>The decisions\<close>

definition dm_is_passed :: "cw_lib \<Rightarrow> block_info \<Rightarrow> dm_config \<Rightarrow> dm_poll \<Rightarrow> dm_error + bool" where
  "dm_is_passed L block cfg poll =
     (let votes = mp_votes poll in
      case mc_threshold cfg of
        AbsoluteCount weight_needed \<Rightarrow> Inr (weight_needed \<le> mv_yes votes)
      | AbsolutePercentage percentage_needed \<Rightarrow>
          bindE (dm_votes_needed L (mc_total_weight cfg - mv_abstain votes) percentage_needed)
            (\<lambda>n. Inr (n \<le> mv_yes votes))
      | ThresholdQuorum threshold quorum \<Rightarrow>
          bindE (dm_votes_needed L (mc_total_weight cfg) quorum) (\<lambda>quorum_votes.
          if dm_votes_total votes < quorum_votes then Inr False
          else if l_is_expired L (mc_expires cfg) block then
            let opinions = dm_votes_total votes - mv_abstain votes in
            bindE (dm_votes_needed L opinions threshold) (\<lambda>n. Inr (n \<le> mv_yes votes))
          else
            let possible_opinions = mc_total_weight cfg - mv_abstain votes in
            bindE (dm_votes_needed L possible_opinions threshold) (\<lambda>n. Inr (n \<le> mv_yes votes))))"

text \<open>\<open>Decimal::one() - p\<close> aborts for a percentage above one.\<close>

definition dm_is_rejected :: "cw_lib \<Rightarrow> block_info \<Rightarrow> dm_config \<Rightarrow> dm_poll \<Rightarrow> dm_error + bool" where
  "dm_is_rejected L block cfg poll =
     (let votes = mp_votes poll in
      case mc_threshold cfg of
        AbsoluteCount weight_needed \<Rightarrow>
          let weight = mc_total_weight cfg - weight_needed in Inr (weight < mv_no votes)
      | AbsolutePercentage percentage_needed \<Rightarrow>
          bindE (dm_or_panic (fit_sub decimal_one percentage_needed)) (\<lambda>rest.
          bindE (dm_votes_needed L (mc_total_weight cfg - mv_abstain votes) rest)
            (\<lambda>n. Inr (n < mv_no votes)))
      | ThresholdQuorum threshold _ \<Rightarrow>
          if l_is_expired L (mc_expires cfg) block then
            let opinions = dm_votes_total votes - mv_abstain votes in
            bindE (dm_or_panic (fit_sub decimal_one threshold)) (\<lambda>rest.
            bindE (dm_votes_needed L opinions rest) (\<lambda>n. Inr (n < mv_no votes)))
          else
            let possible_opinions = mc_total_weight cfg - mv_abstain votes in
            bindE (dm_or_panic (fit_sub decimal_one threshold)) (\<lambda>rest.
            bindE (dm_votes_needed L possible_opinions rest) (\<lambda>n. Inr (n < mv_no votes))))"

definition dm_current_status ::
  "cw_lib \<Rightarrow> block_info \<Rightarrow> dm_config \<Rightarrow> dm_poll \<Rightarrow> dm_error + status" where
  "dm_current_status L block cfg poll =
     bindE (if mp_status poll = StOpen then dm_is_passed L block cfg poll else Inr False) (\<lambda>passed.
     let status = (if passed then StPassed else mp_status poll) in
     bindE (if status = StOpen then dm_is_rejected L block cfg poll else Inr False) (\<lambda>rejected.
     Inr (if status = StOpen \<and> (rejected \<or> l_is_expired L (mc_expires cfg) block)
          then StRejected else status)))"

definition dm_update_status ::
  "cw_lib \<Rightarrow> block_info \<Rightarrow> dm_config \<Rightarrow> dm_poll \<Rightarrow> dm_error + dm_poll" where
  "dm_update_status L block cfg poll =
     bindE (dm_current_status L block cfg poll) (\<lambda>status. Inr (poll\<lparr>mp_status := status\<rparr>))"

end
