(* ===== verification/DM_Contract.thy ===== *)
theory DM_Contract
  imports DM_State Paging
begin

text \<open>
  The dispute multisig (\<open>contracts/tgrade-dispute-multisig/src/contract.rs\<close>): a vote among fixed
  voters on one complaint. Its storage, the entry points with every handler, the queries, and the
  contract as a state machine whose steps carry the block, since its decisions depend on time.
\<close>

section \<open>Storage and messages\<close>

record dm_state =
  ms_version :: "(string \<times> string) option"
  ms_config :: "dm_config option"
  ms_poll :: "dm_poll option"
  ms_ballots :: "(addr, dm_ballot) store"
  ms_voters :: "(addr, u64) store"

definition dm_empty :: dm_state where
  "dm_empty = \<lparr>ms_version = None, ms_config = None, ms_poll = None, ms_ballots = [], ms_voters = []\<rparr>"

record dm_voter =
  vo_addr :: string
  vo_weight :: u64

record dm_instantiate_msg =
  mi_voters :: "dm_voter list"
  mi_threshold :: threshold
  mi_max_voting_period :: duration
  mi_complaint_id :: u64

datatype dm_execute_msg =
  DM_Vote vote
| DM_Execute string string
| DM_Close

text \<open>What the contract sends: one call of its parent.\<close>

datatype parent_exec_msg = RenderDecision u64 string string

datatype dm_msg = WasmExecute addr parent_exec_msg "coin list"

type_synonym dm_result = "dm_error + (dm_state \<times> dm_msg response)"

section \<open>Instantiation\<close>

text \<open>The sum of the weights is a native sum: it wraps.\<close>

definition dm_total_weight :: "dm_voter list \<Rightarrow> u64" where
  "dm_total_weight vs = sum_list (map vo_weight vs)"

definition dm_expires :: "cw_lib \<Rightarrow> env \<Rightarrow> duration \<Rightarrow> expiration" where
  "dm_expires L env d =
     (case d of
        DurationHeight h \<Rightarrow> AtHeight (b_height (e_block env) + h)
      | DurationTime s \<Rightarrow> AtTime (l_plus_seconds L (b_time (e_block env)) s))"

definition dm_add_voter :: "cw_lib \<Rightarrow> dm_state \<Rightarrow> dm_voter \<Rightarrow> dm_error + dm_state" where
  "dm_add_voter L s v =
     bindE (map_err DM_Std (l_addr_validate L (vo_addr v))) (\<lambda>key.
     Inr (s\<lparr>ms_voters := sput key (vo_weight v) (ms_voters s)\<rparr>))"

definition dm_instantiate ::
  "cw_lib \<Rightarrow> (threshold \<Rightarrow> u64 \<Rightarrow> string + unit) \<Rightarrow> env \<Rightarrow> message_info \<Rightarrow>
   dm_instantiate_msg \<Rightarrow> dm_state \<Rightarrow> dm_result" where
  "dm_instantiate L V env info msg s =
     (if mi_voters msg = [] then Inl DM_NoVoters
      else
        let total_weight = dm_total_weight (mi_voters msg) in
        bindE (map_err DM_Threshold (V (mi_threshold msg) total_weight)) (\<lambda>_.
        let s = s\<lparr>ms_version := Some (''crates.io:tg3-dispute-multisig'', ''0.15.0'')\<rparr>;
            expires = dm_expires L env (mi_max_voting_period msg);
            s = s\<lparr>ms_config := Some \<lparr>mc_parent = i_sender info, mc_threshold = mi_threshold msg,
                  mc_total_weight = total_weight, mc_expires = expires,
                  mc_complaint_id = mi_complaint_id msg\<rparr>\<rparr>;
            s = s\<lparr>ms_poll := Some \<lparr>mp_votes = \<lparr>mv_yes = 0, mv_no = 0, mv_abstain = 0, mv_veto = 0\<rparr>,
                  mp_status = StOpen\<rparr>\<rparr>
        in bindE (foldE (dm_add_voter L) s (mi_voters msg)) (\<lambda>s. Inr (s, new_response))))"

section \<open>Handlers\<close>

definition dm_execute_vote ::
  "cw_lib \<Rightarrow> env \<Rightarrow> message_info \<Rightarrow> vote \<Rightarrow> dm_state \<Rightarrow> dm_result" where
  "dm_execute_vote L env info vote s =
     bindE (case sget (ms_voters s) (i_sender info) of
         Some w \<Rightarrow> if 1 \<le> w then Inr w else Inl DM_Unauthorized
       | None \<Rightarrow> Inl DM_Unauthorized) (\<lambda>vote_power.
     bindE (dm_load (ms_config s)) (\<lambda>cfg.
     bindE (dm_load (ms_poll s)) (\<lambda>poll.
     if mp_status poll \<notin> {StOpen, StPassed, StRejected} then Inl DM_NotOpen
     else if l_is_expired L (mc_expires cfg) (e_block env) then Inl DM_Expired
     else bindE (case sget (ms_ballots s) (i_sender info) of
         Some _ \<Rightarrow> Inl DM_AlreadyVoted
       | None \<Rightarrow> Inr (s\<lparr>ms_ballots := sput (i_sender info)
           \<lparr>mb_points = vote_power, mb_vote = vote\<rparr> (ms_ballots s)\<rparr>)) (\<lambda>s.
     let poll = poll\<lparr>mp_votes := dm_add_vote vote vote_power (mp_votes poll)\<rparr> in
     bindE (dm_update_status L (e_block env) cfg poll) (\<lambda>poll.
     Inr (s\<lparr>ms_poll := Some poll\<rparr>,
       add_attr ''status'' (AStatus (mp_status poll)) (add_attr ''sender'' (AStr (i_sender info))
         (add_attr ''action'' (AStr ''vote'') new_response))))))))"

definition dm_execute_execute ::
  "cw_lib \<Rightarrow> env \<Rightarrow> message_info \<Rightarrow> string \<Rightarrow> string \<Rightarrow> dm_state \<Rightarrow> dm_result" where
  "dm_execute_execute L env info summary ipfs_link s =
     bindE (dm_load (ms_config s)) (\<lambda>cfg.
     bindE (dm_load (ms_poll s)) (\<lambda>poll.
     bindE (dm_update_status L (e_block env) cfg poll) (\<lambda>poll.
     if mp_status poll \<noteq> StPassed then Inl DM_WrongExecuteStatus
     else
       let poll = poll\<lparr>mp_status := StExecuted\<rparr>;
           render_decision = RenderDecision (mc_complaint_id cfg) summary ipfs_link
       in Inr (s\<lparr>ms_poll := Some poll\<rparr>,
         add_attr ''sender'' (AStr (i_sender info)) (add_attr ''action'' (AStr ''execute'')
           (add_message (WasmExecute (mc_parent cfg) render_decision []) new_response))))))"

definition dm_execute_close :: "cw_lib \<Rightarrow> env \<Rightarrow> message_info \<Rightarrow> dm_state \<Rightarrow> dm_result" where
  "dm_execute_close L env info s =
     bindE (dm_load (ms_config s)) (\<lambda>cfg.
     bindE (dm_load (ms_poll s)) (\<lambda>poll.
     if mp_status poll \<in> {StExecuted, StRejected, StPassed} then Inl DM_WrongCloseStatus
     else bindE (dm_current_status L (e_block env) cfg poll) (\<lambda>status.
     if status = StPassed then Inl DM_WrongCloseStatus
     else if \<not> l_is_expired L (mc_expires cfg) (e_block env) then Inl DM_NotExpired
     else
       let poll = poll\<lparr>mp_status := StRejected\<rparr> in
       Inr (s\<lparr>ms_poll := Some poll\<rparr>,
         add_attr ''sender'' (AStr (i_sender info)) (add_attr ''action'' (AStr ''close'') new_response)))))"

definition dm_execute ::
  "cw_lib \<Rightarrow> env \<Rightarrow> message_info \<Rightarrow> dm_execute_msg \<Rightarrow> dm_state \<Rightarrow> dm_result" where
  "dm_execute L env info msg s =
     (case msg of
        DM_Vote vote \<Rightarrow> dm_execute_vote L env info vote s
      | DM_Execute summary ipfs_link \<Rightarrow> dm_execute_execute L env info summary ipfs_link s
      | DM_Close \<Rightarrow> dm_execute_close L env info s)"

text \<open>The check of the stored version belongs to a package; it may also write the new one.\<close>

definition dm_migrate ::
  "((string \<times> string) option \<Rightarrow> string \<Rightarrow> string \<Rightarrow> std_error + (string \<times> string) option) \<Rightarrow>
   dm_state \<Rightarrow> dm_result" where
  "dm_migrate E s =
     bindE (map_err DM_Std (E (ms_version s) ''crates.io:tg3-dispute-multisig'' ''0.15.0'')) (\<lambda>v.
     Inr (s\<lparr>ms_version := v\<rparr>, new_response))"

section \<open>Queries\<close>

definition dm_load_q :: "'a option \<Rightarrow> std_error + 'a" where
  "dm_load_q r = of_opt NotFound r"

lemma dm_load_q_simps [simp]: "dm_load_q (Some x) = Inr x" "dm_load_q r = Inr x \<longleftrightarrow> r = Some x"
  by (simp_all add: dm_load_q_def)

definition dm_query_threshold :: "(threshold \<Rightarrow> u64 \<Rightarrow> 'r) \<Rightarrow> dm_state \<Rightarrow> std_error + 'r" where
  "dm_query_threshold R s =
     bindE (dm_load_q (ms_config s)) (\<lambda>cfg. Inr (R (mc_threshold cfg) (mc_total_weight cfg)))"

record dm_vote_info =
  mvi_proposal_id :: u64
  mvi_voter :: string
  mvi_vote :: vote
  mvi_points :: u64

definition dm_vote_info_of :: "dm_config \<Rightarrow> addr \<times> dm_ballot \<Rightarrow> dm_vote_info" where
  "dm_vote_info_of cfg e = \<lparr>mvi_proposal_id = mc_complaint_id cfg, mvi_voter = fst e,
     mvi_vote = mb_vote (snd e), mvi_points = mb_points (snd e)\<rparr>"

definition dm_query_vote :: "string \<Rightarrow> dm_state \<Rightarrow> std_error + dm_vote_info option" where
  "dm_query_vote voter s =
     (let ballot = sget (ms_ballots s) voter in
      bindE (dm_load_q (ms_config s)) (\<lambda>cfg.
      Inr (map_option (\<lambda>b. dm_vote_info_of cfg (voter, b)) ballot)))"

definition dm_page_limit :: "u32 option \<Rightarrow> nat" where
  "dm_page_limit limit = unat (min (case limit of None \<Rightarrow> 10 | Some l \<Rightarrow> l) 30)"

definition dm_list_votes ::
  "string option \<Rightarrow> u32 option \<Rightarrow> dm_state \<Rightarrow> std_error + dm_vote_info list" where
  "dm_list_votes start_after limit s =
     bindE (dm_load_q (ms_config s)) (\<lambda>cfg.
     Inr (map (dm_vote_info_of cfg) (page_of (dm_page_limit limit) start_after (ms_ballots s))))"

definition dm_query_voter :: "cw_lib \<Rightarrow> string \<Rightarrow> dm_state \<Rightarrow> std_error + u64 option" where
  "dm_query_voter L voter s =
     bindE (l_addr_validate L voter) (\<lambda>voter. Inr (sget (ms_voters s) voter))"

definition dm_list_voters ::
  "string option \<Rightarrow> u32 option \<Rightarrow> dm_state \<Rightarrow> std_error + dm_voter list" where
  "dm_list_voters start_after limit s =
     Inr (map (\<lambda>(addr, points). \<lparr>vo_addr = addr, vo_weight = points\<rparr>)
       (page_of (dm_page_limit limit) start_after (ms_voters s)))"

definition dm_query_status :: "dm_state \<Rightarrow> std_error + status" where
  "dm_query_status s = bindE (dm_load_q (ms_poll s)) (\<lambda>poll. Inr (mp_status poll))"

definition dm_query_complaint_id :: "dm_state \<Rightarrow> std_error + u64" where
  "dm_query_complaint_id s = bindE (dm_load_q (ms_config s)) (\<lambda>cfg. Inr (mc_complaint_id cfg))"

text \<open>The parent's answer to a query for a complaint.\<close>

datatype dm_complaint_state =
  DMC_Initiated expiration
| DMC_Waiting expiration
| DMC_Withdrawn string
| DMC_Aborted
| DMC_Accepted
| DMC_Processing addr
| DMC_Closed string string

record dm_complaint_resp =
  dcr_title :: string
  dcr_description :: string
  dcr_plaintiff :: addr
  dcr_defendant :: addr
  dcr_state :: dm_complaint_state

definition dm_query_complaint ::
  "(addr \<Rightarrow> u64 \<Rightarrow> std_error + dm_complaint_resp) \<Rightarrow> dm_state \<Rightarrow> std_error + dm_complaint_resp" where
  "dm_query_complaint P s =
     bindE (dm_load_q (ms_config s)) (\<lambda>cfg. P (mc_parent cfg) (mc_complaint_id cfg))"

datatype dm_query_msg =
  DMQ_Threshold
| DMQ_Vote string
| DMQ_ListVotes "string option" "u32 option"
| DMQ_Voter string
| DMQ_ListVoters "string option" "u32 option"
| DMQ_Status
| DMQ_ComplaintId
| DMQ_Complaint

datatype 'r dm_answer =
  DMA_Threshold 'r
| DMA_Vote "dm_vote_info option"
| DMA_Votes "dm_vote_info list"
| DMA_Voter "u64 option"
| DMA_Voters "dm_voter list"
| DMA_Status status
| DMA_ComplaintId u64
| DMA_Complaint dm_complaint_resp

definition dm_answer_with :: "('a \<Rightarrow> 'r dm_answer) \<Rightarrow> std_error + 'a \<Rightarrow> std_error + 'r dm_answer" where
  "dm_answer_with f r = bindE r (\<lambda>x. Inr (f x))"

definition dm_query ::
  "cw_lib \<Rightarrow> (threshold \<Rightarrow> u64 \<Rightarrow> 'r) \<Rightarrow> (addr \<Rightarrow> u64 \<Rightarrow> std_error + dm_complaint_resp) \<Rightarrow>
   dm_query_msg \<Rightarrow> dm_state \<Rightarrow> std_error + 'r dm_answer" where
  "dm_query L R P msg s =
     (case msg of
        DMQ_Threshold \<Rightarrow> dm_answer_with DMA_Threshold (dm_query_threshold R s)
      | DMQ_Vote voter \<Rightarrow> dm_answer_with DMA_Vote (dm_query_vote voter s)
      | DMQ_ListVotes start limit \<Rightarrow> dm_answer_with DMA_Votes (dm_list_votes start limit s)
      | DMQ_Voter a \<Rightarrow> dm_answer_with DMA_Voter (dm_query_voter L a s)
      | DMQ_ListVoters start limit \<Rightarrow> dm_answer_with DMA_Voters (dm_list_voters start limit s)
      | DMQ_Status \<Rightarrow> dm_answer_with DMA_Status (dm_query_status s)
      | DMQ_ComplaintId \<Rightarrow> dm_answer_with DMA_ComplaintId (dm_query_complaint_id s)
      | DMQ_Complaint \<Rightarrow> dm_answer_with DMA_Complaint (dm_query_complaint P s))"

text \<open>
  The listings as a client reads them. Once instantiated, the ballots are the items of the
  listing of votes; before, that listing fails.
\<close>

definition dm_voters_page :: "u32 option \<Rightarrow> dm_state \<Rightarrow> string option \<Rightarrow> dm_voter list" where
  "dm_voters_page limit s start = (case dm_list_voters start limit s of Inr vs \<Rightarrow> vs | Inl _ \<Rightarrow> [])"

definition dm_votes_page :: "u32 option \<Rightarrow> dm_state \<Rightarrow> string option \<Rightarrow> dm_vote_info list" where
  "dm_votes_page limit s start = (case dm_list_votes start limit s of Inr vs \<Rightarrow> vs | Inl _ \<Rightarrow> [])"

definition dm_cast :: "dm_state \<Rightarrow> (addr, dm_ballot) store" where
  "dm_cast s = (case ms_config s of None \<Rightarrow> [] | Some _ \<Rightarrow> ms_ballots s)"

lemma dm_page_limit_pos: "limit \<noteq> Some 0 \<Longrightarrow> 0 < dm_page_limit limit"
  by (cases limit) (auto simp: dm_page_limit_def min_def unat_gt_0)

lemma dm_voters_listing:
  "limit \<noteq> Some 0 \<Longrightarrow> paged_listing (dm_voters_page limit) ms_voters (dm_page_limit limit)
     (\<lambda>_ (a, w). \<lparr>vo_addr = a, vo_weight = w\<rparr>) vo_addr"
  by unfold_locales (auto simp: dm_page_limit_pos dm_voters_page_def dm_list_voters_def)

lemma dm_votes_listing:
  "limit \<noteq> Some 0 \<Longrightarrow> paged_listing (dm_votes_page limit) dm_cast (dm_page_limit limit)
     (\<lambda>s. dm_vote_info_of (the (ms_config s))) mvi_voter"
  by unfold_locales
     (auto simp: dm_page_limit_pos dm_votes_page_def dm_list_votes_def dm_cast_def dm_vote_info_of_def
       dm_load_q_def page_of_def safter_def split: option.splits)

interpretation dm_voters_by_ten: paged_listing "dm_voters_page None" ms_voters "dm_page_limit None"
  "\<lambda>_ (a, w). \<lparr>vo_addr = a, vo_weight = w\<rparr>" vo_addr
  by (rule dm_voters_listing) simp

interpretation dm_votes_by_ten: paged_listing "dm_votes_page None" dm_cast "dm_page_limit None"
  "\<lambda>s. dm_vote_info_of (the (ms_config s))" mvi_voter
  by (rule dm_votes_listing) simp

section \<open>The contract as a state machine\<close>

lemma expired_stays: "expiry_law L \<Longrightarrow> b \<le> b' \<Longrightarrow> l_is_expired L e b \<Longrightarrow> l_is_expired L e b'"
  by (cases e) (auto simp: expiry_law_def block_le_iff intro: order_trans)

text \<open>
  \<open>dm_run L V b s ms\<close>: the contract can be in state \<open>s\<close> at block \<open>b\<close>, having sent the messages
  \<open>ms\<close>. Weights that do not sum to a \<open>u64\<close> are excluded at instantiation.
\<close>

inductive dm_run ::
  "cw_lib \<Rightarrow> (threshold \<Rightarrow> u64 \<Rightarrow> string + unit) \<Rightarrow> block_info \<Rightarrow> dm_state \<Rightarrow> dm_msg list \<Rightarrow> bool"
  for L V where
  dm_start: "dm_instantiate L V env info msg dm_empty = Inr (s, r) \<Longrightarrow>
     (\<Sum>v\<leftarrow>mi_voters msg. unat (vo_weight v)) < 2 ^ 64 \<Longrightarrow>
     dm_run L V (e_block env) s (r_messages r)"
| dm_call: "dm_run L V b s ms \<Longrightarrow> dm_execute L env info msg s = Inr (s', r) \<Longrightarrow>
     b \<le> e_block env \<Longrightarrow> dm_run L V (e_block env) s' (ms @ r_messages r)"
| dm_wait: "dm_run L V b s ms \<Longrightarrow> b \<le> b' \<Longrightarrow> dm_run L V b' s ms"

end
