(* ===== verification/DM_Rule.thy ===== *)
theory DM_Rule
  imports DM_Contract
begin

text \<open>
  The decision rules of the dispute multisig on natural numbers, and the proof that
  \<open>is_passed\<close> and \<open>is_rejected\<close> compute them: no vote is both passed and rejected, and either
  decision, once taken before the end, is final.
\<close>

section \<open>The abstract rules\<close>

datatype nat_rule = CountRule nat | ShareRule nat | QuorumRule nat nat

fun rule_valid :: "nat \<Rightarrow> nat_rule \<Rightarrow> bool" where
  "rule_valid p (CountRule w) \<longleftrightarrow> 0 < w \<and> w \<le> p"
| "rule_valid p (ShareRule d) \<longleftrightarrow> d \<le> 10 ^ 18"
| "rule_valid p (QuorumRule thr q) \<longleftrightarrow> thr \<le> 10 ^ 18 \<and> q \<le> 10 ^ 18"

fun rule_passes :: "bool \<Rightarrow> nat \<Rightarrow> nat_rule \<Rightarrow> tally_nat \<Rightarrow> bool" where
  "rule_passes ended p (CountRule w) t \<longleftrightarrow> w \<le> t_yes t"
| "rule_passes ended p (ShareRule d) t \<longleftrightarrow> quota (p - t_abstain t) d \<le> t_yes t"
| "rule_passes ended p (QuorumRule thr q) t \<longleftrightarrow> tally_passes ended p q thr t"

fun rule_rejects :: "bool \<Rightarrow> nat \<Rightarrow> nat_rule \<Rightarrow> tally_nat \<Rightarrow> bool" where
  "rule_rejects ended p (CountRule w) t \<longleftrightarrow> p - w < t_no t"
| "rule_rejects ended p (ShareRule d) t \<longleftrightarrow> quota (p - t_abstain t) (10 ^ 18 - d) < t_no t"
| "rule_rejects ended p (QuorumRule thr q) t \<longleftrightarrow>
     quota ((if ended then t_total t else p) - t_abstain t) (10 ^ 18 - thr) < t_no t"

lemma passed_is_final:
  assumes "rule_passes False p r t" and "t_extends p t t'"
  shows "rule_passes ended p r t'"
proof (cases r)
  case (ShareRule d)
  have "quota (p - t_abstain t') d \<le> quota (p - t_abstain t) d"
    using assms(2) by (intro quota_mono) (auto simp: t_extends_def)
  also have "\<dots> \<le> t_yes t'" using assms ShareRule by (auto simp: t_extends_def)
  finally show ?thesis using ShareRule by simp
next
  case (QuorumRule thr q)
  then show ?thesis using assms early_pass_final by simp
qed (use assms in \<open>auto simp: t_extends_def\<close>)

lemma rejected_is_final:
  assumes "rule_rejects False p r t" and "t_extends p t t'"
  shows "rule_rejects ended p r t'"
proof (cases r)
  case (ShareRule d)
  have "quota (p - t_abstain t') (10 ^ 18 - d) \<le> quota (p - t_abstain t) (10 ^ 18 - d)"
    using assms(2) by (intro quota_mono) (auto simp: t_extends_def)
  also have "\<dots> < t_no t'" using assms ShareRule by (auto simp: t_extends_def)
  finally show ?thesis using ShareRule by simp
next
  case (QuorumRule thr q)
  have "quota ((if ended then t_total t' else p) - t_abstain t') (10 ^ 18 - thr)
      \<le> quota (p - t_abstain t) (10 ^ 18 - thr)"
    using assms(2) by (intro quota_mono) (auto simp: t_extends_def)
  also have "\<dots> < t_no t'" using assms QuorumRule by (auto simp: t_extends_def)
  finally show ?thesis using QuorumRule by simp
qed (use assms in \<open>auto simp: t_extends_def\<close>)

lemma never_both:
  assumes "rule_valid p r" and "t_total t \<le> p" and "rule_rejects ended p r t"
  shows "\<not> rule_passes ended p r t"
proof (cases r)
  case (CountRule w)
  with assms show ?thesis by (auto simp: t_total_def)
next
  case (ShareRule d)
  have "t_yes t + t_no t \<le> p - t_abstain t" using assms(2) by (simp add: t_total_def)
  with assms ShareRule quota_complement [of d "t_yes t" "t_no t" "p - t_abstain t"]
  show ?thesis by simp
next
  case (QuorumRule thr q)
  let ?p = "(if ended then t_total t else p) - t_abstain t"
  have "t_yes t + t_no t \<le> ?p" using assms(2) by (auto simp: t_total_def)
  with assms QuorumRule quota_complement [of thr "t_yes t" "t_no t" ?p]
  show ?thesis by (simp add: tally_passes_def)
qed

lemma rule_ends:
  assumes "t_total t \<le> p"
  shows "rule_passes False p r t \<Longrightarrow> rule_passes ended p r t"
    and "rule_rejects False p r t \<Longrightarrow> rule_rejects ended p r t"
proof -
  have "t_extends p t t" using assms by (simp add: t_extends_def)
  then show "rule_passes False p r t \<Longrightarrow> rule_passes ended p r t"
    "rule_rejects False p r t \<Longrightarrow> rule_rejects ended p r t"
    using passed_is_final rejected_is_final by blast+
qed

section \<open>The code computes the rules\<close>

definition dm_nat_votes :: "dm_votes \<Rightarrow> tally_nat" where
  "dm_nat_votes v = \<lparr>t_yes = unat (mv_yes v), t_no = unat (mv_no v), t_abstain = unat (mv_abstain v),
     t_veto = unat (mv_veto v)\<rparr>"

fun nat_rule_of :: "threshold \<Rightarrow> nat_rule" where
  "nat_rule_of (AbsoluteCount w) = CountRule (unat w)"
| "nat_rule_of (AbsolutePercentage d) = ShareRule (unat d)"
| "nat_rule_of (ThresholdQuorum thr q) = QuorumRule (unat thr) (unat q)"

text \<open>
  What the validation of a threshold guarantees, as \<open>cw_utils\<close> documents it: a count between one
  and the total weight, percentages above zero and at most one.
\<close>

fun threshold_ok :: "threshold \<Rightarrow> u64 \<Rightarrow> bool" where
  "threshold_ok (AbsoluteCount w) t \<longleftrightarrow> 0 < w \<and> w \<le> t"
| "threshold_ok (AbsolutePercentage d) t \<longleftrightarrow> 0 < d \<and> d \<le> decimal_one"
| "threshold_ok (ThresholdQuorum thr q) t \<longleftrightarrow> 0 < thr \<and> thr \<le> decimal_one \<and> 0 < q \<and> q \<le> decimal_one"

definition threshold_law :: "(threshold \<Rightarrow> u64 \<Rightarrow> string + unit) \<Rightarrow> bool" where
  "threshold_law V \<longleftrightarrow> (\<forall>th t. V th t = Inr () \<longrightarrow> threshold_ok th t)"

lemma threshold_ok_valid: "threshold_ok th t \<Longrightarrow> rule_valid (unat t) (nat_rule_of th)"
  by (cases th) (auto simp: word_le_nat_alt word_less_nat_alt)

abbreviation dm_passes :: "bool \<Rightarrow> dm_config \<Rightarrow> dm_poll \<Rightarrow> bool" where
  "dm_passes ended cfg poll \<equiv> rule_passes ended (unat (mc_total_weight cfg))
     (nat_rule_of (mc_threshold cfg)) (dm_nat_votes (mp_votes poll))"

abbreviation dm_rejects :: "bool \<Rightarrow> dm_config \<Rightarrow> dm_poll \<Rightarrow> bool" where
  "dm_rejects ended cfg poll \<equiv> rule_rejects ended (unat (mc_total_weight cfg))
     (nat_rule_of (mc_threshold cfg)) (dm_nat_votes (mp_votes poll))"

text \<open>A sound configuration, and no more weight counted than there is.\<close>

definition dm_sound :: "dm_config \<Rightarrow> dm_poll \<Rightarrow> bool" where
  "dm_sound cfg poll \<longleftrightarrow> threshold_ok (mc_threshold cfg) (mc_total_weight cfg)
     \<and> t_total (dm_nat_votes (mp_votes poll)) \<le> unat (mc_total_weight cfg)"

lemma dm_votes_needed_quota:
  assumes "decimal_law L" and "d \<le> decimal_one"
  shows "\<exists>n. dm_votes_needed L p d = Inr n \<and> unat n = quota (unat p) (unat d)"
  using quota_word [OF assms, of p] by (auto simp: dm_votes_needed_def)

interpretation dmq: quota_rule dm_votes_needed
  by unfold_locales (rule dm_votes_needed_quota)

lemma dm_votes_total_nat:
  assumes "dm_sound cfg poll"
  shows "unat (dm_votes_total (mp_votes poll)) = t_total (dm_nat_votes (mp_votes poll))"
  using sum4_unat [of "mv_yes (mp_votes poll)" "mv_no (mp_votes poll)" "mv_abstain (mp_votes poll)"
      "mv_veto (mp_votes poll)" "mc_total_weight cfg"] assms
  by (simp add: dm_sound_def dm_votes_total_def t_total_def dm_nat_votes_def)

lemma dm_minus_abstain:
  assumes "dm_sound cfg poll" and "q = dm_votes_total (mp_votes poll) \<or> q = mc_total_weight cfg"
  shows "unat (q - mv_abstain (mp_votes poll)) = unat q - t_abstain (dm_nat_votes (mp_votes poll))"
proof -
  have "unat (mv_abstain (mp_votes poll)) \<le> unat q"
    using assms dm_votes_total_nat [OF assms(1)] by (auto simp: dm_sound_def t_total_def dm_nat_votes_def)
  then show ?thesis by (simp add: unat_sub word_le_nat_alt dm_nat_votes_def)
qed

lemma dm_is_passed_refines:
  assumes "decimal_law L" and "dm_sound cfg poll"
  shows "dm_is_passed L b cfg poll = Inr (dm_passes (l_is_expired L (mc_expires cfg) b) cfg poll)"
proof -
  let ?v = "mp_votes poll" and ?t = "mc_total_weight cfg"
  note sub = dm_minus_abstain [OF assms(2)] and tot = dm_votes_total_nat [OF assms(2)]
  have ok: "threshold_ok (mc_threshold cfg) ?t" using assms(2) by (simp add: dm_sound_def)
  have yes: "unat (mv_yes ?v) = t_yes (dm_nat_votes ?v)" by (simp add: dm_nat_votes_def)
  show ?thesis
  proof (cases "mc_threshold cfg")
    case (AbsoluteCount w)
    then show ?thesis by (simp add: dm_is_passed_def Let_def word_le_nat_alt yes)
  next
    case (AbsolutePercentage d)
    then obtain n where "dm_votes_needed L (?t - mv_abstain ?v) d = Inr n"
      "unat n = quota (unat (?t - mv_abstain ?v)) (unat d)"
      using dm_votes_needed_quota [OF assms(1), of d] ok by fastforce
    then show ?thesis
      using AbsolutePercentage sub [of ?t] by (simp add: dm_is_passed_def Let_def word_le_nat_alt yes)
  next
    case (ThresholdQuorum thr q)
    then have le: "thr \<le> decimal_one" "q \<le> decimal_one" using ok by auto
    obtain nq where nq: "dm_votes_needed L ?t q = Inr nq" "unat nq = quota (unat ?t) (unat q)"
      using dm_votes_needed_quota [OF assms(1) le(2)] by blast
    obtain nt where nt: "dm_votes_needed L (dm_votes_total ?v - mv_abstain ?v) thr = Inr nt"
      "unat nt = quota (unat (dm_votes_total ?v - mv_abstain ?v)) (unat thr)"
      using dm_votes_needed_quota [OF assms(1) le(1)] by blast
    obtain np where np: "dm_votes_needed L (?t - mv_abstain ?v) thr = Inr np"
      "unat np = quota (unat (?t - mv_abstain ?v)) (unat thr)"
      using dm_votes_needed_quota [OF assms(1) le(1)] by blast
    show ?thesis
      using sub [of ?t] sub [of "dm_votes_total ?v"]
      by (auto simp: dm_is_passed_def ThresholdQuorum Let_def nq nt np tally_passes_def
          word_less_nat_alt word_le_nat_alt tot yes)
  qed
qed

lemma fit_one_minus:
  "d \<le> decimal_one \<Longrightarrow> fit_sub decimal_one d = Some (decimal_one - d)
     \<and> decimal_one - d \<le> decimal_one \<and> unat (decimal_one - d) = 10 ^ 18 - unat d"
  by (auto simp: fit_sub_def word_le_nat_alt unat_sub)

lemma dm_is_rejected_refines:
  assumes "decimal_law L" and "dm_sound cfg poll"
  shows "dm_is_rejected L b cfg poll = Inr (dm_rejects (l_is_expired L (mc_expires cfg) b) cfg poll)"
proof -
  let ?v = "mp_votes poll" and ?t = "mc_total_weight cfg"
  note sub = dm_minus_abstain [OF assms(2)] and tot = dm_votes_total_nat [OF assms(2)]
  have ok: "threshold_ok (mc_threshold cfg) ?t" using assms(2) by (simp add: dm_sound_def)
  have no: "unat (mv_no ?v) = t_no (dm_nat_votes ?v)" by (simp add: dm_nat_votes_def)
  show ?thesis
  proof (cases "mc_threshold cfg")
    case (AbsoluteCount w)
    then show ?thesis
      using ok by (simp add: dm_is_rejected_def Let_def word_less_nat_alt no unat_sub word_le_nat_alt)
  next
    case (AbsolutePercentage d)
    then have "d \<le> decimal_one" using ok by simp
    note one = fit_one_minus [OF this]
    obtain n where "dm_votes_needed L (?t - mv_abstain ?v) (decimal_one - d) = Inr n"
      "unat n = quota (unat (?t - mv_abstain ?v)) (unat (decimal_one - d))"
      using dm_votes_needed_quota [OF assms(1), of "decimal_one - d"] one by blast
    then show ?thesis
      using AbsolutePercentage sub [of ?t] one by (simp add: dm_is_rejected_def Let_def word_less_nat_alt no)
  next
    case (ThresholdQuorum thr q)
    then have "thr \<le> decimal_one" using ok by simp
    note one = fit_one_minus [OF this]
    obtain nt where nt: "dm_votes_needed L (dm_votes_total ?v - mv_abstain ?v) (decimal_one - thr) = Inr nt"
      "unat nt = quota (unat (dm_votes_total ?v - mv_abstain ?v)) (unat (decimal_one - thr))"
      using dm_votes_needed_quota [OF assms(1), of "decimal_one - thr"] one by blast
    obtain np where np: "dm_votes_needed L (?t - mv_abstain ?v) (decimal_one - thr) = Inr np"
      "unat np = quota (unat (?t - mv_abstain ?v)) (unat (decimal_one - thr))"
      using dm_votes_needed_quota [OF assms(1), of "decimal_one - thr"] one by blast
    show ?thesis
      using sub [of ?t] sub [of "dm_votes_total ?v"] one
      by (auto simp: dm_is_rejected_def ThresholdQuorum Let_def nt np word_less_nat_alt tot no)
  qed
qed

lemma dm_current_status_refines:
  assumes "decimal_law L" and "dm_sound cfg poll"
  shows "dm_current_status L b cfg poll = Inr (
     let ended = l_is_expired L (mc_expires cfg) b in
     if mp_status poll \<noteq> StOpen then mp_status poll
     else if dm_passes ended cfg poll then StPassed
     else if dm_rejects ended cfg poll \<or> ended then StRejected else StOpen)"
  unfolding dm_current_status_def dm_is_passed_refines [OF assms] dm_is_rejected_refines [OF assms] Let_def
  by (cases "l_is_expired L (mc_expires cfg) b") (simp_all del: bindE_eq_Inr)

end
