(* ===== verification/DM_Correct.thy ===== *)
theory DM_Correct
  imports DM_Rule
begin

text \<open>
  The dispute multisig over its whole life: the tally is the sum of the ballots, every ballot has
  the weight of its voter, a decision once taken holds at every later block, and the parent is
  told of at most one decision, a passed one.
\<close>

section \<open>The invariant\<close>

fun dm_kind :: "vote \<Rightarrow> dm_votes \<Rightarrow> u64" where
  "dm_kind VYes v = mv_yes v"
| "dm_kind VNo v = mv_no v"
| "dm_kind VAbstain v = mv_abstain v"
| "dm_kind VVeto v = mv_veto v"

abbreviation dm_kind_weight :: "vote \<Rightarrow> (addr, dm_ballot) store \<Rightarrow> nat" where
  "dm_kind_weight k bs \<equiv> tally (\<lambda>_ b. if mb_vote b = k then unat (mb_points b) else 0) bs"

definition dm_books :: "dm_config \<Rightarrow> dm_poll \<Rightarrow> dm_state \<Rightarrow> bool" where
  "dm_books cfg poll s \<longleftrightarrow> sorted_store (ms_voters s) \<and> sorted_store (ms_ballots s)
     \<and> threshold_ok (mc_threshold cfg) (mc_total_weight cfg)
     \<and> tally (\<lambda>_ w. unat w) (ms_voters s) \<le> unat (mc_total_weight cfg)
     \<and> (\<forall>a bl. sget (ms_ballots s) a = Some bl \<longrightarrow> sget (ms_voters s) a = Some (mb_points bl) \<and> mb_points bl \<noteq> 0)
     \<and> (\<forall>k. unat (dm_kind k (mp_votes poll)) = dm_kind_weight k (ms_ballots s))"

definition dm_decided :: "cw_lib \<Rightarrow> block_info \<Rightarrow> dm_config \<Rightarrow> dm_poll \<Rightarrow> bool" where
  "dm_decided L b cfg poll \<longleftrightarrow> (let ended = l_is_expired L (mc_expires cfg) b in
     mp_status poll \<noteq> StPending
     \<and> (mp_status poll \<in> {StPassed, StExecuted} \<longrightarrow> dm_passes ended cfg poll)
     \<and> (mp_status poll = StRejected \<longrightarrow>
          dm_rejects ended cfg poll \<or> ended \<and> \<not> dm_passes True cfg poll))"

definition dm_sent :: "dm_config \<Rightarrow> dm_poll \<Rightarrow> dm_msg list \<Rightarrow> bool" where
  "dm_sent cfg poll ms \<longleftrightarrow>
     (if mp_status poll = StExecuted
      then \<exists>summary link. ms = [WasmExecute (mc_parent cfg)
             (RenderDecision (mc_complaint_id cfg) summary link) []]
      else ms = [])"

definition dm_inv :: "cw_lib \<Rightarrow> block_info \<Rightarrow> dm_state \<Rightarrow> dm_msg list \<Rightarrow> bool" where
  "dm_inv L b s ms \<longleftrightarrow> (\<exists>cfg poll. ms_config s = Some cfg \<and> ms_poll s = Some poll
     \<and> dm_books cfg poll s \<and> dm_decided L b cfg poll \<and> dm_sent cfg poll ms)"

text \<open>The total of the tally is the weight of the ballots, which the voters' weight bounds.\<close>

lemma dm_total_kinds:
  "t_total (dm_nat_votes v) = unat (dm_kind VYes v) + unat (dm_kind VNo v)
     + unat (dm_kind VAbstain v) + unat (dm_kind VVeto v)"
  by (simp add: t_total_def dm_nat_votes_def)

lemma dm_kinds_sum:
  "dm_kind_weight VYes bs + dm_kind_weight VNo bs + dm_kind_weight VAbstain bs + dm_kind_weight VVeto bs
   = tally (\<lambda>_ b. unat (mb_points b)) bs"
proof (induction bs)
  case (Cons e bs)
  obtain a b where "e = (a, b)" by (cases e)
  with Cons show ?case by (cases "mb_vote b") simp_all
qed simp

lemma dm_ballots_bounded:
  assumes wf: "sorted_store bs" "sorted_store vs"
    and match: "\<And>a bl. sget bs a = Some bl \<Longrightarrow> sget vs a = Some (mb_points bl)"
  shows "tally (\<lambda>_ b. unat (mb_points b)) bs \<le> tally (\<lambda>_ w. unat w) vs"
proof -
  let ?b = "sget bs" and ?v = "sget vs"
  have "tally (\<lambda>_ b. unat (mb_points b)) bs = (\<Sum>a \<in> dom ?b. unat (mb_points (the (?b a))))"
    by (rule kv.tally_as_sum [OF wf(1)])
  also have "\<dots> = (\<Sum>a \<in> dom ?b. unat (the (?v a)))"
    using match by (intro sum.cong) auto
  also have "\<dots> \<le> (\<Sum>a \<in> dom ?v. unat (the (?v a)))"
    using kv.finite_dom [OF wf(2)] match by (intro sum_mono2) auto
  also have "\<dots> = tally (\<lambda>_ w. unat w) vs"
    by (rule kv.tally_as_sum [OF wf(2), symmetric])
  finally show ?thesis .
qed

lemma dm_books_sound:
  assumes "dm_books cfg poll s"
  shows "dm_sound cfg poll"
proof -
  from assms have kinds: "\<And>k. unat (dm_kind k (mp_votes poll)) = dm_kind_weight k (ms_ballots s)"
    and "threshold_ok (mc_threshold cfg) (mc_total_weight cfg)"
    and "tally (\<lambda>_ w. unat w) (ms_voters s) \<le> unat (mc_total_weight cfg)"
    by (simp_all add: dm_books_def)
  then show ?thesis
    unfolding dm_sound_def dm_total_kinds kinds dm_kinds_sum
    using dm_ballots_bounded [of "ms_ballots s" "ms_voters s"] assms by (simp add: dm_books_def)
qed

text \<open>The status decided is a sound one, and what was decided holds when time passes.\<close>

lemma dm_update_decided:
  assumes "decimal_law L" and "dm_sound cfg poll" and "mp_status poll \<noteq> StPending"
    and "mp_status poll \<noteq> StOpen \<longrightarrow> dm_decided L b cfg poll"
    and "dm_update_status L b cfg poll = Inr poll'"
  shows "dm_decided L b cfg poll'" and "mp_votes poll' = mp_votes poll"
    and "mp_status poll \<noteq> StOpen \<Longrightarrow> poll' = poll" and "mp_status poll = StOpen \<Longrightarrow> mp_status poll' \<noteq> StExecuted"
proof -
  let ?e = "l_is_expired L (mc_expires cfg) b"
  have poll': "poll' = poll\<lparr>mp_status := if mp_status poll \<noteq> StOpen then mp_status poll
      else if dm_passes ?e cfg poll then StPassed
      else if dm_rejects ?e cfg poll \<or> ?e then StRejected else StOpen\<rparr>"
    using assms(5) unfolding dm_update_status_def dm_current_status_refines [OF assms(1,2)] Let_def
    by simp
  show "mp_votes poll' = mp_votes poll" "mp_status poll \<noteq> StOpen \<Longrightarrow> poll' = poll"
    "mp_status poll = StOpen \<Longrightarrow> mp_status poll' \<noteq> StExecuted"
    by (simp_all add: poll')
  show "dm_decided L b cfg poll'"
  proof (cases "mp_status poll = StOpen")
    case True
    then show ?thesis by (cases ?e) (auto simp: dm_decided_def poll' Let_def)
  next
    case False
    with assms(4) show ?thesis by (simp add: poll')
  qed
qed

lemma dm_decided_later:
  assumes "expiry_law L" and "dm_sound cfg poll" and "dm_decided L b cfg poll" and "b \<le> b'"
  shows "dm_decided L b' cfg poll"
proof -
  let ?e = "l_is_expired L (mc_expires cfg) b" and ?e' = "l_is_expired L (mc_expires cfg) b'"
  have "?e \<Longrightarrow> ?e'" using assms(1,4) by (rule expired_stays)
  moreover have "dm_passes False cfg poll \<Longrightarrow> dm_passes ended cfg poll"
    "dm_rejects False cfg poll \<Longrightarrow> dm_rejects ended cfg poll" for ended
    using assms(2) by (auto simp: dm_sound_def intro: rule_ends)
  ultimately show ?thesis
    using assms(3) unfolding dm_decided_def Let_def by (cases ?e; cases ?e') auto
qed

lemma dm_inv_later:
  assumes "expiry_law L" and "dm_inv L b s ms" and "b \<le> b'"
  shows "dm_inv L b' s ms"
  using assms unfolding dm_inv_def by (blast intro: dm_decided_later dm_books_sound)

section \<open>Instantiation\<close>

lemma unat_weights:
  "(\<Sum>v\<leftarrow>vs. unat (vo_weight v)) < 2 ^ 64 \<Longrightarrow> unat (dm_total_weight vs) = (\<Sum>v\<leftarrow>vs. unat (vo_weight v))"
  unfolding dm_total_weight_def
proof (induction vs)
  case (Cons v vs)
  then have "unat (sum_list (map vo_weight vs)) = (\<Sum>v\<leftarrow>vs. unat (vo_weight v))" by simp
  with Cons.prems show ?case by (simp add: unat_word_ariths)
qed simp

lemma dm_add_voters:
  assumes "foldE (dm_add_voter L) s vs = Inr s'" and "sorted_store (ms_voters s)"
  shows "\<exists>m. s' = s\<lparr>ms_voters := m\<rparr> \<and> sorted_store m
    \<and> tally (\<lambda>_ w. unat w) m \<le> tally (\<lambda>_ w. unat w) (ms_voters s) + (\<Sum>v\<leftarrow>vs. unat (vo_weight v))"
  using assms
proof (induction vs arbitrary: s)
  case Nil
  then show ?case by (intro exI [of _ "ms_voters s"]) auto
next
  case (Cons v vs)
  then obtain key where step: "foldE (dm_add_voter L) (s\<lparr>ms_voters := sput key (vo_weight v) (ms_voters s)\<rparr>) vs = Inr s'"
    using Cons.prems(1) that by (auto simp: dm_add_voter_def [of L s v])
  have "tally (\<lambda>_ w. unat w) (sput key (vo_weight v) (ms_voters s))
      \<le> tally (\<lambda>_ w. unat w) (ms_voters s) + unat (vo_weight v)"
    using kv.tally_put [OF Cons.prems(2), of "\<lambda>_ w. unat w" key "vo_weight v"] by simp
  with Cons.IH [OF step] Cons.prems(2) show ?case by fastforce
qed

lemma dm_instantiate_inv:
  assumes "threshold_law V" and "(\<Sum>v\<leftarrow>mi_voters msg. unat (vo_weight v)) < 2 ^ 64"
    and "dm_instantiate L V env info msg dm_empty = Inr (s, r)"
  shows "dm_inv L b s (r_messages r)"
proof -
  define s0 where "s0 = dm_empty\<lparr>ms_version := Some (''crates.io:tg3-dispute-multisig'', ''0.15.0''),
    ms_config := Some \<lparr>mc_parent = i_sender info, mc_threshold = mi_threshold msg,
      mc_total_weight = dm_total_weight (mi_voters msg),
      mc_expires = dm_expires L env (mi_max_voting_period msg), mc_complaint_id = mi_complaint_id msg\<rparr>,
    ms_poll := Some \<lparr>mp_votes = \<lparr>mv_yes = 0, mv_no = 0, mv_abstain = 0, mv_veto = 0\<rparr>, mp_status = StOpen\<rparr>\<rparr>"
  have valid: "V (mi_threshold msg) (dm_total_weight (mi_voters msg)) = Inr ()"
    and run: "foldE (dm_add_voter L) s0 (mi_voters msg) = Inr s" and r: "r = new_response"
    using assms(3) by (auto simp: dm_instantiate_def s0_def Let_def map_err_eq_Inr split: if_splits)
  have empty: "ms_voters s0 = []" "ms_ballots s0 = []" by (simp_all add: s0_def dm_empty_def)
  obtain m where m: "s = s0\<lparr>ms_voters := m\<rparr>" "sorted_store m"
    "tally (\<lambda>_ w. unat w) m \<le> (\<Sum>v\<leftarrow>mi_voters msg. unat (vo_weight v))"
    using dm_add_voters [OF run] by (auto simp: empty)
  have "threshold_ok (mi_threshold msg) (dm_total_weight (mi_voters msg))"
    using assms(1) valid by (simp add: threshold_law_def)
  moreover have "unat (dm_kind k \<lparr>mv_yes = 0, mv_no = 0, mv_abstain = 0, mv_veto = 0\<rparr>) = 0" for k
    by (cases k) simp_all
  ultimately show ?thesis
    using m unat_weights [OF assms(2)]
    by (simp add: dm_inv_def dm_books_def dm_decided_def dm_sent_def Let_def r s0_def dm_empty_def)
qed

section \<open>Handlers\<close>

lemma dm_kind_add:
  "dm_kind k (dm_add_vote v w votes) = dm_kind k votes + (if k = v then w else 0)"
  by (cases v; cases k) simp_all

lemma dm_vote_shape:
  assumes "dm_execute_vote L env info vote s = Inr (s', r)" and "ms_config s = Some cfg" and "ms_poll s = Some poll"
  obtains w poll' where
    "sget (ms_voters s) (i_sender info) = Some w" "w \<noteq> 0"
    "mp_status poll \<in> {StOpen, StPassed, StRejected}" "\<not> l_is_expired L (mc_expires cfg) (e_block env)"
    "sget (ms_ballots s) (i_sender info) = None"
    "dm_update_status L (e_block env) cfg (poll\<lparr>mp_votes := dm_add_vote vote w (mp_votes poll)\<rparr>) = Inr poll'"
    "s' = s\<lparr>ms_ballots := sput (i_sender info) \<lparr>mb_points = w, mb_vote = vote\<rparr> (ms_ballots s), ms_poll := Some poll'\<rparr>"
    "r_messages r = []"
  using assms unfolding dm_execute_vote_def
  by (auto simp: Let_def split: if_splits option.splits)

lemma dm_vote_books:
  assumes "dm_books cfg poll s" and "sget (ms_voters s) a = Some w" and "w \<noteq> 0"
    and "sget (ms_ballots s) a = None"
    and "s' = s\<lparr>ms_ballots := sput a \<lparr>mb_points = w, mb_vote = vote\<rparr> (ms_ballots s), ms_poll := Some poll'\<rparr>"
    and "mp_votes poll' = dm_add_vote vote w (mp_votes poll)"
  shows "dm_books cfg poll' s'"
proof -
  let ?bs = "sput a \<lparr>mb_points = w, mb_vote = vote\<rparr> (ms_ballots s)"
  from assms(1) have wf: "sorted_store (ms_ballots s)" "sorted_store (ms_voters s)"
    and bound: "tally (\<lambda>_ w. unat w) (ms_voters s) \<le> unat (mc_total_weight cfg)"
    and kinds: "\<And>k. unat (dm_kind k (mp_votes poll)) = dm_kind_weight k (ms_ballots s)"
    and match: "\<And>b bl. sget ?bs b = Some bl \<Longrightarrow> sget (ms_voters s) b = Some (mb_points bl) \<and> mb_points bl \<noteq> 0"
    using assms(2,3) by (auto simp: dm_books_def split: if_splits)
  have add: "dm_kind_weight k ?bs = dm_kind_weight k (ms_ballots s) + (if k = vote then unat w else 0)" for k
    using kv.tally_put [OF wf(1), of "\<lambda>_ b. if mb_vote b = k then unat (mb_points b) else 0" a
        "\<lparr>mb_points = w, mb_vote = vote\<rparr>"] assms(4) by auto
  have "unat (dm_kind k (mp_votes poll')) = dm_kind_weight k ?bs" for k
  proof -
    have "dm_kind_weight k ?bs \<le> tally (\<lambda>_ b. unat (mb_points b)) ?bs"
      by (intro tally_mono) auto
    also have "\<dots> \<le> tally (\<lambda>_ w. unat w) (ms_voters s)"
      using wf match by (intro dm_ballots_bounded) auto
    also have "\<dots> < 2 ^ 64" using bound unat_u64 [of "mc_total_weight cfg"] by (rule le_less_trans)
    finally have "unat (dm_kind k (mp_votes poll)) + (if k = vote then unat w else 0) < 2 ^ 64"
      unfolding kinds add .
    then show ?thesis
      unfolding assms(6) dm_kind_add add kinds [symmetric] by (cases "k = vote") (simp_all add: unat_word_ariths)
  qed
  then show ?thesis using assms(1,5) match by (auto simp: dm_books_def)
qed


lemma dm_update_Inr:
  "dm_update_status L b cfg poll = Inr poll' \<Longrightarrow> mp_votes poll' = mp_votes poll"
  by (auto simp: dm_update_status_def)

lemma dm_vote_inv:
  assumes "decimal_law L" and "dm_inv L (e_block env) s ms"
    and "dm_execute_vote L env info vote s = Inr (s', r)"
  shows "dm_inv L (e_block env) s' (ms @ r_messages r)"
proof -
  let ?b = "e_block env"
  obtain cfg poll where inv: "ms_config s = Some cfg" "ms_poll s = Some poll"
    "dm_books cfg poll s" "dm_decided L ?b cfg poll" "dm_sent cfg poll ms"
    using assms(2) by (auto simp: dm_inv_def)
  obtain w poll' where sh: "sget (ms_voters s) (i_sender info) = Some w" "w \<noteq> 0"
    "mp_status poll \<in> {StOpen, StPassed, StRejected}" "\<not> l_is_expired L (mc_expires cfg) ?b"
    "sget (ms_ballots s) (i_sender info) = None"
    "dm_update_status L ?b cfg (poll\<lparr>mp_votes := dm_add_vote vote w (mp_votes poll)\<rparr>) = Inr poll'"
    "s' = s\<lparr>ms_ballots := sput (i_sender info) \<lparr>mb_points = w, mb_vote = vote\<rparr> (ms_ballots s), ms_poll := Some poll'\<rparr>"
    "r_messages r = []"
    by (rule dm_vote_shape [OF assms(3) inv(1,2)])
  let ?voted = "poll\<lparr>mp_votes := dm_add_vote vote w (mp_votes poll)\<rparr>"
  have votes: "mp_votes poll' = dm_add_vote vote w (mp_votes poll)"
    using dm_update_Inr [OF sh(6)] by simp
  have books: "dm_books cfg poll' s'"
    by (rule dm_vote_books [OF inv(3) sh(1,2,5,7) votes])
  have sound: "dm_sound cfg poll'" using books by (rule dm_books_sound)
  then have sound': "dm_sound cfg ?voted" by (simp add: dm_sound_def votes)
  have ext: "t_extends (unat (mc_total_weight cfg)) (dm_nat_votes (mp_votes poll)) (dm_nat_votes (mp_votes poll'))"
  proof -
    have "unat (dm_kind k (mp_votes poll)) \<le> unat (dm_kind k (mp_votes poll'))" for k
    proof -
      have "dm_kind_weight k (ms_ballots s) \<le> dm_kind_weight k (ms_ballots s')"
        using kv.tally_put [of "ms_ballots s" "\<lambda>_ b. if mb_vote b = k then unat (mb_points b) else 0"
            "i_sender info" "\<lparr>mb_points = w, mb_vote = vote\<rparr>"] sh(5,7) inv(3)
        by (simp add: dm_books_def)
      then show ?thesis using books inv(3) by (simp add: dm_books_def)
    qed
    from this [of VYes] this [of VNo] this [of VAbstain] this [of VVeto] show ?thesis
      using sound by (simp add: t_extends_def dm_sound_def) (simp add: dm_nat_votes_def)
  qed
  have "dm_decided L ?b cfg ?voted" if "mp_status poll \<noteq> StOpen"
    using that inv(4) sh(3,4) passed_is_final [OF _ ext] rejected_is_final [OF _ ext]
    by (auto simp: dm_decided_def Let_def votes)
  then have upd: "dm_decided L ?b cfg poll'" "mp_status poll \<noteq> StOpen \<Longrightarrow> poll' = ?voted"
    "mp_status poll = StOpen \<Longrightarrow> mp_status poll' \<noteq> StExecuted"
    using dm_update_decided [OF assms(1) sound' _ _ sh(6)] sh(3) by auto
  have "dm_sent cfg poll' ms"
    using inv(5) upd sh(3) by (cases "mp_status poll = StOpen") (auto simp: dm_sent_def)
  then show ?thesis
    using books upd(1) inv(1) sh(7,8) by (simp add: dm_inv_def)
qed

lemma dm_execute_inv:
  assumes "decimal_law L" and "dm_inv L (e_block env) s ms"
    and "dm_execute_execute L env info summary link s = Inr (s', r)"
  shows "dm_inv L (e_block env) s' (ms @ r_messages r)"
proof -
  let ?b = "e_block env"
  obtain cfg poll where inv: "ms_config s = Some cfg" "ms_poll s = Some poll"
    "dm_books cfg poll s" "dm_decided L ?b cfg poll" "dm_sent cfg poll ms"
    using assms(2) by (auto simp: dm_inv_def)
  obtain poll' where sh: "dm_update_status L ?b cfg poll = Inr poll'" "mp_status poll' = StPassed"
    "s' = s\<lparr>ms_poll := Some (poll'\<lparr>mp_status := StExecuted\<rparr>)\<rparr>"
    "r_messages r = [WasmExecute (mc_parent cfg) (RenderDecision (mc_complaint_id cfg) summary link) []]"
    using assms(3) inv(1,2) by (auto simp: dm_execute_execute_def Let_def split: if_splits)
  note upd = dm_update_decided [OF assms(1) dm_books_sound [OF inv(3)] _ _ sh(1)]
  have pending: "mp_status poll \<noteq> StPending" using inv(4) by (simp add: dm_decided_def Let_def)
  have "dm_passes (l_is_expired L (mc_expires cfg) ?b) cfg poll'"
    using upd(1) pending inv(4) sh(2) by (simp add: dm_decided_def Let_def)
  moreover have "mp_votes poll' = mp_votes poll" by (rule dm_update_Inr [OF sh(1)])
  moreover have "mp_status poll \<noteq> StExecuted" using upd(3) pending inv(4) sh(2) by force
  ultimately show ?thesis
    using inv sh by (auto simp: dm_inv_def dm_books_def dm_decided_def dm_sent_def Let_def)
qed

lemma dm_close_shape:
  assumes "dm_execute_close L env info s = Inr (s', r)" and "ms_config s = Some cfg" and "ms_poll s = Some poll"
  obtains st where "mp_status poll \<notin> {StExecuted, StRejected, StPassed}"
    "dm_current_status L (e_block env) cfg poll = Inr st" "st \<noteq> StPassed"
    "l_is_expired L (mc_expires cfg) (e_block env)"
    "s' = s\<lparr>ms_poll := Some (poll\<lparr>mp_status := StRejected\<rparr>)\<rparr>" "r_messages r = []"
  using assms by (auto simp: dm_execute_close_def Let_def split: if_splits)

lemma dm_close_inv:
  assumes "decimal_law L" and "dm_inv L (e_block env) s ms"
    and "dm_execute_close L env info s = Inr (s', r)"
  shows "dm_inv L (e_block env) s' (ms @ r_messages r)"
proof -
  let ?b = "e_block env"
  obtain cfg poll where inv: "ms_config s = Some cfg" "ms_poll s = Some poll"
    "dm_books cfg poll s" "dm_decided L ?b cfg poll" "dm_sent cfg poll ms"
    using assms(2) by (auto simp: dm_inv_def)
  obtain st where sh: "mp_status poll \<notin> {StExecuted, StRejected, StPassed}"
    "dm_current_status L ?b cfg poll = Inr st" "st \<noteq> StPassed" "l_is_expired L (mc_expires cfg) ?b"
    "s' = s\<lparr>ms_poll := Some (poll\<lparr>mp_status := StRejected\<rparr>)\<rparr>" "r_messages r = []"
    by (rule dm_close_shape [OF assms(3) inv(1,2)])
  have "mp_status poll = StOpen"
    using sh(1) inv(4) by (cases "mp_status poll") (auto simp: dm_decided_def Let_def)
  then have "\<not> dm_passes True cfg poll"
    using dm_current_status_refines [OF assms(1) dm_books_sound [OF inv(3)], of ?b] sh(2-4)
    by (auto simp: Let_def)
  then show ?thesis
    using inv sh \<open>mp_status poll = StOpen\<close>
    by (auto simp: dm_inv_def dm_books_def dm_decided_def dm_sent_def Let_def)
qed

section \<open>Every run\<close>

theorem dm_run_inv:
  assumes "decimal_law L" and "expiry_law L" and "threshold_law V" and "dm_run L V b s ms"
  shows "dm_inv L b s ms"
  using assms(4)
proof (induction rule: dm_run.induct)
  case (dm_start env info msg s r)
  then show ?case by (intro dm_instantiate_inv [OF assms(3)])
next
  case (dm_call b s ms env info msg s' r)
  then have "dm_inv L (e_block env) s ms" using dm_inv_later [OF assms(2)] by blast
  with dm_call.hyps(2) show ?case
    by (cases msg) (auto simp: dm_execute_def intro: dm_vote_inv dm_execute_inv dm_close_inv assms(1))
next
  case (dm_wait b s ms b')
  then show ?case using dm_inv_later [OF assms(2)] by blast
qed

section \<open>Votes that never pass\<close>

text \<open>The yes votes weigh at most what the stored voters weigh.\<close>

lemma dm_short_never_passes:
  assumes "dm_books cfg poll s" and "mc_threshold cfg = AbsoluteCount w"
    and "tally (\<lambda>_ v. unat v) (ms_voters s) < unat w"
  shows "\<not> dm_passes ended cfg poll"
proof -
  have "unat (mv_yes (mp_votes poll)) = dm_kind_weight VYes (ms_ballots s)"
    using assms(1) by (auto simp: dm_books_def dest: spec [of _ VYes])
  also have "\<dots> \<le> tally (\<lambda>_ bl. unat (mb_points bl)) (ms_ballots s)" by (intro tally_mono) auto
  also have "\<dots> \<le> tally (\<lambda>_ v. unat v) (ms_voters s)"
    using assms(1) by (intro dm_ballots_bounded) (auto simp: dm_books_def)
  finally show ?thesis using assms(2,3) by (simp add: dm_nat_votes_def)
qed

text \<open>A rejected vote stays rejected, whatever is called.\<close>

lemma dm_rejected_stays:
  assumes "dm_execute L env info msg s = Inr (s', r)" and "ms_poll s = Some poll" and "mp_status poll = StRejected"
  shows "\<exists>poll'. ms_poll s' = Some poll' \<and> mp_status poll' = StRejected"
proof -
  have cur: "dm_current_status L b cfg (poll\<lparr>mp_votes := v\<rparr>) = Inr st \<Longrightarrow> st = StRejected"
    "dm_current_status L b cfg poll = Inr st \<Longrightarrow> st = StRejected" for b cfg v st
    using assms(3) by (simp_all add: dm_current_status_def)
  show ?thesis
  proof (cases msg)
    case (DM_Vote v)
    with assms obtain cfg where "dm_execute_vote L env info v s = Inr (s', r)" "ms_config s = Some cfg"
      by (auto simp: dm_execute_def dm_execute_vote_def)
    then show ?thesis
      by (rule dm_vote_shape [OF _ _ assms(2)]) (auto simp: dm_update_status_def dest: cur)
  qed (use assms in \<open>auto simp: dm_execute_def dm_execute_execute_def dm_execute_close_def dm_update_status_def
      Let_def dest: cur split: if_splits\<close>)
qed

end
