(* ===== verification/DM_Examples.thy ===== *)
theory DM_Examples
  imports DM_Correct
begin

text \<open>
  A concrete history of a dispute multisig: three voters of weights 1, 2 and 3, half of the
  weight needed; \<open>c\<close> votes yes, which decides the vote, and \<open>a\<close> executes the decision.
\<close>

definition dm_ex_validate :: "threshold \<Rightarrow> u64 \<Rightarrow> string + unit" where
  "dm_ex_validate th t = (if threshold_ok th t then Inr () else Inl ''invalid threshold'')"

lemma dm_ex_law [simp]: "threshold_law dm_ex_validate"
  by (simp add: threshold_law_def dm_ex_validate_def)

definition dm_ex_env :: "u64 \<Rightarrow> env" where
  "dm_ex_env h = \<lparr>e_block = \<lparr>b_height = h, b_time = h * 1000000000\<rparr>, e_contract = ''multisig''\<rparr>"

definition dm_ex_by :: "addr \<Rightarrow> message_info" where
  "dm_ex_by a = \<lparr>i_sender = a, i_funds = []\<rparr>"

definition dm_ex_init :: "(string \<times> u64) list \<Rightarrow> threshold \<Rightarrow> dm_instantiate_msg" where
  "dm_ex_init vs th = \<lparr>mi_voters = map (\<lambda>(a, w). \<lparr>vo_addr = a, vo_weight = w\<rparr>) vs, mi_threshold = th,
     mi_max_voting_period = DurationHeight 5, mi_complaint_id = 7\<rparr>"

abbreviation dm_ex_voters :: "(string \<times> u64) list" where
  "dm_ex_voters \<equiv> [(''a'', 1), (''b'', 2), (''c'', 3)]"

abbreviation dm_half :: threshold where
  "dm_half \<equiv> AbsolutePercentage 500000000000000000"

definition dm_ex_config :: dm_config where
  "dm_ex_config = \<lparr>mc_parent = ''ap'', mc_threshold = dm_half, mc_total_weight = 6,
     mc_expires = AtHeight 15, mc_complaint_id = 7\<rparr>"

definition dm_ex_state :: "dm_votes \<Rightarrow> status \<Rightarrow> (addr, dm_ballot) store \<Rightarrow> dm_state" where
  "dm_ex_state v st bs = \<lparr>ms_version = Some (''crates.io:tg3-dispute-multisig'', ''0.15.0''),
     ms_config = Some dm_ex_config, ms_poll = Some \<lparr>mp_votes = v, mp_status = st\<rparr>,
     ms_ballots = bs, ms_voters = dm_ex_voters\<rparr>"

abbreviation dm_ex_open :: dm_state where
  "dm_ex_open \<equiv> dm_ex_state \<lparr>mv_yes = 0, mv_no = 0, mv_abstain = 0, mv_veto = 0\<rparr> StOpen []"

abbreviation dm_ex_voted :: "status \<Rightarrow> dm_state" where
  "dm_ex_voted st \<equiv> dm_ex_state \<lparr>mv_yes = 3, mv_no = 0, mv_abstain = 0, mv_veto = 0\<rparr> st
     [(''c'', \<lparr>mb_points = 3, mb_vote = VYes\<rparr>)]"

lemmas dm_eval_defs =
  dm_ex_validate_def dm_ex_env_def dm_ex_by_def dm_ex_init_def dm_ex_config_def dm_ex_state_def dm_empty_def
  dm_instantiate_def dm_total_weight_def dm_expires_def dm_add_voter_def dm_execute_def
  dm_execute_vote_def dm_execute_execute_def dm_execute_close_def dm_update_status_def
  dm_current_status_def dm_is_passed_def dm_is_rejected_def dm_votes_needed_def dm_votes_total_def
  response_defs sget_def std_lib_def fit_sub_def Let_def dm_load_def dm_or_panic_def

lemma dm_ex_start:
  "dm_instantiate std_lib dm_ex_validate (dm_ex_env 10) (dm_ex_by ''ap'') (dm_ex_init dm_ex_voters dm_half) dm_empty
   = Inr (dm_ex_open, new_response)"
  by (simp add: dm_eval_defs cong: if_weak_cong)

lemma dm_ex_vote:
  "\<exists>r. dm_execute std_lib (dm_ex_env 11) (dm_ex_by ''c'') (DM_Vote VYes) dm_ex_open = Inr (dm_ex_voted StPassed, r)
     \<and> r_messages r = []"
  by (simp add: dm_eval_defs cong: if_weak_cong)

lemma dm_ex_execute:
  "\<exists>r. dm_execute std_lib (dm_ex_env 12) (dm_ex_by ''a'') (DM_Execute ''guilty'' ''link'') (dm_ex_voted StPassed)
     = Inr (dm_ex_voted StExecuted, r) \<and> r_messages r = [WasmExecute ''ap'' (RenderDecision 7 ''guilty'' ''link'') []]"
  by (simp add: dm_eval_defs cong: if_weak_cong)

lemma dm_ex_run_open: "dm_run std_lib dm_ex_validate (e_block (dm_ex_env 10)) dm_ex_open []"
  using dm_run.dm_start [OF dm_ex_start] by (simp add: dm_ex_init_def)

lemma dm_ex_run_voted: "dm_run std_lib dm_ex_validate (e_block (dm_ex_env 11)) (dm_ex_voted StPassed) []"
proof -
  obtain r where "dm_execute std_lib (dm_ex_env 11) (dm_ex_by ''c'') (DM_Vote VYes) dm_ex_open = Inr (dm_ex_voted StPassed, r)"
    and "r_messages r = []" using dm_ex_vote by blast
  from dm_run.dm_call [OF dm_ex_run_open this(1)] this(2) show ?thesis
    by (simp add: block_le_iff dm_ex_env_def)
qed

lemma dm_ex_run_executed:
  "dm_run std_lib dm_ex_validate (e_block (dm_ex_env 12)) (dm_ex_voted StExecuted)
     [WasmExecute ''ap'' (RenderDecision 7 ''guilty'' ''link'') []]"
proof -
  obtain r where "dm_execute std_lib (dm_ex_env 12) (dm_ex_by ''a'') (DM_Execute ''guilty'' ''link'') (dm_ex_voted StPassed)
      = Inr (dm_ex_voted StExecuted, r)"
    and "r_messages r = [WasmExecute ''ap'' (RenderDecision 7 ''guilty'' ''link'') []]" using dm_ex_execute by blast
  from dm_run.dm_call [OF dm_ex_run_voted this(1)] this(2) show ?thesis
    by (simp add: block_le_iff dm_ex_env_def)
qed

end
