(* ===== verification/DM_Theorems.thy ===== *)
theory DM_Theorems
  imports DM_Examples
begin

text \<open>
  The properties of the dispute multisig, each with a witness in the history of
  \<open>DM_Examples\<close>.
\<close>

section \<open>Decisions\<close>

text \<open>
  C6. The parent hears of at most one decision. In every run of a dispute multisig the messages
  sent are none, or one \<open>RenderDecision\<close> for the configured complaint to the configured parent,
  sent exactly when the status is executed; and when the status is passed or executed,
  \<open>is_passed\<close> holds of the current tally at this block and every later one, while a rejected
  vote never passes at any later block.
\<close>

theorem dm_at_most_one_decision:
  assumes "decimal_law L" and "expiry_law L" and "threshold_law V" and "dm_run L V b s ms"
  shows "\<exists>cfg poll. ms_config s = Some cfg \<and> ms_poll s = Some poll
     \<and> (if mp_status poll = StExecuted
        then \<exists>summary link. ms = [WasmExecute (mc_parent cfg) (RenderDecision (mc_complaint_id cfg) summary link) []]
        else ms = [])
     \<and> (mp_status poll \<in> {StPassed, StExecuted} \<longrightarrow>
          (\<forall>b'. b \<le> b' \<longrightarrow> dm_is_passed L b' cfg poll = Inr True))
     \<and> (mp_status poll = StRejected \<longrightarrow>
          (\<forall>b'. b \<le> b' \<longrightarrow> dm_is_passed L b' cfg poll = Inr False))"
proof -
  obtain cfg poll where inv: "ms_config s = Some cfg" "ms_poll s = Some poll"
    "dm_books cfg poll s" "dm_decided L b cfg poll" "dm_sent cfg poll ms"
    using dm_run_inv [OF assms] by (auto simp: dm_inv_def)
  have sound: "dm_sound cfg poll" using inv(3) by (rule dm_books_sound)
  have not_both: "dm_rejects e cfg poll \<Longrightarrow> \<not> dm_passes e cfg poll" for e
    using sound by (intro never_both) (auto simp: dm_sound_def intro: threshold_ok_valid)
  have later: "dm_decided L b' cfg poll" if "b \<le> b'" for b'
    using dm_decided_later [OF assms(2) sound inv(4) that] .
  have "dm_is_passed L b' cfg poll = Inr True"
    if "mp_status poll \<in> {StPassed, StExecuted}" "b \<le> b'" for b'
    using later [OF that(2)] that(1) by (auto simp: dm_is_passed_refines [OF assms(1) sound] dm_decided_def Let_def)
  moreover have "dm_is_passed L b' cfg poll = Inr False" if "mp_status poll = StRejected" "b \<le> b'" for b'
    using later [OF that(2)] that(1) not_both
    by (auto simp: dm_is_passed_refines [OF assms(1) sound] dm_decided_def Let_def)
  ultimately show ?thesis using inv(1,2,5) by (simp add: dm_sent_def)
qed

lemma dm_at_most_one_decision_witness:
  "dm_is_passed std_lib \<lparr>b_height = 20, b_time = 20000000000\<rparr> dm_ex_config
     \<lparr>mp_votes = \<lparr>mv_yes = 3, mv_no = 0, mv_abstain = 0, mv_veto = 0\<rparr>, mp_status = StExecuted\<rparr> = Inr True"
  using dm_at_most_one_decision [OF _ _ _ dm_ex_run_executed]
  by (simp add: dm_ex_state_def block_le_iff dm_ex_env_def)

text \<open>
  C21. The two decisions exclude each other. With a valid threshold and no more weight counted
  than there is, \<open>is_passed\<close> and \<open>is_rejected\<close> never abort, and are never both true: the two
  round-ups, of the threshold and of its complement, leave no tally that is both.
\<close>

theorem dm_decisions_exclusive:
  assumes "decimal_law L" and "threshold_ok (mc_threshold cfg) (mc_total_weight cfg)"
    and "t_total (dm_nat_votes (mp_votes poll)) \<le> unat (mc_total_weight cfg)"
  shows "\<exists>p r. dm_is_passed L b cfg poll = Inr p \<and> dm_is_rejected L b cfg poll = Inr r \<and> \<not> (p \<and> r)"
proof -
  have sound: "dm_sound cfg poll" using assms(2,3) by (simp add: dm_sound_def)
  have "dm_rejects e cfg poll \<Longrightarrow> \<not> dm_passes e cfg poll" for e
    using assms(3) by (rule never_both [OF threshold_ok_valid [OF assms(2)]])
  then show ?thesis
    by (simp add: dm_is_passed_refines [OF assms(1) sound] dm_is_rejected_refines [OF assms(1) sound]) blast
qed

lemma dm_decisions_exclusive_witness:
  "\<exists>p r. dm_is_passed std_lib \<lparr>b_height = 11, b_time = 0\<rparr> dm_ex_config
        \<lparr>mp_votes = \<lparr>mv_yes = 3, mv_no = 2, mv_abstain = 1, mv_veto = 0\<rparr>, mp_status = StOpen\<rparr> = Inr p
    \<and> dm_is_rejected std_lib \<lparr>b_height = 11, b_time = 0\<rparr> dm_ex_config
        \<lparr>mp_votes = \<lparr>mv_yes = 3, mv_no = 2, mv_abstain = 1, mv_veto = 0\<rparr>, mp_status = StOpen\<rparr> = Inr r \<and> \<not> (p \<and> r)"
  by (rule dm_decisions_exclusive) (simp_all add: dm_ex_config_def t_total_def dm_nat_votes_def)

text \<open>
  C22. An early decision is final. If \<open>is_passed\<close> (\<open>is_rejected\<close>) holds before the vote expires,
  it holds at every later moment, however the voters who have not voted yet vote.
\<close>

theorem dm_early_decision_final:
  assumes "decimal_law L" and "threshold_ok (mc_threshold cfg) (mc_total_weight cfg)"
    and "\<not> l_is_expired L (mc_expires cfg) b"
    and "t_extends (unat (mc_total_weight cfg)) (dm_nat_votes (mp_votes poll)) (dm_nat_votes v)"
  shows "(dm_is_passed L b cfg poll = Inr True \<longrightarrow> dm_is_passed L b' cfg (poll\<lparr>mp_votes := v\<rparr>) = Inr True)
     \<and> (dm_is_rejected L b cfg poll = Inr True \<longrightarrow> dm_is_rejected L b' cfg (poll\<lparr>mp_votes := v\<rparr>) = Inr True)"
proof -
  have "t_total (dm_nat_votes (mp_votes poll)) \<le> t_total (dm_nat_votes v)"
    using assms(4) by (simp add: t_extends_def t_total_def)
  then have sound: "dm_sound cfg poll" "dm_sound cfg (poll\<lparr>mp_votes := v\<rparr>)"
    using assms(2,4) by (auto simp: dm_sound_def t_extends_def)
  then show ?thesis
    using passed_is_final [OF _ assms(4)] rejected_is_final [OF _ assms(4)] assms(3)
    by (simp add: dm_is_passed_refines [OF assms(1) sound(1)] dm_is_passed_refines [OF assms(1) sound(2)]
        dm_is_rejected_refines [OF assms(1) sound(1)] dm_is_rejected_refines [OF assms(1) sound(2)])
qed

lemma dm_early_decision_final_witness:
  "dm_is_passed std_lib \<lparr>b_height = 30, b_time = 0\<rparr> dm_ex_config
     \<lparr>mp_votes = \<lparr>mv_yes = 3, mv_no = 3, mv_abstain = 0, mv_veto = 0\<rparr>, mp_status = StOpen\<rparr> = Inr True"
proof -
  let ?p = "\<lparr>mp_votes = \<lparr>mv_yes = 3, mv_no = 0, mv_abstain = 0, mv_veto = 0\<rparr>, mp_status = StOpen\<rparr>"
  let ?v = "\<lparr>mv_yes = 3, mv_no = 3, mv_abstain = 0, mv_veto = 0\<rparr>"
  have "\<not> l_is_expired std_lib (mc_expires dm_ex_config) \<lparr>b_height = 11, b_time = 0\<rparr>"
    by (simp add: dm_ex_config_def std_lib_def)
  moreover have "dm_is_passed std_lib \<lparr>b_height = 11, b_time = 0\<rparr> dm_ex_config ?p = Inr True"
    by (simp add: dm_eval_defs)
  moreover have "t_extends (unat (mc_total_weight dm_ex_config)) (dm_nat_votes (mp_votes ?p)) (dm_nat_votes ?v)"
    by (simp add: t_extends_def dm_nat_votes_def t_total_def dm_ex_config_def)
  ultimately show ?thesis
    using dm_early_decision_final [of std_lib dm_ex_config "\<lparr>b_height = 11, b_time = 0\<rparr>" ?p ?v
        "\<lparr>b_height = 30, b_time = 0\<rparr>"]
    by (simp add: dm_ex_config_def)
qed

section \<open>Ballots\<close>

text \<open>
  C20. The tally is exactly the ballots. In every run, for each kind of vote the weight counted is
  the sum of the weights of the ballots of that kind, without overflow; every ballot belongs to
  a listed voter and carries that voter's weight; and no more than the total weight is counted.
\<close>

theorem dm_tally_is_ballots:
  assumes "decimal_law L" and "expiry_law L" and "threshold_law V" and "dm_run L V b s ms"
    and "ms_config s = Some cfg" and "ms_poll s = Some poll"
  shows "(\<forall>k. unat (dm_kind k (mp_votes poll))
         = tally (\<lambda>_ bl. if mb_vote bl = k then unat (mb_points bl) else 0) (ms_ballots s))
     \<and> (\<forall>a bl. sget (ms_ballots s) a = Some bl \<longrightarrow> sget (ms_voters s) a = Some (mb_points bl))
     \<and> t_total (dm_nat_votes (mp_votes poll)) \<le> unat (mc_total_weight cfg)"
proof -
  have books: "dm_books cfg poll s" using dm_run_inv [OF assms(1-4)] assms(5,6) by (auto simp: dm_inv_def)
  then show ?thesis using dm_books_sound [OF books] by (auto simp: dm_books_def dm_sound_def)
qed

lemma dm_tally_is_ballots_witness:
  "unat (3 :: u64) = tally (\<lambda>_ bl. if mb_vote bl = VYes then unat (mb_points bl) else 0)
     [(''c'', \<lparr>mb_points = 3, mb_vote = VYes\<rparr>)]"
  using dm_tally_is_ballots [OF _ _ _ dm_ex_run_voted]
  by (simp add: dm_ex_state_def)

text \<open>
  C26. Who may vote. In every state a run can reach, a vote is accepted exactly when the sender is a
  voter of weight at least one who has not voted, the vote is not executed, and it has not
  expired; nothing in the counting aborts it.
\<close>

theorem dm_vote_accepted_iff:
  assumes "decimal_law L" and "expiry_law L" and "threshold_law V" and "dm_run L V b s ms"
    and "ms_config s = Some cfg" and "ms_poll s = Some poll"
  shows "(\<exists>s' r. dm_execute L env info (DM_Vote vote) s = Inr (s', r)) \<longleftrightarrow>
     (\<exists>w. sget (ms_voters s) (i_sender info) = Some w \<and> w \<noteq> 0)
     \<and> sget (ms_ballots s) (i_sender info) = None
     \<and> mp_status poll \<noteq> StExecuted \<and> \<not> l_is_expired L (mc_expires cfg) (e_block env)"
    (is "?run \<longleftrightarrow> ?ok")
proof
  assume ?run
  then obtain s' r where "dm_execute_vote L env info vote s = Inr (s', r)" by (auto simp: dm_execute_def)
  then show ?ok by (rule dm_vote_shape [OF _ assms(5,6)]) auto
next
  assume ok: ?ok
  have inv: "dm_books cfg poll s" "dm_decided L b cfg poll"
    using dm_run_inv [OF assms(1-4)] assms(5,6) by (auto simp: dm_inv_def)
  obtain w where w: "sget (ms_voters s) (i_sender info) = Some w" "w \<noteq> 0" using ok by blast
  let ?p = "poll\<lparr>mp_votes := dm_add_vote vote w (mp_votes poll)\<rparr>"
  have "dm_books cfg ?p (s\<lparr>ms_ballots := sput (i_sender info) \<lparr>mb_points = w, mb_vote = vote\<rparr> (ms_ballots s),
      ms_poll := Some ?p\<rparr>)"
    using ok by (intro dm_vote_books [OF inv(1) w]) auto
  then have "\<exists>p'. dm_update_status L (e_block env) cfg ?p = Inr p'"
    using dm_current_status_refines [OF assms(1) dm_books_sound] by (simp add: dm_update_status_def)
  moreover have "mp_status poll \<in> {StOpen, StPassed, StRejected}"
    using ok inv(2) by (cases "mp_status poll") (auto simp: dm_decided_def Let_def)
  ultimately show ?run
    using ok w assms(5,6) by (auto simp: dm_execute_def dm_execute_vote_def Let_def)
qed

lemma dm_vote_accepted_iff_witness:
  "(\<exists>s' r. dm_execute std_lib (dm_ex_env 12) (dm_ex_by ''b'') (DM_Vote VNo) (dm_ex_voted StPassed) = Inr (s', r))
   \<and> \<not> (\<exists>s' r. dm_execute std_lib (dm_ex_env 12) (dm_ex_by ''c'') (DM_Vote VNo) (dm_ex_voted StPassed) = Inr (s', r))"
  by (subst (1 2) dm_vote_accepted_iff [OF _ _ _ dm_ex_run_voted, where cfg = dm_ex_config])
     (simp_all add: dm_ex_state_def, simp add: dm_ex_by_def dm_ex_env_def dm_ex_config_def sget_def std_lib_def)

section \<open>Settlement\<close>

text \<open>
  C23. Every expired vote can be settled, in exactly one way. Once the vote has expired, and unless it
  is already executed or rejected, either anyone can execute it and nobody can close it
  (when \<open>is_passed\<close> holds), or anyone can close it and nobody can execute it (when it does not).
\<close>

theorem dm_expired_settles:
  assumes "decimal_law L" and "expiry_law L" and "threshold_law V" and "dm_run L V (e_block env) s ms"
    and "ms_config s = Some cfg" and "ms_poll s = Some poll"
    and "l_is_expired L (mc_expires cfg) (e_block env)" and "mp_status poll \<notin> {StExecuted, StRejected}"
  shows "\<exists>p. dm_is_passed L (e_block env) cfg poll = Inr p
     \<and> ((\<exists>s' r. dm_execute L env info (DM_Execute summary link) s = Inr (s', r)) \<longleftrightarrow> p)
     \<and> ((\<exists>s' r. dm_execute L env info DM_Close s = Inr (s', r)) \<longleftrightarrow> \<not> p)"
proof -
  have inv: "dm_books cfg poll s" "dm_decided L (e_block env) cfg poll"
    using dm_run_inv [OF assms(1-4)] assms(5,6) by (auto simp: dm_inv_def)
  note sound = dm_books_sound [OF inv(1)]
  note status = dm_current_status_refines [OF assms(1) sound, of "e_block env"]
  have cases: "mp_status poll = StPassed \<and> dm_passes True cfg poll \<or> mp_status poll = StOpen"
    using assms(7,8) inv(2) by (cases "mp_status poll") (auto simp: dm_decided_def Let_def)
  have "dm_is_passed L (e_block env) cfg poll = Inr (dm_passes True cfg poll)"
    using dm_is_passed_refines [OF assms(1) sound, of "e_block env"] assms(7) by simp
  moreover have "(\<exists>s' r. dm_execute_execute L env info summary link s = Inr (s', r)) \<longleftrightarrow> dm_passes True cfg poll"
    using cases assms(5-7) status
    by (auto simp: dm_execute_execute_def dm_update_status_def Let_def)
  moreover have "(\<exists>s' r. dm_execute_close L env info s = Inr (s', r)) \<longleftrightarrow> \<not> dm_passes True cfg poll"
    using cases assms(5-7) status by (auto simp: dm_execute_close_def Let_def)
  ultimately show ?thesis by (simp add: dm_execute_def)
qed

lemma dm_expired_settles_witness:
  "\<exists>s' r. dm_execute std_lib (dm_ex_env 16) (dm_ex_by ''z'') DM_Close dm_ex_open = Inr (s', r)"
proof -
  have run: "dm_run std_lib dm_ex_validate (e_block (dm_ex_env 16)) dm_ex_open []"
    by (rule dm_run.dm_wait [OF dm_ex_run_open]) (simp add: block_le_iff dm_ex_env_def)
  let ?poll = "\<lparr>mp_votes = \<lparr>mv_yes = 0, mv_no = 0, mv_abstain = 0, mv_veto = 0\<rparr>, mp_status = StOpen\<rparr>"
  have no: "dm_is_passed std_lib (e_block (dm_ex_env 16)) dm_ex_config ?poll = Inr False"
    by (simp add: dm_eval_defs)
  have expired: "l_is_expired std_lib (mc_expires dm_ex_config) (e_block (dm_ex_env 16))"
    by (simp add: dm_ex_config_def dm_ex_env_def std_lib_def)
  have "ms_config dm_ex_open = Some dm_ex_config" "ms_poll dm_ex_open = Some ?poll"
    by (simp_all add: dm_ex_state_def)
  from dm_expired_settles [OF _ _ _ run this expired, of "dm_ex_by ''z''"] no show ?thesis by auto
qed

text \<open>
  C40. A list of voters that repeats an address can make the vote undecidable. The total weight
  counts every entry of the list, the stored voters keep one weight per address: when the
  weights kept do not reach the absolute count needed, which validation compares to the total,
  the vote never passes and the parent never hears of a decision.
\<close>

theorem dm_unreachable_count:
  assumes "decimal_law L" and "expiry_law L" and "threshold_law V" and "dm_run L V b s ms"
    and "ms_config s = Some cfg" and "mc_threshold cfg = AbsoluteCount w"
    and "tally (\<lambda>_ v. unat v) (ms_voters s) < unat w"
  shows "ms = [] \<and> dm_query_status s \<noteq> Inr StPassed \<and> dm_query_status s \<noteq> Inr StExecuted"
proof -
  obtain poll where inv: "ms_poll s = Some poll" "dm_books cfg poll s" "dm_decided L b cfg poll" "dm_sent cfg poll ms"
    using dm_run_inv [OF assms(1-4)] assms(5) by (auto simp: dm_inv_def)
  have "\<not> dm_passes ended cfg poll" for ended
    by (rule dm_short_never_passes [OF inv(2) assms(6,7)])
  then have "mp_status poll \<notin> {StPassed, StExecuted}" using inv(3) by (auto simp: dm_decided_def Let_def)
  then show ?thesis using inv(1,4) by (simp add: dm_sent_def dm_query_status_def)
qed

lemma dm_unreachable_count_witness:
  "\<exists>s r. dm_instantiate std_lib dm_ex_validate (dm_ex_env 10) (dm_ex_by ''ap'')
       (dm_ex_init [(''a'', 1), (''a'', 1)] (AbsoluteCount 2)) dm_empty = Inr (s, r)
     \<and> dm_query_status s \<noteq> Inr StPassed \<and> ms_voters s = [(''a'', 1)]"
proof -
  let ?s = "(dm_ex_state \<lparr>mv_yes = 0, mv_no = 0, mv_abstain = 0, mv_veto = 0\<rparr> StOpen [])\<lparr>
    ms_config := Some (dm_ex_config\<lparr>mc_threshold := AbsoluteCount 2, mc_total_weight := 2\<rparr>), ms_voters := [(''a'', 1)]\<rparr>"
  have start: "dm_instantiate std_lib dm_ex_validate (dm_ex_env 10) (dm_ex_by ''ap'')
       (dm_ex_init [(''a'', 1), (''a'', 1)] (AbsoluteCount 2)) dm_empty = Inr (?s, new_response)"
    by (simp add: dm_eval_defs cong: if_weak_cong)
  have run: "dm_run std_lib dm_ex_validate (e_block (dm_ex_env 10)) ?s []"
    using dm_run.dm_start [OF start] by (simp add: dm_ex_init_def)
  have "dm_query_status ?s \<noteq> Inr StPassed"
    using dm_unreachable_count [OF _ _ _ run, of "dm_ex_config\<lparr>mc_threshold := AbsoluteCount 2, mc_total_weight := 2\<rparr>" 2]
    by simp
  with start show ?thesis by auto
qed

section \<open>Listings\<close>

text \<open>
  A client that reads the voters and the votes page by page, with any page size but zero, gets
  every voter with the stored weight and every ballot, each exactly once and in ascending order
  of addresses, in every state a run can reach.
\<close>

theorem dm_listings_complete:
  assumes "decimal_law L" and "expiry_law L" and "threshold_law V" and "dm_run L V b s ms"
    and "limit \<noteq> Some 0" and "length (ms_voters s) \<le> n" and "length (ms_ballots s) \<le> n"
  shows "paged_listing.read_all (dm_voters_page limit) vo_addr n s None
       = map (\<lambda>(a, w). \<lparr>vo_addr = a, vo_weight = w\<rparr>) (ms_voters s)
     \<and> (\<exists>cfg. ms_config s = Some cfg
         \<and> paged_listing.read_all (dm_votes_page limit) mvi_voter n s None = map (dm_vote_info_of cfg) (ms_ballots s))
     \<and> sorted_wrt (<) (map fst (ms_voters s)) \<and> sorted_wrt (<) (map fst (ms_ballots s))"
proof -
  obtain cfg where cfg: "ms_config s = Some cfg" and wf: "sorted_store (ms_voters s)" "sorted_store (ms_ballots s)"
    using dm_run_inv [OF assms(1-4)] by (auto simp: dm_inv_def dm_books_def)
  note voters = paged_listing.read_all_complete [OF dm_voters_listing [OF assms(5)], of s n]
  note votes = paged_listing.read_all_complete [OF dm_votes_listing [OF assms(5)], of s n]
  show ?thesis
    using voters votes wf cfg assms(6,7) by (simp add: dm_cast_def sorted_storeD)
qed

lemma dm_listings_complete_witness:
  "paged_listing.read_all (dm_voters_page (Some 2)) vo_addr 3 dm_ex_open None
   = [\<lparr>vo_addr = ''a'', vo_weight = 1\<rparr>, \<lparr>vo_addr = ''b'', vo_weight = 2\<rparr>, \<lparr>vo_addr = ''c'', vo_weight = 3\<rparr>]"
  using dm_listings_complete [OF _ _ _ dm_ex_run_open, of "Some 2" 3] by (simp add: dm_ex_state_def)

end
