(* ===== verification/Voting_Contract.thy ===== *)
theory Voting_Contract
  imports Cosmwasm "HOL-Library.Multiset"
begin

text \<open>
  The voting of the arbiter pool and of the oversight community is that of the package
  \<open>tg_voting_contract\<close>, which is not in the repository. The contracts call it through the record
  \<open>voting_lib\<close> of functions on its part of the storage, of type \<open>'v\<close>: the proposals' contents are
  of the contract's own type \<open>'p\<close>, a whole proposal is of type \<open>'w\<close>, the voting rules of type \<open>'r\<close>,
  the messages of a response of type \<open>'m\<close>. Reading the group of voters asks another contract.
\<close>

datatype voting_error = VotingStd std_error | VotingOther string

record ('v, 'w, 'p, 'r, 'm) voting_lib =
  vl_instantiate :: "'r \<Rightarrow> string \<Rightarrow> 'v \<Rightarrow> voting_error + ('v \<times> 'm response)"
  vl_propose :: "env \<Rightarrow> message_info \<Rightarrow> string \<Rightarrow> string \<Rightarrow> 'p \<Rightarrow> 'v \<Rightarrow> voting_error + ('v \<times> 'm response)"
  vl_vote :: "env \<Rightarrow> message_info \<Rightarrow> u64 \<Rightarrow> vote \<Rightarrow> 'v \<Rightarrow> voting_error + ('v \<times> 'm response)"
  vl_close :: "env \<Rightarrow> message_info \<Rightarrow> u64 \<Rightarrow> 'v \<Rightarrow> voting_error + ('v \<times> 'm response)"
  vl_mark_executed :: "env \<Rightarrow> u64 \<Rightarrow> 'v \<Rightarrow> voting_error + ('v \<times> 'w)"
  vl_content :: "'w \<Rightarrow> 'p"
  vl_execute_text :: "u64 \<Rightarrow> 'w \<Rightarrow> 'v \<Rightarrow> voting_error + 'v"
  vl_group :: "'v \<Rightarrow> std_error + addr"
  vl_is_member :: "addr \<Rightarrow> addr \<Rightarrow> std_error + u64 option"

text \<open>The queries that the package answers, all with an answer of the type \<open>'a\<close>.\<close>

record ('v, 'a) voting_queries =
  vq_rules :: "'v \<Rightarrow> std_error + 'a"
  vq_proposal :: "env \<Rightarrow> u64 \<Rightarrow> 'v \<Rightarrow> std_error + 'a"
  vq_list_proposals :: "env \<Rightarrow> u64 option \<Rightarrow> nat \<Rightarrow> 'v \<Rightarrow> std_error + 'a"
  vq_reverse_proposals :: "env \<Rightarrow> u64 option \<Rightarrow> nat \<Rightarrow> 'v \<Rightarrow> std_error + 'a"
  vq_vote :: "u64 \<Rightarrow> string \<Rightarrow> 'v \<Rightarrow> std_error + 'a"
  vq_list_votes :: "u64 \<Rightarrow> string option \<Rightarrow> nat \<Rightarrow> 'v \<Rightarrow> std_error + 'a"
  vq_list_votes_by_voter :: "string \<Rightarrow> u64 option \<Rightarrow> nat \<Rightarrow> 'v \<Rightarrow> std_error + 'a"
  vq_voter :: "string \<Rightarrow> 'v \<Rightarrow> std_error + 'a"
  vq_list_voters :: "string option \<Rightarrow> u32 option \<Rightarrow> 'v \<Rightarrow> std_error + 'a"
  vq_group_contract :: "'v \<Rightarrow> std_error + 'a"

text \<open>What the package's handlers return carries attributes, never a message to the chain.\<close>

definition quiet_law :: "('v, 'w, 'p, 'r, 'm) voting_lib \<Rightarrow> bool" where
  "quiet_law VL \<longleftrightarrow>
     (\<forall>x g v v' r. vl_instantiate VL x g v = Inr (v', r) \<longrightarrow> r_messages r = [])
     \<and> (\<forall>env i t d p v v' r. vl_propose VL env i t d p v = Inr (v', r) \<longrightarrow> r_messages r = [])
     \<and> (\<forall>env i n x v v' r. vl_vote VL env i n x v = Inr (v', r) \<longrightarrow> r_messages r = [])
     \<and> (\<forall>env i n v v' r. vl_close VL env i n v = Inr (v', r) \<longrightarrow> r_messages r = [])"

text \<open>
  A passed proposal is executed once. \<open>C\<close> reads the contents of the proposals not executed yet
  out of the package's storage: proposing adds the content, marking a proposal executed takes
  its content out, and nothing else adds any.
\<close>

definition pending_law :: "('v, 'w, 'p, 'r, 'm) voting_lib \<Rightarrow> ('v \<Rightarrow> 'p multiset) \<Rightarrow> bool" where
  "pending_law VL C \<longleftrightarrow>
     (\<forall>x g v v' r. vl_instantiate VL x g v = Inr (v', r) \<longrightarrow> C v' = {#})
     \<and> (\<forall>env i t d p v v' r. vl_propose VL env i t d p v = Inr (v', r) \<longrightarrow> C v' = add_mset p (C v))
     \<and> (\<forall>env i n x v v' r. vl_vote VL env i n x v = Inr (v', r) \<longrightarrow> C v' = C v)
     \<and> (\<forall>env i n v v' r. vl_close VL env i n v = Inr (v', r) \<longrightarrow> C v' \<subseteq># C v)
     \<and> (\<forall>env n v v' w. vl_mark_executed VL env n v = Inr (v', w) \<longrightarrow> C v = add_mset (vl_content VL w) (C v'))
     \<and> (\<forall>n w v v'. vl_execute_text VL n w v = Inr v' \<longrightarrow> C v' = C v)"

lemma quiet_calls:
  assumes "quiet_law VL"
  shows "vl_instantiate VL x g v = Inr (v', r) \<Longrightarrow> r_messages r = []"
    and "vl_propose VL env i t d p v = Inr (v', r) \<Longrightarrow> r_messages r = []"
    and "vl_vote VL env i n vt v = Inr (v', r) \<Longrightarrow> r_messages r = []"
    and "vl_close VL env i n v = Inr (v', r) \<Longrightarrow> r_messages r = []"
  using assms unfolding quiet_law_def by fast+

lemma pending_calls:
  assumes "pending_law VL C"
  shows "vl_instantiate VL x g v = Inr (v', r) \<Longrightarrow> C v' = {#}"
    and "vl_propose VL env i t d p v = Inr (v', r) \<Longrightarrow> C v' = add_mset p (C v)"
    and "vl_vote VL env i n vt v = Inr (v', r) \<Longrightarrow> C v' = C v"
    and "vl_close VL env i n v = Inr (v', r) \<Longrightarrow> C v' \<subseteq># C v"
    and "vl_mark_executed VL env n v = Inr (v', w) \<Longrightarrow> C v = add_mset (vl_content VL w) (C v')"
    and "vl_execute_text VL n w v = Inr v' \<Longrightarrow> C v' = C v"
  using assms unfolding pending_law_def by fast+

text \<open>
  A small voting package for the witnesses: the storage is the list of the proposals' contents
  not executed yet, in the order of their numbers; every proposal passes when it is made.
\<close>

definition toy_voting :: "((('p option) list), 'p, 'p, unit, 'm) voting_lib" where
  "toy_voting = \<lparr>
     vl_instantiate = (\<lambda>_ _ v. Inr ([], new_response)),
     vl_propose = (\<lambda>_ _ _ _ p v. Inr (v @ [Some p], new_response)),
     vl_vote = (\<lambda>_ _ _ _ v. Inr (v, new_response)),
     vl_close = (\<lambda>_ _ _ _. Inl (VotingOther ''wrong status'')),
     vl_mark_executed = (\<lambda>_ i v. if unat i < length v \<and> v ! unat i \<noteq> None
        then Inr (v[unat i := None], the (v ! unat i)) else Inl (VotingOther ''wrong status'')),
     vl_content = (\<lambda>p. p),
     vl_execute_text = (\<lambda>_ _ v. Inr v),
     vl_group = (\<lambda>_. Inr ''group''),
     vl_is_member = (\<lambda>_ a. Inr (if a = '''' then None else Some 1))\<rparr>"

lemma toy_quiet [simp]: "quiet_law toy_voting"
  by (simp add: quiet_law_def toy_voting_def)

definition toy_pending :: "('p option) list \<Rightarrow> 'p multiset" where
  "toy_pending v = mset (List.map_filter (\<lambda>x. x) v)"

lemma toy_pending_mark:
  assumes "i < length v" and "v ! i = Some p"
  shows "toy_pending v = add_mset p (toy_pending (v[i := None]))"
proof -
  have split: "toy_pending (xs @ e # ys) = toy_pending xs + (case e of None \<Rightarrow> {#} | Some q \<Rightarrow> {#q#}) + toy_pending ys"
    for xs ys :: "'a option list" and e
    by (simp add: toy_pending_def List.map_filter_def split: option.split)
  have "toy_pending v = toy_pending (take i v @ Some p # drop (Suc i) v)"
    using id_take_nth_drop [OF assms(1)] assms(2) by simp
  moreover have "toy_pending (v[i := None]) = toy_pending (take i v @ None # drop (Suc i) v)"
    using upd_conv_take_nth_drop [OF assms(1), of None] by simp
  ultimately show ?thesis by (simp add: split)
qed

lemma toy_pending_law [simp]: "pending_law toy_voting toy_pending"
  by (auto simp: pending_law_def toy_voting_def toy_pending_mark split: if_splits)
     (auto simp: toy_pending_def List.map_filter_def)

end
