(* ===== verification/AP_State.thy ===== *)
theory AP_State
  imports DM_Contract Voting_Contract
begin

text \<open>
  The data of the arbiter pool (\<open>contracts/tgrade-ap-voting/src/state.rs\<close>, \<open>msg.rs\<close>, \<open>error.rs\<close>):
  complaints and their states, proposals of arbiters, the configuration, and the storage.
\<close>

section \<open>Complaints\<close>

datatype complaint_state =
  Initiated expiration
| Waiting expiration
| Withdrawn string
| Aborted
| Accepted
| Processing addr
| Closed string string

fun fmt_complaint_state :: "complaint_state \<Rightarrow> string" where
  "fmt_complaint_state (Initiated _) = ''Initiated''"
| "fmt_complaint_state (Waiting _) = ''Waiting''"
| "fmt_complaint_state (Withdrawn _) = ''Withdrawn''"
| "fmt_complaint_state Aborted = ''Aborted''"
| "fmt_complaint_state Accepted = ''Accepted''"
| "fmt_complaint_state (Processing _) = ''Processing''"
| "fmt_complaint_state (Closed _ _) = ''Closed''"

record complaint =
  cp_title :: string
  cp_description :: string
  cp_plaintiff :: addr
  cp_defendant :: addr
  cp_state :: complaint_state

definition complaint_current_state :: "cw_lib \<Rightarrow> block_info \<Rightarrow> complaint \<Rightarrow> complaint_state" where
  "complaint_current_state L block c =
     (case cp_state c of
        Initiated expiration \<Rightarrow> if l_is_expired L expiration block then Aborted else cp_state c
      | Waiting wait_over \<Rightarrow> if l_is_expired L wait_over block then Accepted else cp_state c
      | state \<Rightarrow> state)"

definition complaint_update_state :: "cw_lib \<Rightarrow> block_info \<Rightarrow> complaint \<Rightarrow> complaint" where
  "complaint_update_state L block c = c\<lparr>cp_state := complaint_current_state L block c\<rparr>"

section \<open>Proposals, configuration, errors\<close>

datatype ap_proposal = APText | ProposeArbiters u64 "addr list"

text \<open>
  A duration of \<open>tg_utils\<close> is a number of seconds. The stored configuration is a JSON object:
  one written before version 0.6.3 lacks the code id of the multisig, and reading it as the
  present configuration is an error.
\<close>

record ap_config =
  ac_dispute_cost :: coin
  ac_waiting_period :: u64
  ac_next_complaint_id :: u64
  ac_multisig_code_id :: u64

record ap_config_0_6_2 =
  ao_dispute_cost :: coin
  ao_waiting_period :: u64
  ao_next_complaint_id :: u64

datatype ap_stored_config = PresentConfig ap_config | OldConfig ap_config_0_6_2

datatype ap_error =
  AP_Std std_error
| AP_System string
| AP_Contract string
| AP_Voting voting_error
| AP_Payment string
| AP_UnsupportedSudoType
| AP_WrongExecuteStatus
| AP_Unauthorized string
| AP_InvalidDisputePayment coin coin
| AP_ComplaintMissing u64
| AP_ImproperState complaint_state
| AP_NoMultisigAwaitingId
| AP_UnrecognizedReply u64
| AP_ReplyParseFailure u64 string
| AP_InvalidProposer string
| AP_InvalidProposedArbiter string
| AP_InvalidComplaintState string
| AP_EmptyTitle
| AP_EmptyDescription
| AP_Panic

fun ap_voting_error :: "voting_error \<Rightarrow> ap_error" where
  "ap_voting_error (VotingStd e) = AP_Std e"
| "ap_voting_error (VotingOther e) = AP_Voting (VotingOther e)"

definition ap_load :: "'a option \<Rightarrow> ap_error + 'a" where
  "ap_load r = of_opt (AP_Std NotFound) r"

definition ap_or_panic :: "'a option \<Rightarrow> ap_error + 'a" where
  "ap_or_panic r = of_opt AP_Panic r"

lemma ap_opt_results [simp]:
  "ap_load r = Inr x \<longleftrightarrow> r = Some x"
  "ap_or_panic r = Inr x \<longleftrightarrow> r = Some x"
  "ap_load (Some x) = Inr x"
  "ap_or_panic (Some x) = Inr x"
  by (simp_all add: ap_load_def ap_or_panic_def)

section \<open>Storage\<close>

record 'v ap_state =
  as_version :: "(string \<times> string) option"
  as_config :: "ap_stored_config option"
  as_complaints :: "(u64, complaint) store"
  as_awaiting :: "u64 option"
  as_voting :: 'v

definition ap_empty :: "'v \<Rightarrow> 'v ap_state" where
  "ap_empty v = \<lparr>as_version = None, as_config = None, as_complaints = [], as_awaiting = None, as_voting = v\<rparr>"

definition ap_config_of :: "'v ap_state \<Rightarrow> std_error + ap_config" where
  "ap_config_of s =
     (case as_config s of
        None \<Rightarrow> Inl NotFound
      | Some (OldConfig _) \<Rightarrow> Inl (GenericErr ''missing field multisig_code_id'')
      | Some (PresentConfig c) \<Rightarrow> Inr c)"

lemma ap_config_of_Inr [simp]: "ap_config_of s = Inr c \<longleftrightarrow> as_config s = Some (PresentConfig c)"
  by (auto simp: ap_config_of_def split: option.splits ap_stored_config.splits)

text \<open>What the contract sends to the chain.\<close>

datatype privilege = GovProposalExecutor | ConsensusParamChanger

datatype ap_msg =
  ApBank bank_msg
| ApInstantiateMultisig u64 dm_instantiate_msg string
| ApRequestPrivileges "privilege list"

type_synonym 'v ap_result = "ap_error + ('v ap_state \<times> ap_msg response)"

section \<open>Validation of a proposal\<close>

definition ap_validate_proposal ::
  "cw_lib \<Rightarrow> ('v, 'w, ap_proposal, 'r, ap_msg) voting_lib \<Rightarrow> env \<Rightarrow> addr \<Rightarrow> string \<Rightarrow> string \<Rightarrow>
   ap_proposal \<Rightarrow> 'v ap_state \<Rightarrow> ap_error + unit" where
  "ap_validate_proposal L VL env sender title description proposal s =
     (if title = '''' then Inl AP_EmptyTitle
      else if description = '''' then Inl AP_EmptyDescription
      else case proposal of
        ProposeArbiters case_id arbiters \<Rightarrow>
          bindE (ap_load (sget (as_complaints s) case_id)) (\<lambda>complaint.
          if complaint_current_state L (e_block env) complaint \<noteq> Accepted
          then Inl (AP_InvalidComplaintState (fmt_complaint_state (cp_state complaint)))
          else
            bindE (map_err AP_Std (vl_group VL (as_voting s))) (\<lambda>group_addr.
            bindE (map_err AP_Std (vl_is_member VL group_addr sender)) (\<lambda>m.
            if m = None then Inl (AP_InvalidProposer sender)
            else
              bindE (checkE (\<lambda>a. bindE (map_err AP_Std (l_addr_validate L a)) (\<lambda>_. Inr ())) arbiters) (\<lambda>_.
              checkE (\<lambda>a. bindE (map_err AP_Std (vl_is_member VL group_addr a)) (\<lambda>m.
                if m = None then Inl (AP_InvalidProposedArbiter a) else Inr ())) arbiters))))
      | APText \<Rightarrow> Inr ())"

end
