(* ===== verification/AP_Contract.thy ===== *)
theory AP_Contract
  imports AP_State Paging
begin

text \<open>
  The arbiter pool (\<open>contracts/tgrade-ap-voting/src/contract.rs\<close> and \<open>migration.rs\<close>): complaints
  are registered, accepted, withdrawn and decided against a dispute cost that both parties pay;
  the pool votes arbiters for an accepted complaint, who decide it in a dispute multisig that
  the contract instantiates. Voting is delegated to \<open>voting_lib\<close>.
\<close>

section \<open>What the contract calls\<close>

text \<open>
  The duration after a block and the parsing of a reply belong to packages; the voters of a
  multisig are asked of another contract, one page after the given address at a time.
\<close>

record reply_msg =
  rp_id :: u64
  rp_result :: string

record ap_lib =
  apl_after :: "u64 \<Rightarrow> block_info \<Rightarrow> expiration"
  apl_reply_address :: "reply_msg \<Rightarrow> string + string"
  apl_ensure_older :: "(string \<times> string) option \<Rightarrow> string \<Rightarrow> string \<Rightarrow>
    std_error + ((string \<times> string) option \<times> string)"
  apl_version_less :: "string \<Rightarrow> string \<Rightarrow> bool"

type_synonym voters_query = "addr \<Rightarrow> string option \<Rightarrow> std_error + string list"

record 'r ap_instantiate_msg =
  ai_rules :: 'r
  ai_group_addr :: string
  ai_dispute_cost :: coin
  ai_waiting_period :: u64
  ai_multisig_code_id :: u64

datatype ap_execute_msg =
  APPropose string string ap_proposal
| APVote u64 vote
| APExecute u64
| APClose u64
| APRegisterComplaint string string string
| APAcceptComplaint u64
| APWithdrawComplaint u64 string
| APRenderDecision u64 string string

definition ap_instantiate ::
  "('v, 'w, ap_proposal, 'r, ap_msg) voting_lib \<Rightarrow> 'r ap_instantiate_msg \<Rightarrow> 'v ap_state \<Rightarrow> 'v ap_result" where
  "ap_instantiate VL msg s =
     (let s = s\<lparr>as_version := Some (''crates.io:tgrade_ap_voting'', ''0.15.0'')\<rparr>;
          s = s\<lparr>as_config := Some (PresentConfig \<lparr>ac_dispute_cost = ai_dispute_cost msg,
                ac_waiting_period = ai_waiting_period msg, ac_next_complaint_id = 0,
                ac_multisig_code_id = ai_multisig_code_id msg\<rparr>)\<rparr>
      in bindE (map_err ap_voting_error (vl_instantiate VL (ai_rules msg) (ai_group_addr msg) (as_voting s)))
           (\<lambda>(v, res). Inr (s\<lparr>as_voting := v\<rparr>, res)))"

section \<open>Complaints\<close>

definition ap_check_payment :: "cw_lib \<Rightarrow> message_info \<Rightarrow> coin \<Rightarrow> ap_error + unit" where
  "ap_check_payment L info cost =
     bindE (map_err AP_Payment (l_must_pay L info (c_denom cost))) (\<lambda>payment.
     if payment \<noteq> c_amount cost
     then Inl (AP_InvalidDisputePayment \<lparr>c_denom = c_denom cost, c_amount = payment\<rparr> cost)
     else Inr ())"

definition ap_register_complaint ::
  "cw_lib \<Rightarrow> ap_lib \<Rightarrow> env \<Rightarrow> message_info \<Rightarrow> string \<Rightarrow> string \<Rightarrow> string \<Rightarrow> 'v ap_state \<Rightarrow> 'v ap_result" where
  "ap_register_complaint L AL env info title description defendant s =
     bindE (map_err AP_Std (ap_config_of s)) (\<lambda>config.
     bindE (ap_check_payment L info (ac_dispute_cost config)) (\<lambda>_.
     let complaint_id = ac_next_complaint_id config in
     bindE (map_err AP_Std (l_addr_validate L defendant)) (\<lambda>defendant.
     let complaint = \<lparr>cp_title = title, cp_description = description, cp_plaintiff = i_sender info,
           cp_defendant = defendant,
           cp_state = Initiated (apl_after AL (ac_waiting_period config) (e_block env))\<rparr>;
         s = s\<lparr>as_complaints := sput complaint_id complaint (as_complaints s)\<rparr>;
         config = config\<lparr>ac_next_complaint_id := complaint_id + 1\<rparr>;
         s = s\<lparr>as_config := Some (PresentConfig config)\<rparr>
     in Inr (s,
          add_attr ''complaint_id'' (AU64 complaint_id) (add_attr ''defendant'' (AStr (cp_defendant complaint))
          (add_attr ''plaintiff'' (AStr (cp_plaintiff complaint)) (add_attr ''title'' (AStr (cp_title complaint))
          (add_attr ''action'' (AStr ''register_complaint'') new_response))))))))"

definition ap_accept_complaint ::
  "cw_lib \<Rightarrow> ap_lib \<Rightarrow> env \<Rightarrow> message_info \<Rightarrow> u64 \<Rightarrow> 'v ap_state \<Rightarrow> 'v ap_result" where
  "ap_accept_complaint L AL env info complaint_id s =
     bindE (map_err AP_Std (ap_config_of s)) (\<lambda>config.
     bindE (ap_check_payment L info (ac_dispute_cost config)) (\<lambda>_.
     bindE (of_opt (AP_ComplaintMissing complaint_id) (sget (as_complaints s) complaint_id)) (\<lambda>complaint.
     if i_sender info \<noteq> cp_defendant complaint then Inl (AP_Unauthorized (i_sender info))
     else
       let state = complaint_current_state L (e_block env) complaint in
       case state of
         Initiated _ \<Rightarrow>
           let complaint = complaint\<lparr>cp_state := Waiting (apl_after AL (ac_waiting_period config) (e_block env))\<rparr> in
           Inr (s\<lparr>as_complaints := sput complaint_id complaint (as_complaints s)\<rparr>,
             add_attr ''complaint_id'' (AU64 complaint_id)
               (add_attr ''action'' (AStr ''accept_complaint'') new_response))
       | state \<Rightarrow> Inl (AP_ImproperState state))))"

text \<open>What a withdrawal pays back, by the state of the complaint.\<close>

definition ap_refunds ::
  "cw_lib \<Rightarrow> coin \<Rightarrow> addr \<Rightarrow> addr \<Rightarrow> complaint_state \<Rightarrow> ap_error + bank_msg list" where
  "ap_refunds L cost plaintiff defendant state =
     (case state of
        Initiated _ \<Rightarrow>
          bindE (ap_or_panic (l_mul_decimal L (c_amount cost) (percent 80))) (\<lambda>amount.
          Inr [BankSend plaintiff [cost\<lparr>c_amount := amount\<rparr>]])
      | Waiting _ \<Rightarrow>
          bindE (ap_or_panic (l_mul_decimal L (c_amount cost) (percent 80))) (\<lambda>amount.
          Inr [BankSend plaintiff [cost\<lparr>c_amount := amount\<rparr>], BankSend defendant [cost\<lparr>c_amount := amount\<rparr>]])
      | Aborted \<Rightarrow> Inr [BankSend plaintiff [cost]]
      | state \<Rightarrow> Inl (AP_ImproperState state))"

definition add_messages :: "'m list \<Rightarrow> 'm response \<Rightarrow> 'm response" where
  "add_messages ms r = r\<lparr>r_messages := r_messages r @ ms\<rparr>"

lemma add_messages_messages [simp]: "r_messages (add_messages ms r) = r_messages r @ ms"
  by (simp add: add_messages_def)

definition ap_withdraw_complaint ::
  "cw_lib \<Rightarrow> env \<Rightarrow> message_info \<Rightarrow> u64 \<Rightarrow> string \<Rightarrow> 'v ap_state \<Rightarrow> 'v ap_result" where
  "ap_withdraw_complaint L env info complaint_id reason s =
     bindE (map_err AP_Std (ap_config_of s)) (\<lambda>config.
     bindE (of_opt (AP_ComplaintMissing complaint_id) (sget (as_complaints s) complaint_id)) (\<lambda>complaint.
     if cp_plaintiff complaint \<noteq> i_sender info then Inl (AP_Unauthorized (i_sender info))
     else
       bindE (ap_refunds L (ac_dispute_cost config) (i_sender info) (cp_defendant complaint)
           (complaint_current_state L (e_block env) complaint)) (\<lambda>messages.
       let complaint = complaint\<lparr>cp_state := Withdrawn reason\<rparr> in
       Inr (s\<lparr>as_complaints := sput complaint_id complaint (as_complaints s)\<rparr>,
         add_attr ''complaint_id'' (AU64 complaint_id)
           (add_attr ''action'' (AStr ''withdraw_complaint'')
             (add_messages (map ApBank messages) new_response))))))"

section \<open>Decisions\<close>

text \<open>
  The loop that reads the voters of a multisig ends when a page comes back empty. An endless one
  runs out of gas and aborts.
\<close>

partial_function (option) multisig_voters_loop ::
  "(string option \<Rightarrow> std_error + string list) \<Rightarrow> string list \<Rightarrow> (std_error + string list) option" where
  "multisig_voters_loop page voters =
     (case page (if voters = [] then None else Some (last voters)) of
        Inl e \<Rightarrow> Some (Inl e)
      | Inr new \<Rightarrow> if new = [] then Some (Inr voters) else multisig_voters_loop page (voters @ new))"

definition query_multisig_voters :: "voters_query \<Rightarrow> addr \<Rightarrow> ap_error + string list" where
  "query_multisig_voters VQ a =
     (case multisig_voters_loop (VQ a) [] of None \<Rightarrow> Inl AP_Panic | Some r \<Rightarrow> map_err AP_Std r)"

definition ap_render_decision ::
  "voters_query \<Rightarrow> message_info \<Rightarrow> u64 \<Rightarrow> string \<Rightarrow> string \<Rightarrow> 'v ap_state \<Rightarrow> 'v ap_result" where
  "ap_render_decision VQ info complaint_id summary ipfs_link s =
     bindE (map_err AP_Std (ap_config_of s)) (\<lambda>config.
     bindE (of_opt (AP_ComplaintMissing complaint_id) (sget (as_complaints s) complaint_id)) (\<lambda>complaint.
     bindE (case cp_state complaint of
         Processing arbiters \<Rightarrow>
           if arbiters \<noteq> i_sender info then Inl (AP_Unauthorized (''Only '' @ arbiters @ '' can render decision for this complaint''))
           else Inr ()
       | state \<Rightarrow> Inl (AP_ImproperState state)) (\<lambda>_.
     let s = s\<lparr>as_complaints := sput complaint_id (complaint\<lparr>cp_state := Closed summary ipfs_link\<rparr>) (as_complaints s)\<rparr> in
     bindE (query_multisig_voters VQ (i_sender info)) (\<lambda>members.
     let n = of_nat (length members) :: u128 in
     if n = 0 then Inl AP_Panic
     else
       let dispute = (ac_dispute_cost config)\<lparr>c_amount := 2 * c_amount (ac_dispute_cost config) div n\<rparr>;
           resp = add_attr ''complaint_id'' (AU64 complaint_id)
             (add_attr ''action'' (AStr ''render_decision'') new_response)
       in Inr (s, add_messages (map (\<lambda>m. ApBank (BankSend m [dispute])) members) resp)))))"

section \<open>Execution of proposals\<close>

definition ap_label :: "u64 \<Rightarrow> string" where
  "ap_label case_id = show_u64 case_id @ '' AP''"

definition ap_execute_propose_arbiters ::
  "cw_lib \<Rightarrow> env \<Rightarrow> u64 \<Rightarrow> addr list \<Rightarrow> 'v ap_state \<Rightarrow> 'v ap_result" where
  "ap_execute_propose_arbiters L env case_id arbiters s =
     bindE (ap_load (sget (as_complaints s) case_id)) (\<lambda>complaint.
     if complaint_current_state L (e_block env) complaint \<noteq> Accepted then Inl (AP_ImproperState (cp_state complaint))
     else
       bindE (map_err AP_Std (ap_config_of s)) (\<lambda>config.
       let pass_weight = length arbiters div 2 + 1;
           multisig = \<lparr>mi_voters = map (\<lambda>a. \<lparr>vo_addr = a, vo_weight = 1\<rparr>) arbiters,
             mi_threshold = AbsoluteCount (of_nat pass_weight),
             mi_max_voting_period = DurationTime (ac_waiting_period config),
             mi_complaint_id = case_id\<rparr>;
           s = s\<lparr>as_awaiting := Some case_id\<rparr>
       in Inr (s, add_message (ApInstantiateMultisig (ac_multisig_code_id config) multisig
            (ap_label case_id)) new_response)))"

definition ap_execute_execute ::
  "cw_lib \<Rightarrow> ('v, 'w, ap_proposal, 'r, ap_msg) voting_lib \<Rightarrow> env \<Rightarrow> message_info \<Rightarrow> u64 \<Rightarrow> 'v ap_state \<Rightarrow> 'v ap_result" where
  "ap_execute_execute L VL env info proposal_id s =
     bindE (map_err ap_voting_error (vl_mark_executed VL env proposal_id (as_voting s))) (\<lambda>(v, proposal).
     let s = s\<lparr>as_voting := v\<rparr> in
     bindE (case vl_content VL proposal of
         APText \<Rightarrow> bindE (map_err ap_voting_error (vl_execute_text VL proposal_id proposal (as_voting s)))
           (\<lambda>v. Inr (s\<lparr>as_voting := v\<rparr>, new_response))
       | ProposeArbiters case_id arbiters \<Rightarrow> ap_execute_propose_arbiters L env case_id arbiters s) (\<lambda>(s, resp).
     Inr (s, add_attr ''sender'' (AStr (i_sender info)) (add_attr ''proposal_id'' (AU64 proposal_id)
       (add_attr ''action'' (AStr ''execute'') resp)))))"

definition ap_voting_call ::
  "voting_error + ('v \<times> ap_msg response) \<Rightarrow> 'v ap_state \<Rightarrow> 'v ap_result" where
  "ap_voting_call r s = bindE (map_err ap_voting_error r) (\<lambda>(v, res). Inr (s\<lparr>as_voting := v\<rparr>, res))"

definition ap_execute ::
  "cw_lib \<Rightarrow> ap_lib \<Rightarrow> ('v, 'w, ap_proposal, 'r, ap_msg) voting_lib \<Rightarrow> voters_query \<Rightarrow> env \<Rightarrow> message_info \<Rightarrow>
   ap_execute_msg \<Rightarrow> 'v ap_state \<Rightarrow> 'v ap_result" where
  "ap_execute L AL VL VQ env info msg s =
     (case msg of
        APPropose title description proposal \<Rightarrow>
          bindE (ap_validate_proposal L VL env (i_sender info) title description proposal s) (\<lambda>_.
          ap_voting_call (vl_propose VL env info title description proposal (as_voting s)) s)
      | APVote proposal_id vote \<Rightarrow> ap_voting_call (vl_vote VL env info proposal_id vote (as_voting s)) s
      | APExecute proposal_id \<Rightarrow> ap_execute_execute L VL env info proposal_id s
      | APClose proposal_id \<Rightarrow> ap_voting_call (vl_close VL env info proposal_id (as_voting s)) s
      | APRegisterComplaint title description defendant \<Rightarrow>
          ap_register_complaint L AL env info title description defendant s
      | APAcceptComplaint complaint_id \<Rightarrow> ap_accept_complaint L AL env info complaint_id s
      | APWithdrawComplaint complaint_id reason \<Rightarrow> ap_withdraw_complaint L env info complaint_id reason s
      | APRenderDecision complaint_id summary ipfs_link \<Rightarrow>
          ap_render_decision VQ info complaint_id summary ipfs_link s)"

text \<open>The reply to the instantiation of a multisig.\<close>

definition ap_multisig_instantiate_reply :: "cw_lib \<Rightarrow> ap_lib \<Rightarrow> reply_msg \<Rightarrow> 'v ap_state \<Rightarrow> 'v ap_result" where
  "ap_multisig_instantiate_reply L AL msg s =
     bindE (map_err (AP_ReplyParseFailure (rp_id msg)) (apl_reply_address AL msg)) (\<lambda>a.
     bindE (map_err AP_Std (l_addr_validate L a)) (\<lambda>addr.
     bindE (ap_load (as_awaiting s)) (\<lambda>complaint_id.
     bindE (of_opt (AP_ComplaintMissing complaint_id) (sget (as_complaints s) complaint_id)) (\<lambda>complaint.
     Inr (s\<lparr>as_complaints := sput complaint_id (complaint\<lparr>cp_state := Processing addr\<rparr>) (as_complaints s)\<rparr>,
       new_response)))))"

definition ap_reply :: "cw_lib \<Rightarrow> ap_lib \<Rightarrow> reply_msg \<Rightarrow> 'v ap_state \<Rightarrow> 'v ap_result" where
  "ap_reply L AL msg s =
     (if rp_id msg = 1 then ap_multisig_instantiate_reply L AL msg s
      else Inl (AP_UnrecognizedReply (rp_id msg)))"

section \<open>Privileges and migration\<close>

datatype privilege_change = Promoted | Demoted
datatype ap_sudo_msg = PrivilegeChange privilege_change | OtherSudo

definition ap_privilege_change :: "privilege_change \<Rightarrow> ap_msg response" where
  "ap_privilege_change change =
     (case change of
        Promoted \<Rightarrow> add_message (ApRequestPrivileges [GovProposalExecutor, ConsensusParamChanger]) new_response
      | Demoted \<Rightarrow> new_response)"

definition ap_sudo :: "ap_sudo_msg \<Rightarrow> 'v ap_state \<Rightarrow> 'v ap_result" where
  "ap_sudo msg s =
     (case msg of PrivilegeChange change \<Rightarrow> Inr (s, ap_privilege_change change)
      | OtherSudo \<Rightarrow> Inl AP_UnsupportedSudoType)"

text \<open>Reading the stored configuration as that of version 0.6.2 ignores the field added since.\<close>

fun ap_old_config :: "ap_stored_config \<Rightarrow> ap_config_0_6_2" where
  "ap_old_config (OldConfig c) = c"
| "ap_old_config (PresentConfig c) = \<lparr>ao_dispute_cost = ac_dispute_cost c,
     ao_waiting_period = ac_waiting_period c, ao_next_complaint_id = ac_next_complaint_id c\<rparr>"

definition ap_migrate_config :: "ap_lib \<Rightarrow> string \<Rightarrow> u64 \<Rightarrow> u64 \<Rightarrow> 'v ap_state \<Rightarrow> ap_error + 'v ap_state" where
  "ap_migrate_config AL version multisig_code waiting_period s =
     bindE (if apl_version_less AL version ''0.6.3''
       then bindE (ap_load (as_config s)) (\<lambda>c.
         let c = ap_old_config c in
         Inr \<lparr>ac_dispute_cost = ao_dispute_cost c, ac_waiting_period = ao_waiting_period c,
              ac_next_complaint_id = ao_next_complaint_id c, ac_multisig_code_id = multisig_code\<rparr>)
       else map_err AP_Std (ap_config_of s)) (\<lambda>config.
     let config = (if 0 < multisig_code then config\<lparr>ac_multisig_code_id := multisig_code\<rparr> else config);
         config = (if 0 < waiting_period then config\<lparr>ac_waiting_period := waiting_period\<rparr> else config)
     in Inr (s\<lparr>as_config := Some (PresentConfig config)\<rparr>))"

definition ap_migrate :: "ap_lib \<Rightarrow> u64 \<Rightarrow> u64 \<Rightarrow> 'v ap_state \<Rightarrow> 'v ap_result" where
  "ap_migrate AL multisig_code waiting_period s =
     bindE (map_err AP_Std (apl_ensure_older AL (as_version s) ''crates.io:tgrade_ap_voting'' ''0.15.0'')) (\<lambda>(stored, version).
     bindE (ap_migrate_config AL version multisig_code waiting_period (s\<lparr>as_version := stored\<rparr>)) (\<lambda>s.
     Inr (s, new_response)))"

section \<open>Queries\<close>

definition ap_align_limit :: "u32 option \<Rightarrow> nat" where
  "ap_align_limit limit = unat (min (case limit of None \<Rightarrow> 30 | Some l \<Rightarrow> l) 100)"

definition ap_query_complaint :: "cw_lib \<Rightarrow> env \<Rightarrow> u64 \<Rightarrow> 'v ap_state \<Rightarrow> std_error + complaint" where
  "ap_query_complaint L env complaint_id s =
     bindE (of_opt NotFound (sget (as_complaints s) complaint_id)) (\<lambda>c.
     Inr (complaint_update_state L (e_block env) c))"

definition ap_query_list_complaints ::
  "cw_lib \<Rightarrow> env \<Rightarrow> u64 option \<Rightarrow> nat \<Rightarrow> 'v ap_state \<Rightarrow> std_error + complaint list" where
  "ap_query_list_complaints L env start_after limit s =
     Inr (map (\<lambda>(_, c). complaint_update_state L (e_block env) c) (page_of limit start_after (as_complaints s)))"

text \<open>The other queries are answered by the voting package.\<close>

datatype ap_query_msg =
  APQ_Configuration
| APQ_Rules
| APQ_Proposal u64
| APQ_ListProposals "u64 option" "u32 option"
| APQ_ReverseProposals "u64 option" "u32 option"
| APQ_Vote u64 string
| APQ_ListVotes u64 "string option" "u32 option"
| APQ_ListVotesByVoter string "u64 option" "u32 option"
| APQ_Voter string
| APQ_ListVoters "string option" "u32 option"
| APQ_GroupContract
| APQ_Complaint u64
| APQ_ListComplaints "u64 option" "u32 option"

datatype 'a ap_answer = APA_Configuration ap_config | APA_Complaint complaint
  | APA_Complaints "complaint list" | APA_Voting 'a

definition ap_answer_with :: "('b \<Rightarrow> 'a ap_answer) \<Rightarrow> std_error + 'b \<Rightarrow> std_error + 'a ap_answer" where
  "ap_answer_with f r = bindE r (\<lambda>x. Inr (f x))"

definition ap_query ::
  "cw_lib \<Rightarrow> ('v, 'a) voting_queries \<Rightarrow> env \<Rightarrow> ap_query_msg \<Rightarrow> 'v ap_state \<Rightarrow> std_error + 'a ap_answer" where
  "ap_query L W env msg s =
     (let v = as_voting s in
      case msg of
        APQ_Configuration \<Rightarrow> ap_answer_with APA_Configuration (ap_config_of s)
      | APQ_Rules \<Rightarrow> ap_answer_with APA_Voting (vq_rules W v)
      | APQ_Proposal i \<Rightarrow> ap_answer_with APA_Voting (vq_proposal W env i v)
      | APQ_Vote i voter \<Rightarrow> ap_answer_with APA_Voting (vq_vote W i voter v)
      | APQ_ListProposals start limit \<Rightarrow>
          ap_answer_with APA_Voting (vq_list_proposals W env start (ap_align_limit limit) v)
      | APQ_ReverseProposals start limit \<Rightarrow>
          ap_answer_with APA_Voting (vq_reverse_proposals W env start (ap_align_limit limit) v)
      | APQ_ListVotes i start limit \<Rightarrow>
          ap_answer_with APA_Voting (vq_list_votes W i start (ap_align_limit limit) v)
      | APQ_ListVotesByVoter voter start limit \<Rightarrow>
          ap_answer_with APA_Voting (vq_list_votes_by_voter W voter start (ap_align_limit limit) v)
      | APQ_Voter a \<Rightarrow> ap_answer_with APA_Voting (vq_voter W a v)
      | APQ_ListVoters start limit \<Rightarrow> ap_answer_with APA_Voting (vq_list_voters W start limit v)
      | APQ_GroupContract \<Rightarrow> ap_answer_with APA_Voting (vq_group_contract W v)
      | APQ_Complaint i \<Rightarrow> ap_answer_with APA_Complaint (ap_query_complaint L env i s)
      | APQ_ListComplaints start limit \<Rightarrow>
          ap_answer_with APA_Complaints (ap_query_list_complaints L env start (ap_align_limit limit) s))"

end
