(* ===== verification/AP_Correct.thy ===== *)
theory AP_Correct
  imports AP_Contract
begin

text \<open>
  The arbiter pool over its whole life. A transaction is one call and, when the call instantiates
  a multisig, the reply to it: the chain runs nothing of the contract in between and undoes
  everything when one of them fails. Complaints move along a small state machine, and the
  contract never pays out more than the parties have paid in.
\<close>

section \<open>Transactions\<close>

fun ap_instantiates :: "ap_msg \<Rightarrow> bool" where
  "ap_instantiates (ApInstantiateMultisig _ _ _) = True"
| "ap_instantiates _ = False"

definition ap_transaction ::
  "cw_lib \<Rightarrow> ap_lib \<Rightarrow> ('v, 'w, ap_proposal, 'r, ap_msg) voting_lib \<Rightarrow> voters_query \<Rightarrow> env \<Rightarrow> message_info \<Rightarrow>
   ap_execute_msg \<Rightarrow> reply_msg \<Rightarrow> 'v ap_state \<Rightarrow> 'v ap_result" where
  "ap_transaction L AL VL VQ env info msg rep s =
     bindE (ap_execute L AL VL VQ env info msg s) (\<lambda>(s, r).
     if list_ex ap_instantiates (r_messages r)
     then bindE (ap_reply L AL rep s) (\<lambda>(s, _). Inr (s, r))
     else Inr (s, r))"

text \<open>What one transaction does to the stored state of a complaint.\<close>

inductive complaint_move :: "cw_lib \<Rightarrow> block_info \<Rightarrow> addr \<Rightarrow> complaint \<Rightarrow> complaint \<Rightarrow> bool"
  for L :: cw_lib and b :: block_info and sender :: addr where
  accepted: "cp_state c = Initiated e \<Longrightarrow> \<not> l_is_expired L e b \<Longrightarrow> sender = cp_defendant c \<Longrightarrow>
    complaint_move L b sender c (c\<lparr>cp_state := Waiting w\<rparr>)"
| retracted: "cp_state c = Initiated e \<Longrightarrow> sender = cp_plaintiff c \<Longrightarrow>
    complaint_move L b sender c (c\<lparr>cp_state := Withdrawn reason\<rparr>)"
| settled: "cp_state c = Waiting e \<Longrightarrow> \<not> l_is_expired L e b \<Longrightarrow> sender = cp_plaintiff c \<Longrightarrow>
    complaint_move L b sender c (c\<lparr>cp_state := Withdrawn reason\<rparr>)"
| assigned: "cp_state c = Waiting e \<Longrightarrow> l_is_expired L e b \<Longrightarrow>
    complaint_move L b sender c (c\<lparr>cp_state := Processing arbiters\<rparr>)"
| decided: "cp_state c = Processing sender \<Longrightarrow>
    complaint_move L b sender c (c\<lparr>cp_state := Closed summary link\<rparr>)"

text \<open>The stored states: aborted and accepted are only ever computed from the time.\<close>

definition stored_state :: "complaint_state \<Rightarrow> bool" where
  "stored_state st \<longleftrightarrow> st \<noteq> Aborted \<and> st \<noteq> Accepted"

lemma complaint_move_stored: "complaint_move L b a c c' \<Longrightarrow> stored_state (cp_state c')"
  by (induction rule: complaint_move.induct) (auto simp: stored_state_def)

lemma complaint_move_keeps:
  "complaint_move L b a c c' \<Longrightarrow> cp_plaintiff c' = cp_plaintiff c \<and> cp_defendant c' = cp_defendant c
     \<and> cp_title c' = cp_title c \<and> cp_description c' = cp_description c
     \<and> (\<forall>why. cp_state c \<noteq> Withdrawn why) \<and> (\<forall>u l. cp_state c \<noteq> Closed u l)"
  by (induction rule: complaint_move.induct) auto

inductive_cases moves_from: "complaint_move L b a c c'"

section \<open>What each call does\<close>

text \<open>
  The effect of a call on the complaints: none, a new complaint, or one complaint moved. The
  number of coins it takes in, and what it sends, is stated with it.
\<close>

lemma current_state_cases:
  "complaint_current_state L b c = Initiated e \<Longrightarrow> cp_state c = Initiated e \<and> \<not> l_is_expired L e b"
  "complaint_current_state L b c = Waiting e \<Longrightarrow> cp_state c = Waiting e \<and> \<not> l_is_expired L e b"
  "complaint_current_state L b c = Aborted \<Longrightarrow>
     cp_state c = Aborted \<or> (\<exists>e. cp_state c = Initiated e \<and> l_is_expired L e b)"
  "complaint_current_state L b c = Accepted \<Longrightarrow>
     cp_state c = Accepted \<or> (\<exists>e. cp_state c = Waiting e \<and> l_is_expired L e b)"
  by (auto simp: complaint_current_state_def split: complaint_state.splits if_splits)

lemma check_payment_Inr:
  "payment_law L \<Longrightarrow> ap_check_payment L info cost = Inr () \<Longrightarrow> i_funds info = [cost]"
  by (auto simp: ap_check_payment_def dest!: must_pay_amount split: if_splits)

lemma register_shape:
  assumes "ap_register_complaint L AL env info t d def s = Inr (s', r)"
  obtains c a where "as_config s = Some (PresentConfig c)" "ap_check_payment L info (ac_dispute_cost c) = Inr ()"
    "s' = s\<lparr>as_complaints := sput (ac_next_complaint_id c)
        \<lparr>cp_title = t, cp_description = d, cp_plaintiff = i_sender info, cp_defendant = a,
         cp_state = Initiated (apl_after AL (ac_waiting_period c) (e_block env))\<rparr> (as_complaints s),
      as_config := Some (PresentConfig (c\<lparr>ac_next_complaint_id := ac_next_complaint_id c + 1\<rparr>))\<rparr>"
    "r_messages r = []"
  using assms by (auto simp: ap_register_complaint_def Let_def)

lemma accept_shape:
  assumes "ap_accept_complaint L AL env info i s = Inr (s', r)"
  obtains c x e where "as_config s = Some (PresentConfig c)" "ap_check_payment L info (ac_dispute_cost c) = Inr ()"
    "sget (as_complaints s) i = Some x" "i_sender info = cp_defendant x"
    "cp_state x = Initiated e" "\<not> l_is_expired L e (e_block env)"
    "s' = s\<lparr>as_complaints := sput i
        (x\<lparr>cp_state := Waiting (apl_after AL (ac_waiting_period c) (e_block env))\<rparr>) (as_complaints s)\<rparr>"
    "r_messages r = []"
  using assms
  by (auto simp: ap_accept_complaint_def Let_def dest!: current_state_cases(1)
      split: if_splits complaint_state.splits)

lemma withdraw_complaint_shape:
  assumes "ap_withdraw_complaint L env info i reason s = Inr (s', r)"
  obtains c x ms where "as_config s = Some (PresentConfig c)"
    "sget (as_complaints s) i = Some x" "i_sender info = cp_plaintiff x"
    "ap_refunds L (ac_dispute_cost c) (i_sender info) (cp_defendant x)
       (complaint_current_state L (e_block env) x) = Inr ms"
    "s' = s\<lparr>as_complaints := sput i (x\<lparr>cp_state := Withdrawn reason\<rparr>) (as_complaints s)\<rparr>"
    "r_messages r = map ApBank ms"
  using assms by (auto simp: ap_withdraw_complaint_def Let_def split: if_splits)

lemma render_shape:
  assumes "ap_render_decision VQ info i summary link s = Inr (s', r)"
  obtains c x ms where "as_config s = Some (PresentConfig c)"
    "sget (as_complaints s) i = Some x" "cp_state x = Processing (i_sender info)"
    "query_multisig_voters VQ (i_sender info) = Inr ms" "(of_nat (length ms) :: u128) \<noteq> 0"
    "s' = s\<lparr>as_complaints := sput i (x\<lparr>cp_state := Closed summary link\<rparr>) (as_complaints s)\<rparr>"
    "r_messages r = map (\<lambda>m. ApBank (BankSend m [(ac_dispute_cost c)\<lparr>c_amount :=
       2 * c_amount (ac_dispute_cost c) div of_nat (length ms)\<rparr>])) ms"
  using assms
  by (auto simp: ap_render_decision_def Let_def split: if_splits complaint_state.splits)

lemma arbiters_shape:
  assumes "ap_execute_propose_arbiters L env i as s = Inr (s', r)"
  obtains x c where "sget (as_complaints s) i = Some x"
      "complaint_current_state L (e_block env) x = Accepted" "as_config s = Some (PresentConfig c)"
      "s' = s\<lparr>as_awaiting := Some i\<rparr>"
      "r_messages r = [ApInstantiateMultisig (ac_multisig_code_id c)
         \<lparr>mi_voters = map (\<lambda>a. \<lparr>vo_addr = a, vo_weight = 1\<rparr>) as,
          mi_threshold = AbsoluteCount (of_nat (length as div 2 + 1)),
          mi_max_voting_period = DurationTime (ac_waiting_period c), mi_complaint_id = i\<rparr> (ap_label i)]"
  using assms by (auto simp: ap_execute_propose_arbiters_def Let_def split: if_splits)

lemma execute_executed_shape:
  assumes "ap_execute_execute L VL env info n s = Inr (s', r)"
  obtains (plain) v where "s' = s\<lparr>as_voting := v\<rparr>" "r_messages r = []"
    | (arbiters) v w i as r1 where "vl_mark_executed VL env n (as_voting s) = Inr (v, w)"
      "vl_content VL w = ProposeArbiters i as"
      "ap_execute_propose_arbiters L env i as (s\<lparr>as_voting := v\<rparr>) = Inr (s', r1)" "r_messages r = r_messages r1"
proof -
  from assms obtain v w where w: "vl_mark_executed VL env n (as_voting s) = Inr (v, w)"
    by (auto simp: ap_execute_execute_def)
  show thesis
  proof (cases "vl_content VL w")
    case APText
    with assms w show thesis by (auto simp: ap_execute_execute_def Let_def intro: plain)
  next
    case (ProposeArbiters i as)
    with assms w show thesis by (auto simp: ap_execute_execute_def Let_def intro: arbiters)
  qed
qed

lemma reply_shape:
  assumes "ap_reply L AL rep s = Inr (s', r)"
  obtains i x a0 a where "as_awaiting s = Some i" "sget (as_complaints s) i = Some x"
    "apl_reply_address AL rep = Inr a0" "l_addr_validate L a0 = Inr a"
    "s' = s\<lparr>as_complaints := sput i (x\<lparr>cp_state := Processing a\<rparr>) (as_complaints s)\<rparr>"
  using assms by (auto simp: ap_reply_def ap_multisig_instantiate_reply_def split: if_splits)

section \<open>What each transaction does\<close>

lemma voting_call_shape:
  assumes "ap_voting_call x s = Inr (s', r)"
  obtains v where "x = Inr (v, r)" "s' = s\<lparr>as_voting := v\<rparr>"
  using assms by (auto simp: ap_voting_call_def)

lemma no_instantiation:
  "list_ex ap_instantiates (map ApBank ms) = False" "list_ex ap_instantiates [] = False"
  "list_ex ap_instantiates (map (\<lambda>m. ApBank (f m)) xs) = False"
  by (auto simp: list_ex_iff)

definition ap_sent :: "ap_msg list \<Rightarrow> nat" where
  "ap_sent ms = sum_list (map (\<lambda>m. case m of ApBank b \<Rightarrow> msg_amount b | _ \<Rightarrow> 0) ms)"

lemma ap_sent_bank: "ap_sent (map ApBank ms) = sent ms"
  by (simp add: ap_sent_def sent_def comp_def)

text \<open>The complaints and the configuration after a transaction.\<close>

definition same_books :: "'v ap_state \<Rightarrow> 'v ap_state \<Rightarrow> bool" where
  "same_books s s' \<longleftrightarrow> as_complaints s' = as_complaints s \<and> as_config s' = as_config s"

definition moved_books ::
  "cw_lib \<Rightarrow> env \<Rightarrow> message_info \<Rightarrow> u64 \<Rightarrow> complaint \<Rightarrow> complaint \<Rightarrow> 'v ap_state \<Rightarrow> 'v ap_state \<Rightarrow> bool" where
  "moved_books L env info i x x' s s' \<longleftrightarrow> sget (as_complaints s) i = Some x
     \<and> complaint_move L (e_block env) (i_sender info) x x'
     \<and> as_complaints s' = sput i x' (as_complaints s) \<and> as_config s' = as_config s"

text \<open>
  A complaint becomes one in processing exactly when the transaction instantiates a multisig for
  it: one voter of weight one per proposed arbiter, an absolute count, and the address the chain
  reports in the reply.
\<close>

definition appointment ::
  "cw_lib \<Rightarrow> ap_lib \<Rightarrow> reply_msg \<Rightarrow> u64 \<Rightarrow> complaint \<Rightarrow> ap_msg list \<Rightarrow> bool" where
  "appointment L AL rep i x' ms \<longleftrightarrow>
     (case cp_state x' of
        Processing a \<Rightarrow> \<exists>code m label as a0. ms = [ApInstantiateMultisig code m label]
          \<and> mi_complaint_id m = i \<and> mi_voters m = map (\<lambda>a. \<lparr>vo_addr = a, vo_weight = 1\<rparr>) as
          \<and> mi_threshold m = AbsoluteCount (of_nat (length as div 2 + 1))
          \<and> apl_reply_address AL rep = Inr a0 \<and> l_addr_validate L a0 = Inr a
      | _ \<Rightarrow> \<not> list_ex ap_instantiates ms)"

section \<open>Money\<close>

text \<open>
  What the contract holds for a complaint, by its stored state: one dispute cost while it is
  only registered, both once it is accepted, nothing that anyone can still claim at the end.
\<close>

fun claim_pot :: "nat \<Rightarrow> complaint_state \<Rightarrow> nat" where
  "claim_pot cost (Initiated _) = cost"
| "claim_pot cost (Waiting _) = 2 * cost"
| "claim_pot cost (Processing _) = 2 * cost"
| "claim_pot cost _ = 0"

definition ap_cost :: "'v ap_state \<Rightarrow> nat" where
  "ap_cost s = (case as_config s of Some (PresentConfig c) \<Rightarrow> unat (c_amount (ac_dispute_cost c)) | _ \<Rightarrow> 0)"

lemma ap_cost_config: "as_config s = Some (PresentConfig c) \<Longrightarrow> ap_cost s = unat (c_amount (ac_dispute_cost c))"
  by (simp add: ap_cost_def)

fun ap_received :: "ap_execute_msg \<Rightarrow> message_info \<Rightarrow> nat" where
  "ap_received (APRegisterComplaint _ _ _) info = coins_amount (i_funds info)"
| "ap_received (APAcceptComplaint _) info = coins_amount (i_funds info)"
| "ap_received _ info = 0"

text \<open>
  Twice the dispute cost fits into a \<open>u128\<close>, and the voters of a multisig fit into the memory of
  the contract.
\<close>

definition money_fits :: "cw_lib \<Rightarrow> voters_query \<Rightarrow> 'v ap_state \<Rightarrow> bool" where
  "money_fits L VQ s \<longleftrightarrow> decimal_law L \<and> payment_law L \<and> ap_cost s < 2 ^ 127
     \<and> (\<forall>a ms. query_multisig_voters VQ a = Inr ms \<longrightarrow> length ms < 2 ^ 32)"

lemma payment_received:
  assumes "money_fits L VQ s" and "as_config s = Some (PresentConfig c)"
    and "ap_check_payment L info (ac_dispute_cost c) = Inr ()"
  shows "coins_amount (i_funds info) = ap_cost s"
  using assms check_payment_Inr [of L info "ac_dispute_cost c"]
  by (simp add: money_fits_def ap_cost_config)

lemma withdraw_money:
  assumes "money_fits L VQ s" and "as_config s = Some (PresentConfig c)"
    and "ap_refunds L (ac_dispute_cost c) p d (complaint_current_state L b x) = Inr ms"
    and "stored_state (cp_state x)"
  shows "sent ms \<le> claim_pot (ap_cost s) (cp_state x)"
proof -
  let ?cost = "ac_dispute_cost c" and ?st = "complaint_current_state L b x"
  have law: "decimal_law L" using assms(1) by (simp add: money_fits_def)
  have part: "unat a \<le> ap_cost s" if "l_mul_decimal L (c_amount ?cost) (percent 80) = Some a" for a
    using mul_decimal_le_one [OF law _ that] assms(2)
    by (simp add: percent_def ap_cost_config word_le_nat_alt)
  consider e where "cp_state x = Initiated e" "?st = Initiated e \<or> ?st = Aborted"
    | e where "cp_state x = Waiting e" "?st = Waiting e"
    using assms(3,4) current_state_cases [of L b x]
    by (cases ?st) (auto simp: ap_refunds_def stored_state_def)
  then show ?thesis
  proof cases
    case 1
    then show ?thesis using assms(2,3) part by (auto simp: ap_refunds_def ap_cost_config)
  next
    case 2
    then show ?thesis using assms(2,3) part by (fastforce simp: ap_refunds_def)
  qed
qed

text \<open>
  What a withdrawal owes, written down directly: the addresses and amounts, or nothing when the
  complaint can no longer be withdrawn.
\<close>

definition refund_due :: "nat \<Rightarrow> (expiration \<Rightarrow> bool) \<Rightarrow> complaint \<Rightarrow> (addr \<times> nat) list option" where
  "refund_due cost over x =
     (case cp_state x of
        Initiated e \<Rightarrow> Some [(cp_plaintiff x, if over e then cost else cost * 4 div 5)]
      | Waiting e \<Rightarrow> if over e then None else Some [(cp_plaintiff x, cost * 4 div 5), (cp_defendant x, cost * 4 div 5)]
      | _ \<Rightarrow> None)"

lemma eighty_percent:
  assumes "decimal_law L"
  shows "l_mul_decimal L v (percent 80) = Some (of_nat (unat v * 4 div 5))"
proof -
  have p: "unat (percent 80) = 80 * 10 ^ 16" by (simp add: percent_def)
  have "unat v * (80 * 10 ^ 16) div 10 ^ 18 = unat v * 4 * (2 * 10 ^ 17) div (5 * (2 * 10 ^ 17))" by simp
  also have "\<dots> = unat v * 4 div 5" by (rule div_mult_mult2) simp
  finally have "unat v * unat (percent 80) div 10 ^ 18 = unat v * 4 div 5" unfolding p .
  moreover have "unat v * 4 div 5 < 2 ^ 128" using unat_u128 [of v] by linarith
  ultimately show ?thesis using assms by (simp add: decimal_law_def Let_def)
qed

lemma render_money:
  assumes "money_fits L VQ s" and "as_config s = Some (PresentConfig c)"
    and "query_multisig_voters VQ a = Inr ms"
  shows "ap_sent (map (\<lambda>m. ApBank (BankSend m [(ac_dispute_cost c)\<lparr>c_amount :=
      2 * c_amount (ac_dispute_cost c) div of_nat (length ms)\<rparr>])) ms) \<le> 2 * ap_cost s"
proof -
  let ?x = "c_amount (ac_dispute_cost c)" and ?n = "of_nat (length ms) :: u128"
  have cost: "ap_cost s = unat ?x" "unat ?x < 2 ^ 127" and len: "length ms < 2 ^ 32"
    using assms by (simp_all add: money_fits_def ap_cost_config)
  have x2: "unat (2 * ?x) = 2 * unat ?x" using cost(2) by (simp add: unat_word_ariths)
  have n: "unat ?n = length ms" using len by (simp add: unat_of_nat)
  have "ap_sent (map (\<lambda>m. ApBank (BankSend m [(ac_dispute_cost c)\<lparr>c_amount := y\<rparr>])) as)
      = length as * unat y" for y as
    by (induction as) (auto simp: ap_sent_def)
  then have "ap_sent (map (\<lambda>m. ApBank (BankSend m [(ac_dispute_cost c)\<lparr>c_amount := 2 * ?x div ?n\<rparr>])) ms)
      = length ms * (2 * unat ?x div length ms)"
    by (simp only: unat_div x2 n)
  also have "\<dots> \<le> 2 * unat ?x" by simp
  finally show ?thesis unfolding cost .
qed

lemma transaction_cases [consumes 3, case_names same register moved]:
  assumes "ap_transaction L AL VL VQ env info msg rep s = Inr (s', r)" and "quiet_law VL"
    and all_stored: "\<forall>i x. sget (as_complaints s) i = Some x \<longrightarrow> stored_state (cp_state x)"
  obtains (same) "same_books s s'" "ap_sent (r_messages r) = 0"
      "\<not> list_ex ap_instantiates (r_messages r)"
      "\<And>t d a. msg \<noteq> APRegisterComplaint t d a" "\<And>i. msg \<noteq> APAcceptComplaint i"
    | (register) t d a where "msg = APRegisterComplaint t d a"
      "ap_register_complaint L AL env info t d a s = Inr (s', r)"
    | (moved) i x x' where "moved_books L env info i x x' s s'"
      "money_fits L VQ s \<Longrightarrow> claim_pot (ap_cost s) (cp_state x') + ap_sent (r_messages r)
         \<le> claim_pot (ap_cost s) (cp_state x) + ap_received msg info"
      "appointment L AL rep i x' (r_messages r)"
      "\<And>t d a. msg \<noteq> APRegisterComplaint t d a"
proof -
  have stored: "stored_state (cp_state x)" if "sget (as_complaints s) i = Some x" for i x
    using all_stored that by blast
  from assms(1) obtain s1 where ex: "ap_execute L AL VL VQ env info msg s = Inr (s1, r)"
    and rest: "if list_ex ap_instantiates (r_messages r) then \<exists>r'. ap_reply L AL rep s1 = Inr (s', r') else s' = s1"
    by (auto simp: ap_transaction_def split: if_splits)
  have voting: "same_books s s' \<and> r_messages r = []"
    if "ap_voting_call x s = Inr (s1, r)" "\<And>v. x = Inr (v, r) \<Longrightarrow> r_messages r = []" for x
    using that rest by (auto elim!: voting_call_shape simp: same_books_def no_instantiation)
  show thesis
  proof (cases msg)
    case (APPropose t d p)
    with ex have "same_books s s' \<and> r_messages r = []"
      using assms(2) by (intro voting) (auto simp: ap_execute_def quiet_law_def)
    with APPropose show thesis by (intro same) (auto simp: ap_sent_def no_instantiation)
  next
    case (APVote n v)
    with ex have "same_books s s' \<and> r_messages r = []"
      using assms(2) by (intro voting) (auto simp: ap_execute_def quiet_law_def)
    with APVote show thesis by (intro same) (auto simp: ap_sent_def no_instantiation)
  next
    case (APClose n)
    with ex have "same_books s s' \<and> r_messages r = []"
      using assms(2) by (intro voting) (auto simp: ap_execute_def quiet_law_def)
    with APClose show thesis by (intro same) (auto simp: ap_sent_def no_instantiation)
  next
    case (APExecute n)
    with ex have "ap_execute_execute L VL env info n s = Inr (s1, r)" by (simp add: ap_execute_def)
    then show thesis
    proof (cases rule: execute_executed_shape)
      case (plain v)
      with rest APExecute show thesis by (intro same) (auto simp: same_books_def no_instantiation ap_sent_def)
    next
      case (arbiters v w i as r1)
      from arbiters(3) show thesis
      proof (cases rule: arbiters_shape)
        case (1 x c)
        then have x: "sget (as_complaints s) i = Some x" by simp
        obtain e where e: "cp_state x = Waiting e" "l_is_expired L e (e_block env)"
          using current_state_cases(4) [OF 1(2)] stored [OF x] by (auto simp: stored_state_def)
        have "\<exists>r'. ap_reply L AL rep s1 = Inr (s', r')"
          using rest 1(5) arbiters(4) by simp
        then obtain a0 a where a: "apl_reply_address AL rep = Inr a0" "l_addr_validate L a0 = Inr a"
          "s' = s1\<lparr>as_complaints := sput i (x\<lparr>cp_state := Processing a\<rparr>) (as_complaints s1)\<rparr>"
          using 1(1,4) by (auto elim!: reply_shape)
        then have "moved_books L env info i x (x\<lparr>cp_state := Processing a\<rparr>) s s'"
          using x e 1(4) by (auto simp: moved_books_def intro: assigned)
        then show thesis
          using APExecute 1(5) arbiters(4) e a(1,2) by (intro moved) (auto simp: ap_sent_def appointment_def)
      qed
    qed
  next
    case (APRegisterComplaint t d a)
    with ex have "ap_register_complaint L AL env info t d a s = Inr (s1, r)" by (simp add: ap_execute_def)
    moreover from this rest have "s' = s1" by (auto elim!: register_shape simp: no_instantiation)
    ultimately show thesis using APRegisterComplaint by (intro register) auto
  next
    case (APAcceptComplaint i)
    with ex have call: "ap_accept_complaint L AL env info i s = Inr (s1, r)" by (simp add: ap_execute_def)
    then have "s' = s1" using rest by (auto elim!: accept_shape simp: no_instantiation)
    from call show thesis
    proof (cases rule: accept_shape)
      case (1 c x e)
      let ?x = "x\<lparr>cp_state := Waiting (apl_after AL (ac_waiting_period c) (e_block env))\<rparr>"
      have "complaint_move L (e_block env) (i_sender info) x ?x" using 1(4-6) by (intro accepted)
      with 1 \<open>s' = s1\<close> have "moved_books L env info i x ?x s s'" by (simp add: moved_books_def)
      then show thesis
        using APAcceptComplaint 1 payment_received [of L VQ s c info]
        by (intro moved) (auto simp: ap_sent_def appointment_def no_instantiation)
    qed
  next
    case (APWithdrawComplaint i reason)
    with ex have call: "ap_withdraw_complaint L env info i reason s = Inr (s1, r)" by (simp add: ap_execute_def)
    then have "s' = s1" using rest by (auto elim!: withdraw_complaint_shape simp: no_instantiation)
    with call show thesis
    proof (cases rule: withdraw_complaint_shape)
      case (1 c x ms)
      let ?st = "complaint_current_state L (e_block env) x"
      have "(\<exists>e. ?st = Initiated e) \<or> (\<exists>e. ?st = Waiting e) \<or> ?st = Aborted"
        using 1(4) by (auto simp: ap_refunds_def split: complaint_state.splits)
      then have "complaint_move L (e_block env) (i_sender info) x (x\<lparr>cp_state := Withdrawn reason\<rparr>)"
        using stored [OF 1(2)] 1(3) current_state_cases [of L "e_block env" x]
        by (auto simp: stored_state_def intro: retracted settled)
      with 1 \<open>s' = s1\<close> have "moved_books L env info i x (x\<lparr>cp_state := Withdrawn reason\<rparr>) s s'"
        by (simp add: moved_books_def)
      then show thesis
        using APWithdrawComplaint 1 withdraw_money [OF _ 1(1,4) stored [OF 1(2)]]
        by (intro moved) (auto simp: ap_sent_bank appointment_def no_instantiation)
    qed
  next
    case (APRenderDecision i summary link)
    with ex have call: "ap_render_decision VQ info i summary link s = Inr (s1, r)" by (simp add: ap_execute_def)
    then have "s' = s1" using rest by (auto elim!: render_shape simp: no_instantiation)
    from call show thesis
    proof (cases rule: render_shape)
      case (1 c x ms)
      let ?x = "x\<lparr>cp_state := Closed summary link\<rparr>"
      have "complaint_move L (e_block env) (i_sender info) x ?x" using 1(3) by (intro decided)
      with 1 \<open>s' = s1\<close> have "moved_books L env info i x ?x s s'" by (simp add: moved_books_def)
      then show thesis
        using APRenderDecision 1 render_money [OF _ 1(1,4)]
        by (intro moved) (auto simp: appointment_def no_instantiation)
    qed
  qed
qed

section \<open>Runs\<close>

text \<open>
  \<open>ap_run\<close>: after \<open>n\<close> successful transactions in blocks in order, having taken in and paid out so
  many coins for complaints. What other contracts answer may differ from call to call.
\<close>

inductive ap_run ::
  "cw_lib \<Rightarrow> ap_lib \<Rightarrow> ('v, 'w, ap_proposal, 'r, ap_msg) voting_lib \<Rightarrow> nat \<Rightarrow> block_info \<Rightarrow> 'v ap_state \<Rightarrow>
   nat \<Rightarrow> nat \<Rightarrow> bool" for L AL VL where
  ap_start: "ap_instantiate VL msg (ap_empty v) = Inr (s, r) \<Longrightarrow> ap_run L AL VL 0 b s 0 0"
| ap_next: "ap_run L AL VL n b s i out \<Longrightarrow> ap_transaction L AL VL VQ env info msg rep s = Inr (s', r) \<Longrightarrow>
     b \<le> e_block env \<Longrightarrow> \<forall>a ms. query_multisig_voters VQ a = Inr ms \<longrightarrow> length ms < 2 ^ 32 \<Longrightarrow>
     ap_run L AL VL (Suc n) (e_block env) s' (i + ap_received msg info) (out + ap_sent (r_messages r))"

definition ap_pot :: "'v ap_state \<Rightarrow> nat" where
  "ap_pot s = tally (\<lambda>_ x. claim_pot (ap_cost s) (cp_state x)) (as_complaints s)"

definition ap_inv :: "nat \<Rightarrow> 'v ap_state \<Rightarrow> bool" where
  "ap_inv n s \<longleftrightarrow> sorted_store (as_complaints s)
     \<and> (\<forall>i x. sget (as_complaints s) i = Some x \<longrightarrow> stored_state (cp_state x))
     \<and> (\<exists>c. as_config s = Some (PresentConfig c) \<and> unat (ac_next_complaint_id c) \<le> n
          \<and> (\<forall>i. sget (as_complaints s) i \<noteq> None \<longleftrightarrow> i < ac_next_complaint_id c))"

lemma ap_inv_stored: "ap_inv n s \<Longrightarrow> \<forall>i x. sget (as_complaints s) i = Some x \<longrightarrow> stored_state (cp_state x)"
  by (auto simp: ap_inv_def)

lemma ap_inv_move:
  assumes "ap_inv n s" and "moved_books L env info i x x' s s'"
  shows "ap_inv (Suc n) s' \<and> ap_cost s' = ap_cost s"
proof -
  from assms(2) have x: "sget (as_complaints s) i = Some x"
    and m: "complaint_move L (e_block env) (i_sender info) x x'"
    and s': "as_complaints s' = sput i x' (as_complaints s)" "as_config s' = as_config s"
    by (simp_all add: moved_books_def)
  obtain c where c: "as_config s = Some (PresentConfig c)"
    and dense: "\<forall>j. sget (as_complaints s) j \<noteq> None \<longleftrightarrow> j < ac_next_complaint_id c"
    using assms(1) by (auto simp: ap_inv_def)
  have "i < ac_next_complaint_id c" using dense [rule_format, of i] x by simp
  with assms(1) c show ?thesis using s' complaint_move_stored [OF m] by (auto simp: ap_inv_def ap_cost_def)
qed

lemma ap_inv_step:
  assumes "ap_inv n s" and "Suc n < 2 ^ 64" and "ap_transaction L AL VL VQ env info msg rep s = Inr (s', r)"
    and "quiet_law VL"
  shows "ap_inv (Suc n) s' \<and> ap_cost s' = ap_cost s"
  using assms(3,4) ap_inv_stored [OF assms(1)]
proof (cases rule: transaction_cases)
  case same
  with assms(1) show ?thesis by (auto simp: ap_inv_def same_books_def ap_cost_def)
next
  case (register t d a)
  from register(2) show ?thesis
  proof (cases rule: register_shape)
    case (1 c d')
    have "unat (ac_next_complaint_id c) \<le> n" using assms(1) 1(1) by (simp add: ap_inv_def)
    then have next_id: "unat (ac_next_complaint_id c + 1) = Suc (unat (ac_next_complaint_id c))"
      using assms(2) by (simp add: unat_word_ariths)
    then have "i < ac_next_complaint_id c + 1 \<longleftrightarrow> i < ac_next_complaint_id c \<or> i = ac_next_complaint_id c" for i
      by (auto simp: word_less_nat_alt less_Suc_eq word_unat_eq_iff)
    then show ?thesis
      using assms(1) 1 next_id by (auto simp: ap_inv_def stored_state_def ap_cost_def)
  qed
next
  case (moved i x x')
  then show ?thesis by (intro ap_inv_move [OF assms(1)])
qed

lemma ap_money_step:
  assumes "ap_inv n s" and "ap_transaction L AL VL VQ env info msg rep s = Inr (s', r)"
    and "quiet_law VL" and "money_fits L VQ s" and "ap_cost s' = ap_cost s"
  shows "ap_pot s' + ap_sent (r_messages r) \<le> ap_pot s + ap_received msg info"
proof -
  let ?f = "\<lambda>_ x. claim_pot (ap_cost s) (cp_state x)"
  have wf: "sorted_store (as_complaints s)" using assms(1) by (simp add: ap_inv_def)
  note put = kv.tally_put [OF wf, of ?f]
  from assms(2,3) ap_inv_stored [OF assms(1)] show ?thesis
  proof (cases rule: transaction_cases)
    case same
    then have "as_complaints s' = as_complaints s" by (simp add: same_books_def)
    with same(2) show ?thesis using assms(5) by (simp add: ap_pot_def)
  next
    case (register t d a)
    from register(2) show ?thesis
    proof (cases rule: register_shape)
      case (1 c d')
      have "ap_received msg info = ap_cost s"
        using payment_received [OF assms(4) 1(1,2)] register(1) by simp
      moreover have "ap_pot s' \<le> ap_pot s + ap_cost s"
        using put [of "ac_next_complaint_id c"] 1(3) assms(5) by (simp add: ap_pot_def) (metis claim_pot.simps(1) complaint.select_convs(5) le_add1)
      ultimately show ?thesis using 1(4) by (simp add: ap_sent_def)
    qed
  next
    case (moved i x x')
    have "ap_pot s' + claim_pot (ap_cost s) (cp_state x) = ap_pot s + claim_pot (ap_cost s) (cp_state x')"
      using put [of i x'] moved(1) assms(5) by (simp add: ap_pot_def moved_books_def)
    with moved(2) [OF assms(4)] show ?thesis by linarith
  qed
qed

lemma ap_start_inv:
  "ap_instantiate VL msg (ap_empty v) = Inr (s, r) \<Longrightarrow>
     ap_inv 0 s \<and> ap_pot s = 0 \<and> ap_cost s = unat (c_amount (ai_dispute_cost msg))"
  by (auto simp: ap_instantiate_def ap_inv_def ap_pot_def ap_empty_def ap_cost_def Let_def)

text \<open>The invariant of the books holds whatever the dispute cost; the money law needs its bound.\<close>

lemma ap_run_books:
  assumes "ap_run L AL VL n b s i out" and "n < 2 ^ 64" and "quiet_law VL" and "decimal_law L" and "payment_law L"
  shows "ap_inv n s \<and> (ap_cost s < 2 ^ 127 \<longrightarrow> ap_pot s + out \<le> i)"
  using assms(1,2)
proof (induction rule: ap_run.induct)
  case (ap_start msg v s r b)
  then show ?case using ap_start_inv [of VL msg v s r] by auto
next
  case (ap_next n b s i out VQ env info msg rep s' r)
  from ap_next.IH ap_next.prems have inv: "ap_inv n s" and pot: "ap_cost s < 2 ^ 127 \<longrightarrow> ap_pot s + out \<le> i" by simp_all
  from ap_inv_step [OF inv ap_next.prems ap_next.hyps(2) assms(3)]
  have inv': "ap_inv (Suc n) s'" and cost: "ap_cost s' = ap_cost s" by simp_all
  have "ap_pot s' + ap_sent (r_messages r) \<le> ap_pot s + ap_received msg info" if "ap_cost s < 2 ^ 127"
    using ap_next.hyps(4) that assms(4,5)
    by (intro ap_money_step [OF inv ap_next.hyps(2) assms(3) _ cost]) (simp add: money_fits_def)
  then show ?case using inv' pot cost by fastforce
qed

lemma ap_run_inv: "ap_run L AL VL n b s i out \<Longrightarrow> n < 2 ^ 64 \<Longrightarrow> quiet_law VL \<Longrightarrow> decimal_law L \<Longrightarrow>
    payment_law L \<Longrightarrow> ap_inv n s"
  using ap_run_books by blast

end
