(* ===== verification/AP_Court_Run.thy ===== *)
theory AP_Court_Run
  imports AP_Court
begin

text \<open>
  The arbiter pool and its multisigs as one system. A step is one transaction on the chain: a call
  of the pool by anyone but a multisig, a call that instantiates a multisig together with the
  pool's reply, a call of a multisig, or a call of a multisig that sends its decision to the
  pool, which runs in the same transaction.
\<close>

section \<open>Steps\<close>

inductive court_step ::
  "cw_lib \<Rightarrow> ap_lib \<Rightarrow> ('v, 'w, ap_proposal, 'r, ap_msg) voting_lib \<Rightarrow> (threshold \<Rightarrow> u64 \<Rightarrow> string + unit) \<Rightarrow>
   env \<Rightarrow> 'v ap_state \<times> court \<Rightarrow> 'v ap_state \<times> court \<Rightarrow> bool" for L AL VL V env where
  pool_call: "ap_transaction L AL VL (court_voters M) env info msg rep s = Inr (s', r) \<Longrightarrow>
     \<not> list_ex ap_instantiates (r_messages r) \<Longrightarrow> M (i_sender info) = None \<Longrightarrow>
     court_step L AL VL V env (s, M) (s', M)"
| appoints: "ap_transaction L AL VL (court_voters M) env info msg rep s = Inr (s', r) \<Longrightarrow>
     r_messages r = [ApInstantiateMultisig code m label] \<Longrightarrow> M (i_sender info) = None \<Longrightarrow>
     apl_reply_address AL rep = Inr a \<Longrightarrow> l_addr_validate L a = Inr a \<Longrightarrow> M a = None \<Longrightarrow>
     length (mi_voters m) < 2 ^ 64 \<Longrightarrow>
     dm_instantiate L V (env\<lparr>e_contract := a\<rparr>) \<lparr>i_sender = e_contract env, i_funds = []\<rparr> m dm_empty = Inr (ds, r') \<Longrightarrow>
     court_step L AL VL V env (s, M) (s', M(a \<mapsto> ds))"
| multisig_call: "M a = Some ds \<Longrightarrow> dm_execute L (env\<lparr>e_contract := a\<rparr>) info dmsg ds = Inr (ds', r') \<Longrightarrow>
     r_messages r' = [] \<Longrightarrow> court_step L AL VL V env (s, M) (s, M(a \<mapsto> ds'))"
| decision: "M a = Some ds \<Longrightarrow> dm_execute L (env\<lparr>e_contract := a\<rparr>) info dmsg ds = Inr (ds', r') \<Longrightarrow>
     r_messages r' = [WasmExecute (e_contract env) (RenderDecision i summary link) funds] \<Longrightarrow>
     ap_transaction L AL VL (court_voters (M(a \<mapsto> ds'))) env \<lparr>i_sender = a, i_funds = funds\<rparr>
       (APRenderDecision i summary link) rep s = Inr (s', r) \<Longrightarrow>
     court_step L AL VL V env (s, M) (s', M(a \<mapsto> ds'))"

text \<open>\<open>court_run\<close>: after \<open>n\<close> transactions, in blocks in order, of a pool at address \<open>pool\<close>.\<close>

inductive court_run ::
  "cw_lib \<Rightarrow> ap_lib \<Rightarrow> ('v, 'w, ap_proposal, 'r, ap_msg) voting_lib \<Rightarrow> (threshold \<Rightarrow> u64 \<Rightarrow> string + unit) \<Rightarrow>
   addr \<Rightarrow> nat \<Rightarrow> block_info \<Rightarrow> 'v ap_state \<times> court \<Rightarrow> bool" for L AL VL V pool where
  court_start: "ap_instantiate VL msg (ap_empty v) = Inr (s, r) \<Longrightarrow>
     court_run L AL VL V pool 0 b (s, Map.empty)"
| court_next: "court_run L AL VL V pool n b C \<Longrightarrow> court_step L AL VL V env C C' \<Longrightarrow>
     e_contract env = pool \<Longrightarrow> b \<le> e_block env \<Longrightarrow> court_run L AL VL V pool (Suc n) (e_block env) C'"

section \<open>A multisig and its complaint\<close>

text \<open>What the multisigs of the pool look like, whatever happens to them.\<close>

definition jury :: "addr \<Rightarrow> dm_config \<Rightarrow> dm_state \<Rightarrow> bool" where
  "jury pool cfg ds \<longleftrightarrow> mc_parent cfg = pool \<and> (\<exists>w. mc_threshold cfg = AbsoluteCount w)
     \<and> (\<forall>v w. sget (ms_voters ds) v = Some w \<longrightarrow> w = 1)"

definition seated ::
  "cw_lib \<Rightarrow> (threshold \<Rightarrow> u64 \<Rightarrow> string + unit) \<Rightarrow> addr \<Rightarrow> block_info \<Rightarrow> (u64, complaint) store \<Rightarrow> addr \<Rightarrow> dm_state \<Rightarrow> bool" where
  "seated L V pool b xs a ds \<longleftrightarrow> (\<exists>ms cfg poll x. dm_run L V b ds ms \<and> ms_config ds = Some cfg
     \<and> ms_poll ds = Some poll \<and> jury pool cfg ds \<and> sget xs (mc_complaint_id cfg) = Some x
     \<and> (if mp_status poll = StExecuted then \<exists>summary link. cp_state x = Closed summary link
        else cp_state x = Processing a))"

definition court_inv ::
  "cw_lib \<Rightarrow> (threshold \<Rightarrow> u64 \<Rightarrow> string + unit) \<Rightarrow> addr \<Rightarrow> nat \<Rightarrow> block_info \<Rightarrow> 'v ap_state \<times> court \<Rightarrow> bool" where
  "court_inv L V pool n b C \<longleftrightarrow> (case C of (s, M) \<Rightarrow> ap_inv n s
     \<and> (\<forall>a ds. M a = Some ds \<longrightarrow> seated L V pool b (as_complaints s) a ds)
     \<and> (\<forall>i x a. sget (as_complaints s) i = Some x \<longrightarrow> cp_state x = Processing a \<longrightarrow> M a \<noteq> None))"

lemma court_inv_pair [simp]:
  "court_inv L V pool n b (s, M) \<longleftrightarrow> ap_inv n s
     \<and> (\<forall>a ds. M a = Some ds \<longrightarrow> seated L V pool b (as_complaints s) a ds)
     \<and> (\<forall>i x a. sget (as_complaints s) i = Some x \<longrightarrow> cp_state x = Processing a \<longrightarrow> M a \<noteq> None)"
  by (simp add: court_inv_def)

text \<open>A multisig keeps its place as long as its complaint is left alone.\<close>

lemma seated_later:
  assumes "seated L V pool b xs a ds" and "b \<le> b'"
    and "\<And>i x. sget xs i = Some x \<Longrightarrow> cp_state x = Processing a \<or> (\<exists>u l. cp_state x = Closed u l) \<Longrightarrow>
       sget ys i = Some x"
  shows "seated L V pool b' ys a ds"
proof -
  from assms(1) obtain ms cfg poll x where run: "dm_run L V b ds ms" and d: "ms_config ds = Some cfg"
    "ms_poll ds = Some poll" "jury pool cfg ds" and x: "sget xs (mc_complaint_id cfg) = Some x"
    and st: "if mp_status poll = StExecuted then \<exists>u l. cp_state x = Closed u l else cp_state x = Processing a"
    by (auto simp: seated_def)
  have "sget ys (mc_complaint_id cfg) = Some x" using st by (intro assms(3) [OF x]) (auto split: if_splits)
  with d st dm_run.dm_wait [OF run assms(2)] show ?thesis unfolding seated_def by blast
qed

text \<open>The voters and the configuration of a multisig never change.\<close>

lemma dm_execute_keeps:
  "dm_execute L env info msg s = Inr (s', r) \<Longrightarrow> ms_config s' = ms_config s \<and> ms_voters s' = ms_voters s"
  by (auto simp: dm_execute_def dm_execute_vote_def dm_execute_execute_def dm_execute_close_def Let_def
      split: dm_execute_msg.splits if_splits option.splits)

lemma dm_execute_sends:
  assumes "dm_execute L env info msg s = Inr (s', r)" and "ms_config s = Some cfg"
  shows "r_messages r = []
    \<or> (\<exists>u l. r_messages r = [WasmExecute (mc_parent cfg) (RenderDecision (mc_complaint_id cfg) u l) []])"
  using assms
  by (auto simp: dm_execute_def dm_execute_vote_def dm_execute_execute_def dm_execute_close_def Let_def
      split: dm_execute_msg.splits if_splits option.splits)

text \<open>A transaction of the pool that is not a decision leaves complaints in processing alone.\<close>

lemma pool_leaves_alone:
  assumes "ap_inv n s" and "ap_transaction L AL VL VQ env info msg rep s = Inr (s', r)" and "quiet_law VL"
    and "sget (as_complaints s) i = Some x" and "cp_state x \<noteq> Processing (i_sender info)"
    and "(\<exists>e. cp_state x = Processing e) \<or> (\<exists>u l. cp_state x = Closed u l)"
  shows "sget (as_complaints s') i = Some x"
  using assms(2,3) ap_inv_stored [OF assms(1)]
proof (cases rule: transaction_cases)
  case same
  then show ?thesis using assms(4) by (simp add: same_books_def)
next
  case (register t d a)
  from register(2) show ?thesis
  proof (cases rule: register_shape)
    case (1 c d')
    then have "i \<noteq> ac_next_complaint_id c" using assms(1,4) by (auto simp: ap_inv_def)
    with 1(3) assms(4) show ?thesis by simp
  qed
next
  case (moved j y y')
  then have m: "complaint_move L (e_block env) (i_sender info) y y'" and y: "sget (as_complaints s) j = Some y"
    and s': "as_complaints s' = sput j y' (as_complaints s)" by (simp_all add: moved_books_def)
  have "i \<noteq> j" using m y assms(4-6) by (auto elim!: moves_from)
  with s' assms(4) show ?thesis by simp
qed

section \<open>The invariant\<close>

text \<open>The new multisig takes the seat of the complaint it is instantiated for.\<close>

lemma add_voters_unit:
  assumes "foldE (dm_add_voter L) s vs = Inr s'" and "\<forall>v \<in> set vs. vo_weight v = 1"
    and "\<forall>v w. sget (ms_voters s) v = Some w \<longrightarrow> w = 1"
  shows "\<forall>v w. sget (ms_voters s') v = Some w \<longrightarrow> w = 1"
  using assms
proof (induction vs arbitrary: s)
  case (Cons v vs)
  then obtain key where "foldE (dm_add_voter L) (s\<lparr>ms_voters := sput key (vo_weight v) (ms_voters s)\<rparr>) vs = Inr s'"
    by (auto simp: dm_add_voter_def [of L s v])
  then show ?case by (rule Cons.IH) (use Cons.prems in auto)
qed simp

lemma fold_voters: "foldE (dm_add_voter L) s vs = Inr s' \<Longrightarrow> \<exists>m. s' = s\<lparr>ms_voters := m\<rparr>"
proof (induction vs arbitrary: s)
  case Nil
  then show ?case by (intro exI [of _ "ms_voters s"]) auto
next
  case (Cons v vs)
  then obtain key where "foldE (dm_add_voter L) (s\<lparr>ms_voters := sput key (vo_weight v) (ms_voters s)\<rparr>) vs = Inr s'"
    by (auto simp: dm_add_voter_def [of L s v])
  from Cons.IH [OF this] show ?case by auto
qed

lemma instantiate_jury:
  assumes "dm_instantiate L V env info m dm_empty = Inr (ds, r)"
    and "mi_voters m = map (\<lambda>a. \<lparr>vo_addr = a, vo_weight = 1\<rparr>) as" and "mi_threshold m = AbsoluteCount w"
    and "length (mi_voters m) < 2 ^ 64" and "threshold_law V" and "e_block env \<le> b"
  shows "\<exists>cfg poll. dm_run L V b ds [] \<and> ms_config ds = Some cfg \<and> ms_poll ds = Some poll
    \<and> jury (i_sender info) cfg ds \<and> mc_complaint_id cfg = mi_complaint_id m \<and> mc_threshold cfg = AbsoluteCount w
    \<and> mp_status poll = StOpen"
proof -
  have "(\<Sum>v\<leftarrow>mi_voters m. unat (vo_weight v)) = length (mi_voters m)"
    by (simp add: assms(2) comp_def sum_list_triv)
  with dm_run.dm_start [OF assms(1)] assms(4) have run: "dm_run L V (e_block env) ds (r_messages r)" by simp
  define s0 where "s0 = dm_empty\<lparr>ms_version := Some (''crates.io:tg3-dispute-multisig'', ''0.15.0''),
    ms_config := Some \<lparr>mc_parent = i_sender info, mc_threshold = mi_threshold m,
      mc_total_weight = dm_total_weight (mi_voters m),
      mc_expires = dm_expires L env (mi_max_voting_period m), mc_complaint_id = mi_complaint_id m\<rparr>,
    ms_poll := Some \<lparr>mp_votes = \<lparr>mv_yes = 0, mv_no = 0, mv_abstain = 0, mv_veto = 0\<rparr>, mp_status = StOpen\<rparr>\<rparr>"
  have fold: "foldE (dm_add_voter L) s0 (mi_voters m) = Inr ds" and r: "r_messages r = []"
    using assms(1) by (auto simp: dm_instantiate_def s0_def Let_def split: if_splits)
  have units: "\<forall>v w. sget (ms_voters ds) v = Some w \<longrightarrow> w = 1"
    by (rule add_voters_unit [OF fold]) (auto simp: assms(2) s0_def dm_empty_def)
  have "\<exists>vs. ds = s0\<lparr>ms_voters := vs\<rparr>" using fold_voters [OF fold] .
  then show ?thesis
    using units dm_run.dm_wait [OF run assms(6)] r assms(3) by (auto simp: jury_def s0_def)
qed

lemma dm_run_status:
  assumes "decimal_law L" and "expiry_law L" and "threshold_law V" and "dm_run L V b ds ms"
  obtains cfg poll where "ms_config ds = Some cfg" "ms_poll ds = Some poll"
    "dm_books cfg poll ds" "dm_decided L b cfg poll" "dm_sent cfg poll ms"
  using dm_run_inv [OF assms] by (auto simp: dm_inv_def)

text \<open>A call of a multisig, with or without a decision, seen from its seat.\<close>

lemma seat_call:
  assumes laws: "decimal_law L" "expiry_law L" "threshold_law V"
    and "seated L V pool b xs a ds" and "dm_execute L env info msg ds = Inr (ds', r)" and "b \<le> e_block env"
  obtains (quiet) "r_messages r = []" "seated L V pool (e_block env) xs a ds'"
    | (decides) cfg x u l where "ms_config ds = Some cfg" "sget xs (mc_complaint_id cfg) = Some x"
      "cp_state x = Processing a" "r_messages r = [WasmExecute pool (RenderDecision (mc_complaint_id cfg) u l) []]"
      "\<And>x' u' l'. cp_state x' = Closed u' l' \<Longrightarrow>
         seated L V pool (e_block env) (sput (mc_complaint_id cfg) x' xs) a ds'"
proof -
  from assms(4) obtain ms cfg poll x where run: "dm_run L V b ds ms" and d: "ms_config ds = Some cfg"
    "ms_poll ds = Some poll" "jury pool cfg ds" and x: "sget xs (mc_complaint_id cfg) = Some x"
    and st: "if mp_status poll = StExecuted then \<exists>u l. cp_state x = Closed u l else cp_state x = Processing a"
    by (auto simp: seated_def)
  have sent: "dm_sent cfg poll ms" using dm_run_status [OF laws run] d(1,2) by auto
  have run': "dm_run L V (e_block env) ds' (ms @ r_messages r)" using run assms(5,6) by (rule dm_run.dm_call)
  have d': "ms_config ds' = Some cfg" "jury pool cfg ds'"
    using dm_execute_keeps [OF assms(5)] d by (simp_all add: jury_def)
  obtain poll' where d2: "ms_poll ds' = Some poll'" "dm_sent cfg poll' (ms @ r_messages r)"
    using dm_run_status [OF laws run'] d'(1) by auto
  from dm_execute_sends [OF assms(5) d(1)] show thesis
  proof (elim disjE exE)
    assume none: "r_messages r = []"
    then have "mp_status poll' = StExecuted \<longleftrightarrow> mp_status poll = StExecuted"
      using sent d2(2) by (auto simp: dm_sent_def split: if_splits)
    with none run' d' d2(1) x st show thesis by (intro quiet) (auto simp: seated_def)
  next
    fix u l
    assume one: "r_messages r = [WasmExecute (mc_parent cfg) (RenderDecision (mc_complaint_id cfg) u l) []]"
    then have "mp_status poll' = StExecuted" "mp_status poll \<noteq> StExecuted"
      using sent d2(2) by (auto simp: dm_sent_def split: if_splits)
    moreover have "mc_parent cfg = pool" using d(3) by (simp add: jury_def)
    ultimately show thesis
      using one run' d' d2(1) d(1) x st by (intro decides [OF d(1) x]) (auto simp: seated_def)
  qed
qed

lemma new_processing:
  assumes "ap_inv n s" and "ap_transaction L AL VL VQ env info msg rep s = Inr (s', r)" and "quiet_law VL"
    and "sget (as_complaints s') i = Some x'" and "cp_state x' = Processing a"
  shows "sget (as_complaints s) i = Some x' \<or> appointment L AL rep i x' (r_messages r)"
  using assms(2,3) ap_inv_stored [OF assms(1)]
proof (cases rule: transaction_cases)
  case same
  then show ?thesis using assms(4) by (simp add: same_books_def)
next
  case (register t d a')
  from register(2) show ?thesis
    using assms(4,5) by (cases rule: register_shape) (auto split: if_splits)
next
  case (moved j y y')
  then show ?thesis using assms(4) by (auto simp: moved_books_def split: if_splits)
qed

lemma court_pool_call:
  assumes "court_inv L V pool n b (s, M)" and "quiet_law VL" and "Suc n < 2 ^ 64"
    and "ap_transaction L AL VL VQ env info msg rep s = Inr (s', r)" and "M (i_sender info) = None"
    and "b \<le> e_block env"
  shows "ap_inv (Suc n) s'" and "M a = Some ds \<Longrightarrow> seated L V pool (e_block env) (as_complaints s') a ds"
proof -
  from assms(1) have inv: "ap_inv n s" and seats: "\<And>a ds. M a = Some ds \<Longrightarrow> seated L V pool b (as_complaints s) a ds"
    and taken: "\<And>i x a. sget (as_complaints s) i = Some x \<Longrightarrow> cp_state x = Processing a \<Longrightarrow> M a \<noteq> None"
    by simp_all
  show "ap_inv (Suc n) s'" using ap_inv_step [OF inv assms(3,4,2)] by simp
  show "seated L V pool (e_block env) (as_complaints s') a ds" if "M a = Some ds"
  proof (rule seated_later [OF seats [OF that] assms(6)])
    fix i x
    assume x: "sget (as_complaints s) i = Some x"
      and st: "cp_state x = Processing a \<or> (\<exists>u l. cp_state x = Closed u l)"
    have "cp_state x \<noteq> Processing (i_sender info)" using taken [OF x] assms(5) by auto
    then show "sget (as_complaints s') i = Some x" 
      using st by (intro pool_leaves_alone [OF inv assms(4,2) x]) auto
  qed
qed

lemma appointment_made:
  assumes "ap_inv n s" and "ap_transaction L AL VL VQ env info msg rep s = Inr (s', r)" and "quiet_law VL"
    and "r_messages r = [ApInstantiateMultisig code m label]" and "apl_reply_address AL rep = Inr a"
    and "l_addr_validate L a = Inr a"
  shows "\<exists>x as. sget (as_complaints s') (mi_complaint_id m) = Some x \<and> cp_state x = Processing a
    \<and> mi_voters m = map (\<lambda>a. \<lparr>vo_addr = a, vo_weight = 1\<rparr>) as
    \<and> mi_threshold m = AbsoluteCount (of_nat (length as div 2 + 1))"
  using assms(2,3) ap_inv_stored [OF assms(1)]
proof (cases rule: transaction_cases)
  case same
  then show ?thesis using assms(4) by simp
next
  case (register t d a')
  from register(2) show ?thesis using assms(4) by (cases rule: register_shape) auto
next
  case (moved j y y')
  from moved(3) assms(4) have "\<exists>e. cp_state y' = Processing e"
    by (cases "cp_state y'") (auto simp: appointment_def)
  with moved show ?thesis using assms(4-6) by (auto simp: appointment_def moved_books_def)
qed

lemma render_transaction:
  assumes "ap_transaction L AL VL VQ env info (APRenderDecision i u l) rep s = Inr (s', r)"
  obtains x where "sget (as_complaints s) i = Some x" "cp_state x = Processing (i_sender info)"
    "as_complaints s' = sput i (x\<lparr>cp_state := Closed u l\<rparr>) (as_complaints s)"
proof -
  from assms obtain s1 r1 where call: "ap_render_decision VQ info i u l s = Inr (s1, r1)"
    and rest: "list_ex ap_instantiates (r_messages r1) \<or> s' = s1"
    by (auto simp: ap_transaction_def ap_execute_def split: if_splits)
  from call show thesis
  proof (cases rule: render_shape)
    case (1 c x ms)
    then have "s' = s1" using rest by (simp add: no_instantiation)
    with 1 show thesis by (intro that) simp_all
  qed
qed

lemma court_step_inv:
  assumes laws: "decimal_law L" "expiry_law L" "threshold_law V" and quiet: "quiet_law VL"
    and "court_step L AL VL V env C C'" and "court_inv L V pool n b C" and small: "Suc n < 2 ^ 64"
    and env: "e_contract env = pool" and le: "b \<le> e_block env"
  shows "court_inv L V pool (Suc n) (e_block env) C'"
  using assms(5,6)
proof (cases rule: court_step.cases)
  case (pool_call M info msg rep s s' r)
  then have inv: "court_inv L V pool n b (s, M)" using assms(6) by simp
  note books = court_pool_call [OF inv quiet small pool_call(3,5) le]
  have "M e \<noteq> None" if x: "sget (as_complaints s') i = Some x" "cp_state x = Processing e" for i x e
  proof -
    have "\<not> appointment L AL rep i x (r_messages r)" using pool_call(4) x(2) by (auto simp: appointment_def)
    then have "sget (as_complaints s) i = Some x"
      using new_processing [OF _ pool_call(3) quiet x, of n] inv by auto
    with inv x(2) show ?thesis by auto
  qed
  with books show ?thesis using pool_call(2) by simp
next
  case (appoints M info msg rep s s' r code m label a ds r')
  then have inv: "court_inv L V pool n b (s, M)" using assms(6) by simp
  note books = court_pool_call [OF inv quiet small appoints(3,5) le]
  have ap: "ap_inv n s" using inv by simp
  obtain y as where y: "sget (as_complaints s') (mi_complaint_id m) = Some y" "cp_state y = Processing a"
    and m: "mi_voters m = map (\<lambda>a. \<lparr>vo_addr = a, vo_weight = 1\<rparr>) as"
      "mi_threshold m = AbsoluteCount (of_nat (length as div 2 + 1))"
    using appointment_made [OF ap appoints(3) quiet appoints(4,6,7)] by blast
  have "seated L V pool (e_block env) (as_complaints s') a ds"
    using instantiate_jury [OF appoints(10) m appoints(9) laws(3), of "e_block env"] y env
    by (fastforce simp: seated_def)
  moreover have "e = a \<or> M e \<noteq> None" if x: "sget (as_complaints s') i = Some x" "cp_state x = Processing e" for i x e
    using new_processing [OF ap appoints(3) quiet x] inv x(2) appoints(6,7) by (auto simp: appointment_def)
  ultimately show ?thesis using books appoints(2) by auto
next
  case (multisig_call M a ds info dmsg ds' r' s)
  then have inv: "court_inv L V pool n b (s, M)" using assms(6) by simp
  then have seat: "seated L V pool b (as_complaints s) a ds" using multisig_call(3) by simp
  have "seated L V pool (e_block env) (as_complaints s) a ds'"
    using seat_call [OF laws seat multisig_call(4)] le multisig_call(5) by fastforce
  moreover have "seated L V pool (e_block env) (as_complaints s) a' e" if "M a' = Some e" for a' e
    using inv that by (intro seated_later [OF _ le]) auto
  ultimately show ?thesis using inv multisig_call(2) by (auto simp: ap_inv_def)
next
  case (decision M a ds info dmsg ds' r' i u l funds rep s s' r)
  then have inv: "court_inv L V pool n b (s, M)" using assms(6) by simp
  then have ap: "ap_inv n s" and seat: "seated L V pool b (as_complaints s) a ds" using decision(3) by simp_all
  obtain x where x: "sget (as_complaints s) i = Some x" "cp_state x = Processing a"
      "as_complaints s' = sput i (x\<lparr>cp_state := Closed u l\<rparr>) (as_complaints s)"
    using render_transaction [OF decision(6)] by auto
  have "seated L V pool (e_block env) (as_complaints s') a ds'"
    using seat_call [OF laws seat decision(4)] le decision(5) x(3) by fastforce
  moreover have "seated L V pool (e_block env) (as_complaints s') a' e" if "M a' = Some e" "a' \<noteq> a" for a' e
    using inv that x by (intro seated_later [OF _ le]) auto
  moreover have "ap_inv (Suc n) s'" using ap_inv_step [OF ap small decision(6) quiet] by simp
  ultimately show ?thesis using inv x(3) decision(2) by (auto split: if_splits)
qed

theorem court_run_inv:
  assumes "decimal_law L" and "expiry_law L" and "threshold_law V" and "quiet_law VL"
    and "court_run L AL VL V pool n b C" and "n < 2 ^ 64"
  shows "court_inv L V pool n b C"
  using assms(5,6)
proof (induction rule: court_run.induct)
  case (court_start msg v s r b)
  then show ?case using ap_start_inv [OF court_start(1)] by (auto simp: ap_instantiate_def ap_empty_def Let_def)
next
  case (court_next n b C env C')
  then show ?case by (intro court_step_inv [OF assms(1-4) court_next.hyps(2)]) simp_all
qed

section \<open>Decisions arrive\<close>

lemma jury_weight:
  assumes "jury pool cfg ds" and "sorted_store (ms_voters ds)"
  shows "tally (\<lambda>_ w. unat w) (ms_voters ds) = length (ms_voters ds)"
proof -
  have "\<forall>(v, w) \<in> set (ms_voters ds). w = 1" using assms kv.entries_get [OF assms(2)] by (auto simp: jury_def)
  then show ?thesis by (induction "ms_voters ds" rule: list.induct) (auto simp: tally_def case_prod_beta sum_list_triv cong: map_cong)
qed

text \<open>A jury that has voted yes is not empty and has less than \<open>2^64\<close> members.\<close>

lemma jury_size:
  assumes "jury pool cfg ds" and "dm_books cfg poll ds"
  shows "length (ms_voters ds) < 2 ^ 64" and "dm_passes ended cfg poll \<Longrightarrow> ms_voters ds \<noteq> []"
proof -
  have wf: "sorted_store (ms_voters ds)" and le: "tally (\<lambda>_ w. unat w) (ms_voters ds) \<le> unat (mc_total_weight cfg)"
    using assms(2) by (simp_all add: dm_books_def)
  show "length (ms_voters ds) < 2 ^ 64"
    using le jury_weight [OF assms(1) wf] unat_u64 [of "mc_total_weight cfg"] by linarith
  obtain w where w: "mc_threshold cfg = AbsoluteCount w" using assms(1) by (auto simp: jury_def)
  with assms(2) have "0 < unat w" by (simp add: dm_books_def word_less_nat_alt)
  then show "dm_passes ended cfg poll \<Longrightarrow> ms_voters ds \<noteq> []"
    using dm_short_never_passes [OF assms(2) w, of ended] by auto
qed

lemma render_accepts:
  assumes "as_config s = Some (PresentConfig c)" and "sget (as_complaints s) i = Some x"
    and "cp_state x = Processing a" and "query_multisig_voters VQ a = Inr vs" and "vs \<noteq> []" and "length vs < 2 ^ 64"
  shows "\<exists>s' r. ap_transaction L AL VL VQ env \<lparr>i_sender = a, i_funds = funds\<rparr> (APRenderDecision i u l) rep s = Inr (s', r)
     \<and> as_complaints s' = sput i (x\<lparr>cp_state := Closed u l\<rparr>) (as_complaints s) \<and> as_config s' = as_config s
     \<and> r_messages r = map (\<lambda>v. ApBank (BankSend v [(ac_dispute_cost c)\<lparr>c_amount :=
          2 * c_amount (ac_dispute_cost c) div of_nat (length vs)\<rparr>])) vs"
proof -
  have "unat (of_nat (length vs) :: u128) = length vs" using assms(6) by (simp add: unat_of_nat)
  then have "(of_nat (length vs) :: u128) \<noteq> 0" using assms(5) by auto
  then show ?thesis
    using assms(1-4)
    by (simp add: ap_transaction_def ap_execute_def ap_render_decision_def Let_def ap_config_of_def no_instantiation)
qed

text \<open>
  When a jury's execution succeeds, so does the transaction of the pool it is part of: the
  complaint is closed, and every voter of the jury is paid an equal part.
\<close>

lemma decision_lands:
  assumes laws: "decimal_law L" "expiry_law L" "threshold_law V"
    and "court_inv L V pool n b (s, M)" and "M a = Some ds" and "b \<le> e_block env" and "e_contract env = pool"
    and "dm_execute L (env\<lparr>e_contract := a\<rparr>) info (DM_Execute u l) ds = Inr (ds', r')"
  shows "\<exists>c i s' r. as_config s = Some (PresentConfig c)
     \<and> r_messages r' = [WasmExecute pool (RenderDecision i u l) []]
     \<and> ap_transaction L AL VL (court_voters (M(a \<mapsto> ds'))) env \<lparr>i_sender = a, i_funds = []\<rparr>
          (APRenderDecision i u l) rep s = Inr (s', r)
     \<and> (\<exists>x. sget (as_complaints s') i = Some x \<and> cp_state x = Closed u l)
     \<and> r_messages r = map (\<lambda>v. ApBank (BankSend v [(ac_dispute_cost c)\<lparr>c_amount :=
          2 * c_amount (ac_dispute_cost c) div of_nat (length (ms_voters ds))\<rparr>])) (map fst (ms_voters ds))"
proof -
  from assms(4,5) have seat: "seated L V pool b (as_complaints s) a ds" and "ap_inv n s" by simp_all
  then obtain c where c: "as_config s = Some (PresentConfig c)" by (auto simp: ap_inv_def)
  from seat obtain ms cfg poll where run: "dm_run L V b ds ms" and d: "ms_config ds = Some cfg" "jury pool cfg ds"
    by (auto simp: seated_def)
  have call: "dm_execute_execute L (env\<lparr>e_contract := a\<rparr>) info u l ds = Inr (ds', r')"
    using assms(8) by (simp add: dm_execute_def)
  then have sent: "r_messages r' = [WasmExecute pool (RenderDecision (mc_complaint_id cfg) u l) []]"
    using d by (auto simp: dm_execute_execute_def Let_def jury_def split: if_splits)
  have "\<exists>x. sget (as_complaints s) (mc_complaint_id cfg) = Some x \<and> cp_state x = Processing a"
    by (rule seat_call [OF laws seat assms(8)]) (use sent assms(6) d(1) in auto)
  then obtain x where x: "sget (as_complaints s) (mc_complaint_id cfg) = Some x" "cp_state x = Processing a" by blast
  have run': "dm_run L V (e_block env) ds' (ms @ r_messages r')"
    using dm_run.dm_call [OF run assms(8)] assms(6) by simp
  have keep: "ms_config ds' = Some cfg" "ms_voters ds' = ms_voters ds" "jury pool cfg ds'"
    using dm_execute_keeps [OF assms(8)] d by (simp_all add: jury_def)
  obtain poll' where p: "dm_books cfg poll' ds'" "dm_decided L (e_block env) cfg poll'" "dm_sent cfg poll' (ms @ r_messages r')"
    using dm_run_status [OF laws run'] keep(1) by auto
  then have "dm_passes (l_is_expired L (mc_expires cfg) (e_block env)) cfg poll'"
    using sent by (auto simp: dm_sent_def dm_decided_def Let_def split: if_splits)
  then have voters: "ms_voters ds \<noteq> []" "length (ms_voters ds) < 2 ^ 64"
    using jury_size [OF keep(3) p(1)] keep(2) by auto
  have "query_multisig_voters (court_voters (M(a \<mapsto> ds'))) a = Inr (map fst (ms_voters ds))"
    using court_reads_all [of "M(a \<mapsto> ds')" a ds'] p(1) keep(2) by (simp add: dm_books_def)
  from render_accepts [OF c x this, of L AL VL env "[]" u l rep] voters obtain s' r where
    "ap_transaction L AL VL (court_voters (M(a \<mapsto> ds'))) env \<lparr>i_sender = a, i_funds = []\<rparr>
          (APRenderDecision (mc_complaint_id cfg) u l) rep s = Inr (s', r)"
    "as_complaints s' = sput (mc_complaint_id cfg) (x\<lparr>cp_state := Closed u l\<rparr>) (as_complaints s)"
    "r_messages r = map (\<lambda>v. ApBank (BankSend v [(ac_dispute_cost c)\<lparr>c_amount :=
          2 * c_amount (ac_dispute_cost c) div of_nat (length (ms_voters ds))\<rparr>])) (map fst (ms_voters ds))"
    by auto
  then show ?thesis using c sent by (intro exI [of _ c] exI [of _ "mc_complaint_id cfg"] exI [of _ s'] exI [of _ r]) simp
qed

section \<open>Juries that never decide\<close>

text \<open>What can still happen after a state: the runs that extend it.\<close>

inductive court_later ::
  "cw_lib \<Rightarrow> ap_lib \<Rightarrow> ('v, 'w, ap_proposal, 'r, ap_msg) voting_lib \<Rightarrow> (threshold \<Rightarrow> u64 \<Rightarrow> string + unit) \<Rightarrow>
   addr \<Rightarrow> nat \<Rightarrow> block_info \<Rightarrow> 'v ap_state \<times> court \<Rightarrow> nat \<Rightarrow> block_info \<Rightarrow> 'v ap_state \<times> court \<Rightarrow> bool"
  for L AL VL V pool n b C where
  later_now: "court_later L AL VL V pool n b C n b C"
| later_step: "court_later L AL VL V pool n b C n' b' C' \<Longrightarrow> court_step L AL VL V env C' C'' \<Longrightarrow>
     e_contract env = pool \<Longrightarrow> b' \<le> e_block env \<Longrightarrow>
     court_later L AL VL V pool n b C (Suc n') (e_block env) C''"

text \<open>
  A jury is out for good when its vote is rejected, or when its voters together weigh less than
  the count needed, which happens when the list of arbiters repeats an address.
\<close>

definition hung :: "dm_state \<Rightarrow> bool" where
  "hung ds \<longleftrightarrow> (\<exists>cfg poll. ms_config ds = Some cfg \<and> ms_poll ds = Some poll
     \<and> (mp_status poll = StRejected
        \<or> (\<exists>w. mc_threshold cfg = AbsoluteCount w \<and> length (ms_voters ds) < unat w)))"

lemma hung_stays:
  assumes "hung ds" and "dm_execute L env info msg ds = Inr (ds', r)" and "ms_poll ds' = Some poll'"
  shows "hung ds'"
  using assms dm_execute_keeps [OF assms(2)] dm_rejected_stays [OF assms(2)]
  by (fastforce simp: hung_def)

lemma hung_not_executed:
  assumes "decimal_law L" "expiry_law L" "threshold_law V"
    and "seated L V pool b xs a ds" and "hung ds"
  obtains cfg x where "ms_config ds = Some cfg" "sget xs (mc_complaint_id cfg) = Some x" "cp_state x = Processing a"
proof -
  from assms(4) obtain ms cfg poll x where run: "dm_run L V b ds ms" and d: "ms_config ds = Some cfg"
    "ms_poll ds = Some poll" "jury pool cfg ds" and x: "sget xs (mc_complaint_id cfg) = Some x"
    and st: "if mp_status poll = StExecuted then \<exists>u l. cp_state x = Closed u l else cp_state x = Processing a"
    by (auto simp: seated_def)
  have inv: "dm_books cfg poll ds" "dm_decided L b cfg poll" using dm_run_status [OF assms(1-3) run] d(1,2) by auto
  have "mp_status poll \<noteq> StExecuted"
    using assms(5) d inv dm_short_never_passes [OF inv(1)] jury_weight [OF d(3)]
    by (auto simp: hung_def dm_decided_def dm_books_def Let_def)
  with st x d(1) show thesis by (intro that) auto
qed

lemma hung_step:
  assumes "court_step L AL VL V env (s, M) (s', M')" and "court_inv L V pool n' b' (s', M')"
    and "M a = Some ds" and "hung ds"
  shows "\<exists>ds'. M' a = Some ds' \<and> hung ds' \<and> ms_config ds' = ms_config ds"
proof -
  have call: "\<exists>ds'. M' a = Some ds' \<and> hung ds' \<and> ms_config ds' = ms_config ds"
    if "M e = Some es" "dm_execute L env' info msg es = Inr (es', r)" "M' = M(e \<mapsto> es')" for e es env' info msg es' r
  proof (cases "e = a")
    case True
    then have "seated L V pool b' (as_complaints s') a es'" using assms(2) that(3) by simp
    then have "\<exists>poll'. ms_poll es' = Some poll'" by (auto simp: seated_def)
    with True that assms(3,4) hung_stays [of ds] dm_execute_keeps [OF that(2)] show ?thesis by auto
  qed (use that assms(3,4) in simp)
  from assms(1) show ?thesis
  proof (cases rule: court_step.cases)
    case (multisig_call e es info dmsg es' r')
    then show ?thesis by (intro call)
  next
    case (decision e es info dmsg es' r' i u l funds rep r)
    then show ?thesis by (intro call)
  qed (use assms(3,4) in auto)
qed

lemma hung_forever:
  assumes laws: "decimal_law L" "expiry_law L" "threshold_law V" and quiet: "quiet_law VL"
    and "court_later L AL VL V pool n b (s, M) n' b' C'" and "court_inv L V pool n b (s, M)" and "n' < 2 ^ 64"
    and "M a = Some ds" and "hung ds"
  shows "court_inv L V pool n' b' C'
     \<and> (\<exists>ds'. snd C' a = Some ds' \<and> hung ds' \<and> ms_config ds' = ms_config ds)"
  using assms(5,7)
proof (induction rule: court_later.induct)
  case later_now
  then show ?case using assms(6,8,9) by auto
next
  case (later_step n' b' C' env C'')
  then have IH: "court_inv L V pool n' b' C'" "\<exists>ds'. snd C' a = Some ds' \<and> hung ds' \<and> ms_config ds' = ms_config ds"
    by simp_all
  have inv: "court_inv L V pool (Suc n') (e_block env) C''"
    by (rule court_step_inv [OF laws quiet later_step.hyps(2) IH(1) later_step.prems later_step.hyps(3,4)])
  obtain s1 M1 s2 M2 where C: "C' = (s1, M1)" "C'' = (s2, M2)" by (metis surj_pair)
  with IH(2) hung_step [OF later_step.hyps(2) [unfolded C] inv [unfolded C]] inv show ?case by fastforce
qed

end
