(* ===== verification/AP_Examples.thy ===== *)
theory AP_Examples
  imports AP_Court_Run DM_Examples
begin

text \<open>
  A concrete case before the arbiter pool: \<open>p\<close> complains about \<open>d\<close>, who accepts; when the time to
  settle is over the pool appoints \<open>a\<close>, \<open>b\<close> and \<open>c\<close>; two of them vote yes and \<open>a\<close> has the
  decision rendered. In another ending nobody votes and the jury's vote is closed.
\<close>

section \<open>The parties\<close>

definition ap_ex_lib :: ap_lib where
  "ap_ex_lib = \<lparr>
     apl_after = (\<lambda>d b. AtTime (b_time b + d * 1000000000)),
     apl_reply_address = (\<lambda>m. if rp_result m = '''' then Inl ''no data'' else Inr (rp_result m)),
     apl_ensure_older = (\<lambda>v name new. case v of
          None \<Rightarrow> Inl NotFound
        | Some (n, old) \<Rightarrow> if n = name then Inr (Some (name, new), old) else Inl (GenericErr ''other contract'')),
     apl_version_less = (\<lambda>v w. v < w)\<rparr>"

definition ap_ex_env :: "u64 \<Rightarrow> env" where
  "ap_ex_env t = \<lparr>e_block = \<lparr>b_height = t, b_time = t * 1000000000\<rparr>, e_contract = ''ap''\<rparr>"

definition ap_ex_by :: "addr \<Rightarrow> u128 \<Rightarrow> message_info" where
  "ap_ex_by a n = \<lparr>i_sender = a, i_funds = (if n = 0 then [] else [\<lparr>c_denom = ''utgd'', c_amount = n\<rparr>])\<rparr>"

definition ap_ex_reply :: reply_msg where
  "ap_ex_reply = \<lparr>rp_id = 1, rp_result = ''jury''\<rparr>"

definition ap_ex_init :: "unit ap_instantiate_msg" where
  "ap_ex_init = \<lparr>ai_rules = (), ai_group_addr = ''group'', ai_dispute_cost = \<lparr>c_denom = ''utgd'', c_amount = 1000\<rparr>,
     ai_waiting_period = 100, ai_multisig_code_id = 4\<rparr>"

abbreviation ap_ex_voting :: "((ap_proposal option) list, ap_proposal, ap_proposal, unit, ap_msg) voting_lib" where
  "ap_ex_voting \<equiv> toy_voting"

definition ap_ex_config :: "u64 \<Rightarrow> ap_config" where
  "ap_ex_config next = \<lparr>ac_dispute_cost = \<lparr>c_denom = ''utgd'', c_amount = 1000\<rparr>, ac_waiting_period = 100,
     ac_next_complaint_id = next, ac_multisig_code_id = 4\<rparr>"

definition ap_ex_complaint :: "complaint_state \<Rightarrow> complaint" where
  "ap_ex_complaint st = \<lparr>cp_title = ''late'', cp_description = ''never paid'', cp_plaintiff = ''p'',
     cp_defendant = ''d'', cp_state = st\<rparr>"

definition ap_ex_new :: "(ap_proposal option) list ap_state" where
  "ap_ex_new = \<lparr>as_version = Some (''crates.io:tgrade_ap_voting'', ''0.15.0''),
     as_config = Some (PresentConfig (ap_ex_config 0)), as_complaints = [], as_awaiting = None, as_voting = []\<rparr>"

definition ap_ex_case ::
  "complaint_state \<Rightarrow> u64 option \<Rightarrow> (ap_proposal option) list \<Rightarrow> (ap_proposal option) list ap_state" where
  "ap_ex_case st awaiting v = \<lparr>as_version = Some (''crates.io:tgrade_ap_voting'', ''0.15.0''),
     as_config = Some (PresentConfig (ap_ex_config 1)), as_complaints = [(0, ap_ex_complaint st)],
     as_awaiting = awaiting, as_voting = v\<rparr>"

abbreviation ap_ex_t :: "u64 \<Rightarrow> expiration" where
  "ap_ex_t t \<equiv> AtTime (t * 1000000000)"

lemmas ap_eval_defs =
  ap_ex_lib_def ap_ex_env_def ap_ex_by_def ap_ex_reply_def ap_ex_init_def ap_ex_config_def ap_ex_complaint_def
  ap_ex_new_def ap_ex_case_def ap_empty_def ap_transaction_def ap_execute_def ap_instantiate_def
  ap_register_complaint_def ap_check_payment_def ap_accept_complaint_def ap_withdraw_complaint_def ap_refunds_def
  ap_render_decision_def ap_execute_execute_def ap_execute_propose_arbiters_def ap_voting_call_def
  ap_validate_proposal_def ap_multisig_instantiate_reply_def ap_reply_def complaint_current_state_def
  ap_config_of_def toy_voting_def percent_def add_messages_def no_instantiation
  response_defs sget_def std_lib_def Let_def ap_load_def ap_or_panic_def

section \<open>Calls of the pool\<close>

lemma ap_ex_start: "ap_instantiate ap_ex_voting ap_ex_init (ap_empty []) = Inr (ap_ex_new, new_response)"
  by (simp add: ap_eval_defs)

lemma ap_ex_register:
  "\<exists>r. ap_transaction std_lib ap_ex_lib ap_ex_voting VQ (ap_ex_env 10) (ap_ex_by ''p'' 1000)
     (APRegisterComplaint ''late'' ''never paid'' ''d'') rep ap_ex_new
     = Inr (ap_ex_case (Initiated (ap_ex_t 110)) None [], r) \<and> r_messages r = []"
  by (simp add: ap_eval_defs cong: if_weak_cong)

lemma ap_ex_accept:
  "\<exists>r. ap_transaction std_lib ap_ex_lib ap_ex_voting VQ (ap_ex_env 20) (ap_ex_by ''d'' 1000)
     (APAcceptComplaint 0) rep (ap_ex_case (Initiated (ap_ex_t 110)) None [])
     = Inr (ap_ex_case (Waiting (ap_ex_t 120)) None [], r) \<and> r_messages r = []"
  by (simp add: ap_eval_defs cong: if_weak_cong)

lemma ap_ex_settle:
  "\<exists>r. ap_transaction std_lib ap_ex_lib ap_ex_voting VQ (ap_ex_env 30) (ap_ex_by ''p'' 0)
     (APWithdrawComplaint 0 ''settled'') rep (ap_ex_case (Waiting (ap_ex_t 120)) None [])
     = Inr (ap_ex_case (Withdrawn ''settled'') None [], r)
     \<and> r_messages r = [ApBank (BankSend ''p'' [\<lparr>c_denom = ''utgd'', c_amount = 800\<rparr>]),
                       ApBank (BankSend ''d'' [\<lparr>c_denom = ''utgd'', c_amount = 800\<rparr>])]"
  by (simp add: ap_eval_defs cong: if_weak_cong)

lemma ap_ex_propose:
  assumes "as \<in> {[''a'', ''b'', ''c''], [''a'', ''a'']}"
  shows "\<exists>r. ap_transaction std_lib ap_ex_lib ap_ex_voting VQ (ap_ex_env 130) (ap_ex_by ''a'' 0)
     (APPropose ''arbiters'' ''for 0'' (ProposeArbiters 0 as)) rep (ap_ex_case (Waiting (ap_ex_t 120)) None [])
     = Inr (ap_ex_case (Waiting (ap_ex_t 120)) None [Some (ProposeArbiters 0 as)], r) \<and> r_messages r = []"
  using assms by (auto simp: ap_eval_defs checkE_Inr cong: if_weak_cong)

lemma ap_ex_label: "ap_label 0 = ''0 AP''"
  by code_simp

lemma ap_ex_appoint:
  "\<exists>r. ap_transaction std_lib ap_ex_lib ap_ex_voting VQ (ap_ex_env 131) (ap_ex_by ''a'' 0)
     (APExecute 0) ap_ex_reply (ap_ex_case (Waiting (ap_ex_t 120)) None [Some (ProposeArbiters 0 as)])
     = Inr (ap_ex_case (Processing ''jury'') (Some 0) [None], r)
     \<and> r_messages r = [ApInstantiateMultisig 4 \<lparr>mi_voters = map (\<lambda>a. \<lparr>vo_addr = a, vo_weight = 1\<rparr>) as,
          mi_threshold = AbsoluteCount (of_nat (length as div 2 + 1)), mi_max_voting_period = DurationTime 100,
          mi_complaint_id = 0\<rparr> ''0 AP'']"
  by (simp add: ap_eval_defs ap_ex_label cong: if_weak_cong)

section \<open>The jury\<close>

definition ap_jury_config :: "nat \<Rightarrow> dm_config" where
  "ap_jury_config n = \<lparr>mc_parent = ''ap'', mc_threshold = AbsoluteCount (of_nat (n div 2 + 1)),
     mc_total_weight = of_nat n, mc_expires = ap_ex_t 231, mc_complaint_id = 0\<rparr>"

definition ap_jury :: "nat \<Rightarrow> (addr, u64) store \<Rightarrow> u64 \<Rightarrow> status \<Rightarrow> (addr, dm_ballot) store \<Rightarrow> dm_state" where
  "ap_jury n voters yes st bs = \<lparr>ms_version = Some (''crates.io:tg3-dispute-multisig'', ''0.15.0''),
     ms_config = Some (ap_jury_config n),
     ms_poll = Some \<lparr>mp_votes = \<lparr>mv_yes = yes, mv_no = 0, mv_abstain = 0, mv_veto = 0\<rparr>, mp_status = st\<rparr>,
     ms_ballots = bs, ms_voters = voters\<rparr>"

abbreviation ap_three :: "(addr, u64) store" where
  "ap_three \<equiv> [(''a'', 1), (''b'', 1), (''c'', 1)]"

definition ap_yes :: dm_ballot where
  "ap_yes = \<lparr>mb_points = 1, mb_vote = VYes\<rparr>"

abbreviation ap_jury_env :: "u64 \<Rightarrow> env" where
  "ap_jury_env t \<equiv> (ap_ex_env t)\<lparr>e_contract := ''jury''\<rparr>"

definition ap_seat :: "addr list \<Rightarrow> dm_instantiate_msg" where
  "ap_seat as = \<lparr>mi_voters = map (\<lambda>a. \<lparr>vo_addr = a, vo_weight = 1\<rparr>) as,
     mi_threshold = AbsoluteCount (of_nat (length as div 2 + 1)), mi_max_voting_period = DurationTime 100,
     mi_complaint_id = 0\<rparr>"

lemmas jury_eval_defs =
  ap_jury_config_def ap_jury_def ap_yes_def ap_seat_def ap_ex_env_def dm_eval_defs

lemma ap_ex_seated:
  "dm_instantiate std_lib dm_ex_validate (ap_jury_env 131) \<lparr>i_sender = ''ap'', i_funds = []\<rparr>
     (ap_seat [''a'', ''b'', ''c'']) dm_empty = Inr (ap_jury 3 ap_three 0 StOpen [], new_response)"
  by (simp add: jury_eval_defs cong: if_weak_cong)

lemma ap_ex_seated_twice:
  "dm_instantiate std_lib dm_ex_validate (ap_jury_env 131) \<lparr>i_sender = ''ap'', i_funds = []\<rparr>
     (ap_seat [''a'', ''a'']) dm_empty = Inr (ap_jury 2 [(''a'', 1)] 0 StOpen [], new_response)"
  by (simp add: jury_eval_defs cong: if_weak_cong)

lemma ap_ex_yes_a:
  "\<exists>r. dm_execute std_lib (ap_jury_env 140) (dm_ex_by ''a'') (DM_Vote VYes) (ap_jury 3 ap_three 0 StOpen [])
     = Inr (ap_jury 3 ap_three 1 StOpen [(''a'', ap_yes)], r) \<and> r_messages r = []"
  by (simp add: jury_eval_defs word_le_nat_alt cong: if_weak_cong)

lemma ap_ex_yes_b:
  "\<exists>r. dm_execute std_lib (ap_jury_env 141) (dm_ex_by ''b'') (DM_Vote VYes) (ap_jury 3 ap_three 1 StOpen [(''a'', ap_yes)])
     = Inr (ap_jury 3 ap_three 2 StPassed [(''a'', ap_yes), (''b'', ap_yes)], r) \<and> r_messages r = []"
  by (simp add: jury_eval_defs cong: if_weak_cong)

lemma ap_ex_decide:
  "\<exists>r. dm_execute std_lib (ap_jury_env 142) (dm_ex_by ''a'') (DM_Execute ''guilty'' ''link'')
       (ap_jury 3 ap_three 2 StPassed [(''a'', ap_yes), (''b'', ap_yes)])
     = Inr (ap_jury 3 ap_three 2 StExecuted [(''a'', ap_yes), (''b'', ap_yes)], r)
     \<and> r_messages r = [WasmExecute ''ap'' (RenderDecision 0 ''guilty'' ''link'') []]"
  by (simp add: jury_eval_defs cong: if_weak_cong)

lemma ap_ex_close:
  "\<exists>r. dm_execute std_lib (ap_jury_env 231) (dm_ex_by ''z'') DM_Close (ap_jury 3 ap_three 0 StOpen [])
     = Inr (ap_jury 3 ap_three 0 StRejected [], r) \<and> r_messages r = []"
  by (simp add: jury_eval_defs cong: if_weak_cong)

section \<open>Runs\<close>

abbreviation ap_ex_run :: "nat \<Rightarrow> u64 \<Rightarrow> (ap_proposal option) list ap_state \<times> court \<Rightarrow> bool" where
  "ap_ex_run n t C \<equiv> court_run std_lib ap_ex_lib ap_ex_voting dm_ex_validate ''ap'' n (e_block (ap_ex_env t)) C"

text \<open>One more call of the pool, one more call of the jury.\<close>

lemma ap_ex_call:
  assumes "ap_ex_run n t (s, M)" and "t * 1000000000 \<le> t' * 1000000000" and "t \<le> t'"
    and "m = Suc n"
    and "\<exists>r. ap_transaction std_lib ap_ex_lib ap_ex_voting (court_voters M) (ap_ex_env t') info msg rep s = Inr (s', r)
       \<and> r_messages r = []" and "M (i_sender info) = None"
  shows "ap_ex_run m t' (s', M)"
proof -
  obtain r where "ap_transaction std_lib ap_ex_lib ap_ex_voting (court_voters M) (ap_ex_env t') info msg rep s = Inr (s', r)"
    "r_messages r = []" using assms(5) by blast
  then have "court_step std_lib ap_ex_lib ap_ex_voting dm_ex_validate (ap_ex_env t') (s, M) (s', M)"
    using assms(6) by (intro court_step.pool_call) auto
  with assms(1-3) show ?thesis unfolding assms(4) by (intro court_run.court_next) (auto simp: ap_ex_env_def block_le_iff)
qed

lemma ap_ex_accepted: "ap_ex_run 2 20 (ap_ex_case (Waiting (ap_ex_t 120)) None [], Map.empty)"
proof -
  have "ap_ex_run 0 10 (ap_ex_new, Map.empty)" using ap_ex_start by (rule court_run.court_start)
  then have "ap_ex_run 1 10 (ap_ex_case (Initiated (ap_ex_t 110)) None [], Map.empty)"
    by (rule ap_ex_call [OF _ _ _ _ ap_ex_register]) auto
  then show ?thesis by (rule ap_ex_call [OF _ _ _ _ ap_ex_accept]) auto
qed

lemma ap_ex_proposed:
  assumes "as \<in> {[''a'', ''b'', ''c''], [''a'', ''a'']}"
  shows "ap_ex_run 3 130 (ap_ex_case (Waiting (ap_ex_t 120)) None [Some (ProposeArbiters 0 as)], Map.empty)"
  by (rule ap_ex_call [OF ap_ex_accepted _ _ _ ap_ex_propose [OF assms]]) auto

lemma ap_ex_appointed:
  assumes "as \<in> {[''a'', ''b'', ''c''], [''a'', ''a'']}"
    and "dm_instantiate std_lib dm_ex_validate (ap_jury_env 131) \<lparr>i_sender = ''ap'', i_funds = []\<rparr>
       (ap_seat as) dm_empty = Inr (ds, r')"
  shows "ap_ex_run 4 131 (ap_ex_case (Processing ''jury'') (Some 0) [None], [''jury'' \<mapsto> ds])"
proof -
  obtain r where call: "ap_transaction std_lib ap_ex_lib ap_ex_voting (court_voters Map.empty) (ap_ex_env 131) (ap_ex_by ''a'' 0)
       (APExecute 0) ap_ex_reply (ap_ex_case (Waiting (ap_ex_t 120)) None [Some (ProposeArbiters 0 as)])
       = Inr (ap_ex_case (Processing ''jury'') (Some 0) [None], r)"
    and r: "r_messages r = [ApInstantiateMultisig 4 (ap_seat as) ''0 AP'']"
    using ap_ex_appoint unfolding ap_seat_def by blast
  have env: "e_contract (ap_ex_env 131) = ''ap''" by (simp add: ap_ex_env_def)
  have "court_step std_lib ap_ex_lib ap_ex_voting dm_ex_validate (ap_ex_env 131)
      (ap_ex_case (Waiting (ap_ex_t 120)) None [Some (ProposeArbiters 0 as)], Map.empty)
      (ap_ex_case (Processing ''jury'') (Some 0) [None], [''jury'' \<mapsto> ds])"
    using assms by (intro court_step.appoints [OF call r])
      (auto simp: ap_ex_reply_def ap_ex_lib_def std_lib_def ap_seat_def env)
  then have "ap_ex_run (Suc 3) 131 (ap_ex_case (Processing ''jury'') (Some 0) [None], [''jury'' \<mapsto> ds])"
    by (rule court_run.court_next [OF ap_ex_proposed [OF assms(1)]]) (auto simp: ap_ex_env_def block_le_iff)
  moreover have "Suc 3 = 4" by simp
  ultimately show ?thesis by (simp only:)
qed

lemma ap_ex_jury_call:
  assumes "ap_ex_run n t (s, [''jury'' \<mapsto> ds])" and "t * 1000000000 \<le> t' * 1000000000" and "t \<le> t'"
    and "m = Suc n"
    and "\<exists>r. dm_execute std_lib (ap_jury_env t') info msg ds = Inr (ds', r) \<and> r_messages r = []"
  shows "ap_ex_run m t' (s, [''jury'' \<mapsto> ds'])"
proof -
  obtain r where "dm_execute std_lib (ap_jury_env t') info msg ds = Inr (ds', r)" "r_messages r = []"
    using assms(5) by blast
  then have "court_step std_lib ap_ex_lib ap_ex_voting dm_ex_validate (ap_ex_env t')
      (s, [''jury'' \<mapsto> ds]) (s, [''jury'' \<mapsto> ds](''jury'' \<mapsto> ds'))"
    by (intro court_step.multisig_call [where a = "''jury''" and ds = ds]) auto
  with assms(1-3) show ?thesis
    unfolding assms(4) by (intro court_run.court_next) (auto simp: ap_ex_env_def block_le_iff)
qed

lemma ap_ex_seated_run:
  "ap_ex_run 4 131 (ap_ex_case (Processing ''jury'') (Some 0) [None], [''jury'' \<mapsto> ap_jury 3 ap_three 0 StOpen []])"
  by (rule ap_ex_appointed [OF _ ap_ex_seated]) simp

lemma ap_ex_passed:
  "ap_ex_run 6 141 (ap_ex_case (Processing ''jury'') (Some 0) [None],
     [''jury'' \<mapsto> ap_jury 3 ap_three 2 StPassed [(''a'', ap_yes), (''b'', ap_yes)]])"
proof -
  have "ap_ex_run 5 140 (ap_ex_case (Processing ''jury'') (Some 0) [None],
      [''jury'' \<mapsto> ap_jury 3 ap_three 1 StOpen [(''a'', ap_yes)]])"
    by (rule ap_ex_jury_call [OF ap_ex_seated_run _ _ _ ap_ex_yes_a]) auto
  then show ?thesis by (rule ap_ex_jury_call [OF _ _ _ _ ap_ex_yes_b]) auto
qed

lemma ap_ex_rejected:
  "ap_ex_run 5 231 (ap_ex_case (Processing ''jury'') (Some 0) [None], [''jury'' \<mapsto> ap_jury 3 ap_three 0 StRejected []])"
  by (rule ap_ex_jury_call [OF ap_ex_seated_run _ _ _ ap_ex_close]) auto

lemma ap_ex_repeated:
  "ap_ex_run 4 131 (ap_ex_case (Processing ''jury'') (Some 0) [None], [''jury'' \<mapsto> ap_jury 2 [(''a'', 1)] 0 StOpen []])"
  by (rule ap_ex_appointed [OF _ ap_ex_seated_twice]) simp

end
