(* ===== verification/AP_Theorems.thy ===== *)
theory AP_Theorems
  imports AP_Examples
begin

text \<open>
  The properties of the arbiter pool, alone and with the juries it appoints, each with a witness
  in the case of \<open>AP_Examples\<close>.
\<close>

section \<open>Complaints\<close>

text \<open>
  C9. Complaints follow their life cycle. A successful transaction, in any state a run can reach,
  leaves every complaint as it is or moves it along one of five transitions: the defendant
  accepts it in time, the plaintiff retracts it before that or settles it before the waiting
  period is over, a vote of the pool assigns it to arbiters after that, and those arbiters
  decide it. Titles and parties never change, nothing is removed, and a withdrawn or decided
  complaint never moves again.
\<close>

theorem complaints_follow_life_cycle:
  assumes "ap_run L AL VL n b s paid out" and "n < 2 ^ 64" and "quiet_law VL" and "decimal_law L" and "payment_law L"
    and "ap_transaction L AL VL VQ env info msg rep s = Inr (s', r)"
    and "sget (as_complaints s) i = Some x"
  shows "\<exists>x'. sget (as_complaints s') i = Some x'
     \<and> (x' = x \<or> complaint_move L (e_block env) (i_sender info) x x')
     \<and> cp_plaintiff x' = cp_plaintiff x \<and> cp_defendant x' = cp_defendant x
     \<and> cp_title x' = cp_title x \<and> cp_description x' = cp_description x
     \<and> ((\<exists>why. cp_state x = Withdrawn why) \<or> (\<exists>u l. cp_state x = Closed u l) \<longrightarrow> x' = x)"
proof -
  have inv: "ap_inv n s" by (rule ap_run_inv [OF assms(1-5)])
  have "\<exists>x'. sget (as_complaints s') i = Some x' \<and> (x' = x \<or> complaint_move L (e_block env) (i_sender info) x x')"
    using assms(6,3) ap_inv_stored [OF inv]
  proof (cases rule: transaction_cases)
    case same
    then show ?thesis using assms(7) by (simp add: same_books_def)
  next
    case (register t d a)
    from register(2) show ?thesis
    proof (cases rule: register_shape)
      case (1 c d')
      then have "i \<noteq> ac_next_complaint_id c" using inv assms(7) by (auto simp: ap_inv_def)
      with 1(3) assms(7) show ?thesis by simp
    qed
  next
    case (moved j y y')
    then show ?thesis using assms(7) by (auto simp: moved_books_def)
  qed
  then show ?thesis using complaint_move_keeps [of L "e_block env" "i_sender info" x] by blast
qed

lemma ap_ex_run_waiting:
  "ap_run std_lib ap_ex_lib ap_ex_voting 2 (e_block (ap_ex_env 20)) (ap_ex_case (Waiting (ap_ex_t 120)) None []) 2000 0"
proof -
  let ?none = "\<lambda>_ _. Inl NotFound :: std_error + string list"
  have none: "\<forall>a ms. query_multisig_voters ?none a = Inr ms \<longrightarrow> length ms < 2 ^ 32"
    by (simp add: query_multisig_voters_def multisig_voters_loop.simps)
  obtain r1 where r1: "ap_transaction std_lib ap_ex_lib ap_ex_voting ?none (ap_ex_env 10) (ap_ex_by ''p'' 1000)
     (APRegisterComplaint ''late'' ''never paid'' ''d'') ap_ex_reply ap_ex_new
     = Inr (ap_ex_case (Initiated (ap_ex_t 110)) None [], r1)" "r_messages r1 = []"
    using ap_ex_register by blast
  obtain r2 where r2: "ap_transaction std_lib ap_ex_lib ap_ex_voting ?none (ap_ex_env 20) (ap_ex_by ''d'' 1000)
     (APAcceptComplaint 0) ap_ex_reply (ap_ex_case (Initiated (ap_ex_t 110)) None [])
     = Inr (ap_ex_case (Waiting (ap_ex_t 120)) None [], r2)" "r_messages r2 = []"
    using ap_ex_accept by blast
  have "ap_run std_lib ap_ex_lib ap_ex_voting 0 (e_block (ap_ex_env 10)) ap_ex_new 0 0"
    using ap_ex_start by (rule ap_run.ap_start)
  from ap_run.ap_next [OF this r1(1) order_refl none]
  have "ap_run std_lib ap_ex_lib ap_ex_voting (Suc 0) (e_block (ap_ex_env 10))
      (ap_ex_case (Initiated (ap_ex_t 110)) None []) 1000 0"
    by (simp add: r1(2) ap_sent_def ap_ex_by_def)
  from ap_run.ap_next [OF this r2(1) _ none]
  have "ap_run std_lib ap_ex_lib ap_ex_voting (Suc (Suc 0)) (e_block (ap_ex_env 20))
      (ap_ex_case (Waiting (ap_ex_t 120)) None []) 2000 0"
    by (simp add: r2(2) ap_sent_def ap_ex_by_def block_le_iff ap_ex_env_def)
  then show ?thesis by (simp only: numeral_2_eq_2)
qed

lemma complaints_follow_life_cycle_witness:
  "complaint_move std_lib (e_block (ap_ex_env 30)) ''p''
     (ap_ex_complaint (Waiting (ap_ex_t 120))) (ap_ex_complaint (Withdrawn ''settled''))"
proof -
  obtain r where "ap_transaction std_lib ap_ex_lib ap_ex_voting (\<lambda>_ _. Inl NotFound) (ap_ex_env 30) (ap_ex_by ''p'' 0)
     (APWithdrawComplaint 0 ''settled'') ap_ex_reply (ap_ex_case (Waiting (ap_ex_t 120)) None [])
     = Inr (ap_ex_case (Withdrawn ''settled'') None [], r)"
    using ap_ex_settle by blast
  from complaints_follow_life_cycle [OF ap_ex_run_waiting _ _ _ _ this, of 0] show ?thesis
    by (simp add: ap_ex_case_def sget_def ap_ex_complaint_def ap_ex_by_def)
qed

section \<open>Money\<close>

text \<open>
  C8. The pool can always pay. In every run of transactions, what it has paid out, plus one dispute
  cost for every complaint still waiting for the defendant and two for every one accepted and
  not settled, is at most what the parties have paid in; this includes every withdrawal, with
  or without a part kept back, and every decision, divided among however many arbiters.
\<close>

theorem ap_solvent:
  assumes "ap_run L AL VL n b s paid out" and "n < 2 ^ 64" and "quiet_law VL" and "decimal_law L" and "payment_law L"
    and "as_config s = Some (PresentConfig c)" and "unat (c_amount (ac_dispute_cost c)) < 2 ^ 127"
  shows "out + tally (\<lambda>_ x. claim_pot (unat (c_amount (ac_dispute_cost c))) (cp_state x)) (as_complaints s) \<le> paid"
  using ap_run_books [OF assms(1-5)] assms(6,7) by (simp add: ap_pot_def ap_cost_config)

lemma ap_solvent_witness:
  "0 + tally (\<lambda>_ x. claim_pot 1000 (cp_state x)) [(0 :: u64, ap_ex_complaint (Waiting (ap_ex_t 120)))] \<le> 2000"
  using ap_solvent [OF ap_ex_run_waiting, of "ap_ex_config 1"] by (simp add: ap_ex_case_def ap_ex_config_def)

text \<open>
  C32. Withdrawals pay what is due. In every state a run can reach, a withdrawal succeeds exactly
  when the sender is the plaintiff and \<open>refund_due\<close> owes something: the whole dispute cost when
  the defendant did not accept in time, four fifths of it while the defendant still could or
  to both parties when they settle, rounded down. It then sends exactly that, in that order.
\<close>

theorem withdrawal_pays_what_is_due:
  assumes "ap_run L AL VL n b s paid out" and "n < 2 ^ 64" and "quiet_law VL" and "decimal_law L" and "payment_law L"
    and "as_config s = Some (PresentConfig c)" and "sget (as_complaints s) i = Some x"
  shows "(\<exists>s' r. ap_withdraw_complaint L env info i why s = Inr (s', r) \<and> r_messages r = ms)
     \<longleftrightarrow> i_sender info = cp_plaintiff x
       \<and> (\<exists>due. refund_due (unat (c_amount (ac_dispute_cost c))) (\<lambda>e. l_is_expired L e (e_block env)) x = Some due
           \<and> ms = map (\<lambda>(a, n). ApBank (BankSend a [(ac_dispute_cost c)\<lparr>c_amount := of_nat n\<rparr>])) due)"
proof -
  have "stored_state (cp_state x)" using ap_inv_stored [OF ap_run_inv [OF assms(1-5)]] assms(7) by blast
  then show ?thesis
    using assms(6,7) eighty_percent [OF assms(4)]
    by (cases "cp_state x")
       (auto simp: ap_withdraw_complaint_def ap_config_of_def complaint_current_state_def ap_refunds_def
         refund_due_def stored_state_def Let_def)
qed

lemma withdrawal_pays_what_is_due_witness:
  "\<exists>s' r. ap_withdraw_complaint std_lib (ap_ex_env 30) (ap_ex_by ''p'' 0) 0 ''settled''
       (ap_ex_case (Waiting (ap_ex_t 120)) None []) = Inr (s', r)
     \<and> r_messages r = [ApBank (BankSend ''p'' [\<lparr>c_denom = ''utgd'', c_amount = 800\<rparr>]),
                       ApBank (BankSend ''d'' [\<lparr>c_denom = ''utgd'', c_amount = 800\<rparr>])]"
  by (subst withdrawal_pays_what_is_due [OF ap_ex_run_waiting _ toy_quiet std_decimal_law std_payment_law, where c = "ap_ex_config 1"
        and x = "ap_ex_complaint (Waiting (ap_ex_t 120))"])
     (simp_all add: ap_ex_case_def ap_ex_config_def ap_ex_complaint_def sget_def ap_ex_by_def ap_ex_env_def
        refund_due_def std_lib_def)

section \<open>Arbiters\<close>

text \<open>
  C33. Reading the arbiters ends, and finds all of them. The loop that asks a jury for its voters,
  one page after another until a page is empty, returns after finitely many pages for every
  jury in every state it can reach, with the address of every voter, once and in ascending
  order.
\<close>

theorem arbiters_read_completely:
  assumes "decimal_law L" and "expiry_law L" and "threshold_law V" and "dm_run L V b ds ms" and "M a = Some ds"
  shows "multisig_voters_loop (court_voters M a) [] = Some (Inr (map fst (ms_voters ds)))
     \<and> query_multisig_voters (court_voters M) a = Inr (map fst (ms_voters ds))
     \<and> sorted_wrt (<) (map fst (ms_voters ds))"
proof -
  have wf: "sorted_store (ms_voters ds)" using dm_run_inv [OF assms(1-4)] by (auto simp: dm_inv_def dm_books_def)
  show ?thesis
    using court.loop_complete [OF wf] court_voters_page [of M, OF assms(5)] wf
    by (simp add: query_multisig_voters_def sorted_storeD)
qed

lemma arbiters_read_completely_witness:
  "query_multisig_voters (court_voters [''multisig'' \<mapsto> dm_ex_open]) ''multisig'' = Inr [''a'', ''b'', ''c'']"
  using arbiters_read_completely [OF _ _ _ dm_ex_run_open, of "[''multisig'' \<mapsto> dm_ex_open]" "''multisig''"]
  by (simp add: dm_ex_state_def)

text \<open>
  C5. A decision of the arbiters always arrives. In every state that the pool and its juries can
  reach together, when a jury's execution succeeds it sends one decision, for the complaint it
  sits on, and the pool's part of the same transaction succeeds too: the complaint is closed
  with that summary and link, and every voter of the jury is paid twice the dispute cost
  divided by their number, rounded down.
\<close>

theorem decision_always_arrives:
  assumes "decimal_law L" and "expiry_law L" and "threshold_law V" and "quiet_law VL"
    and "court_run L AL VL V pool n b (s, M)" and "n < 2 ^ 64" and "M a = Some ds"
    and "b \<le> e_block env" and "e_contract env = pool"
    and "dm_execute L (env\<lparr>e_contract := a\<rparr>) info (DM_Execute u l) ds = Inr (ds', r')"
  shows "\<exists>c i s' r. as_config s = Some (PresentConfig c)
     \<and> r_messages r' = [WasmExecute pool (RenderDecision i u l) []]
     \<and> ap_transaction L AL VL (court_voters (M(a \<mapsto> ds'))) env \<lparr>i_sender = a, i_funds = []\<rparr>
          (APRenderDecision i u l) rep s = Inr (s', r)
     \<and> (\<exists>x. sget (as_complaints s') i = Some x \<and> cp_state x = Closed u l)
     \<and> r_messages r = map (\<lambda>v. ApBank (BankSend v [(ac_dispute_cost c)\<lparr>c_amount :=
          2 * c_amount (ac_dispute_cost c) div of_nat (length (ms_voters ds))\<rparr>])) (map fst (ms_voters ds))"
  by (rule decision_lands [OF assms(1-3) court_run_inv [OF assms(1-6)] assms(7-10)])

lemma decision_always_arrives_witness:
  "\<exists>M s' r. ap_transaction std_lib ap_ex_lib ap_ex_voting (court_voters M) (ap_ex_env 142) \<lparr>i_sender = ''jury'', i_funds = []\<rparr>
       (APRenderDecision 0 ''guilty'' ''link'') ap_ex_reply (ap_ex_case (Processing ''jury'') (Some 0) [None]) = Inr (s', r)
     \<and> r_messages r = map (\<lambda>v. ApBank (BankSend v [\<lparr>c_denom = ''utgd'', c_amount = 666\<rparr>])) [''a'', ''b'', ''c'']"
proof -
  obtain r' where r': "dm_execute std_lib (ap_jury_env 142) (dm_ex_by ''a'') (DM_Execute ''guilty'' ''link'')
       (ap_jury 3 ap_three 2 StPassed [(''a'', ap_yes), (''b'', ap_yes)])
     = Inr (ap_jury 3 ap_three 2 StExecuted [(''a'', ap_yes), (''b'', ap_yes)], r')"
    "r_messages r' = [WasmExecute ''ap'' (RenderDecision 0 ''guilty'' ''link'') []]" using ap_ex_decide by blast
  have block: "e_block (ap_ex_env 141) \<le> e_block (ap_ex_env 142)" "e_contract (ap_ex_env 142) = ''ap''"
    by (simp_all add: ap_ex_env_def block_le_iff)
  from decision_always_arrives [OF _ _ _ _ ap_ex_passed _ _ block r'(1), of ap_ex_reply] show ?thesis
    by (simp add: r'(2) ap_ex_case_def ap_ex_config_def ap_jury_def) blast
qed

text \<open>
  C30. A complaint and its jury agree. In every state they can reach together, a jury has its
  complaint's id, the pool as its parent, voters of weight one and a threshold that is a count;
  its complaint is closed when the jury has executed its decision and in processing by this
  jury when it has not; and a complaint in processing always has its jury on the chain.
\<close>

theorem complaint_and_jury_agree:
  assumes "decimal_law L" and "expiry_law L" and "threshold_law V" and "quiet_law VL"
    and "court_run L AL VL V pool n b (s, M)" and "n < 2 ^ 64"
  shows "(\<forall>a ds. M a = Some ds \<longrightarrow> (\<exists>cfg poll x. ms_config ds = Some cfg \<and> ms_poll ds = Some poll
       \<and> jury pool cfg ds \<and> sget (as_complaints s) (mc_complaint_id cfg) = Some x
       \<and> (if mp_status poll = StExecuted then \<exists>u l. cp_state x = Closed u l else cp_state x = Processing a)))
     \<and> (\<forall>i x a. sget (as_complaints s) i = Some x \<longrightarrow> cp_state x = Processing a \<longrightarrow> M a \<noteq> None)"
  using court_run_inv [OF assms] by (fastforce simp: seated_def)

lemma complaint_and_jury_agree_witness:
  "jury ''ap'' (ap_jury_config 3) (ap_jury 3 ap_three 2 StPassed [(''a'', ap_yes), (''b'', ap_yes)])"
  using complaint_and_jury_agree [OF _ _ _ _ ap_ex_passed, THEN conjunct1, rule_format, of "''jury''"]
  by (auto simp: ap_jury_def)

text \<open>
  C31. A jury that does not pass its vote leaves the complaint undecided for ever. Once a jury's
  vote is rejected, or when the arbiters listed were so often the same that the voters stored
  are fewer than the count needed, the complaint is in processing by that jury in every later
  state, whatever is called: it is never decided, withdrawn or assigned again, and the two
  dispute costs held for it are never paid out.
\<close>

theorem hung_jury_is_for_ever:
  assumes "decimal_law L" and "expiry_law L" and "threshold_law V" and "quiet_law VL"
    and "court_run L AL VL V pool n b (s, M)" and "M a = Some ds" and "hung ds"
    and "court_later L AL VL V pool n b (s, M) n' b' (s', M')" and "n < 2 ^ 64" and "n' < 2 ^ 64"
  shows "\<exists>cfg x. ms_config ds = Some cfg \<and> sget (as_complaints s') (mc_complaint_id cfg) = Some x
     \<and> cp_state x = Processing a"
proof -
  have "court_inv L V pool n b (s, M)" by (rule court_run_inv [OF assms(1-5,9)])
  from hung_forever [OF assms(1-4,8) this assms(10,6,7)] obtain ds' where
    "court_inv L V pool n' b' (s', M')" "M' a = Some ds'" "hung ds'" "ms_config ds' = ms_config ds" by auto
  then show ?thesis
    using hung_not_executed [OF assms(1-3), of pool b' "as_complaints s'" a ds'] by (metis court_inv_pair)
qed

lemma hung_jury_is_for_ever_witness:
  "\<exists>x. sget (as_complaints (ap_ex_case (Processing ''jury'') (Some 0) [None])) 0 = Some x \<and> cp_state x = Processing ''jury''"
proof -
  let ?one = "ap_jury 2 [(''a'', 1)] 0 StOpen []" and ?voted = "ap_jury 2 [(''a'', 1)] 1 StOpen [(''a'', ap_yes)]"
  let ?s = "ap_ex_case (Processing ''jury'') (Some 0) [None]"
  have "\<exists>r. dm_execute std_lib (ap_jury_env 140) (dm_ex_by ''a'') (DM_Vote VYes) ?one = Inr (?voted, r) \<and> r_messages r = []"
    by (simp add: jury_eval_defs word_le_nat_alt cong: if_weak_cong)
  then obtain r where "dm_execute std_lib (ap_jury_env 140) (dm_ex_by ''a'') (DM_Vote VYes) ?one = Inr (?voted, r)"
    "r_messages r = []" by blast
  then have "court_step std_lib ap_ex_lib ap_ex_voting dm_ex_validate (ap_ex_env 140)
      (?s, [''jury'' \<mapsto> ?one]) (?s, [''jury'' \<mapsto> ?one](''jury'' \<mapsto> ?voted))"
    by (intro court_step.multisig_call [where a = "''jury''" and ds = ?one]) auto
  then have later: "court_later std_lib ap_ex_lib ap_ex_voting dm_ex_validate ''ap'' 4 (e_block (ap_ex_env 131))
      (?s, [''jury'' \<mapsto> ?one]) (Suc 4) (e_block (ap_ex_env 140)) (?s, [''jury'' \<mapsto> ?voted])"
    by (intro court_later.later_step [OF court_later.later_now]) (auto simp: ap_ex_env_def block_le_iff)
  have "hung ?one" by (simp add: hung_def ap_jury_def ap_jury_config_def)
  from hung_jury_is_for_ever [OF _ _ _ _ ap_ex_repeated _ this later] show ?thesis
    by (auto simp: ap_jury_def ap_jury_config_def)
qed

section \<open>Labels and upgrades\<close>

text \<open>
  The label of a jury names its complaint. Up to its first space the label is the complaint's
  id in decimal digits, which read back give the id; so no two complaints share a label.
\<close>

theorem label_names_complaint:
  "read_digits 0 (takeWhile (\<lambda>ch. ch \<noteq> CHR '' '') (ap_label i)) = unat i \<and> (ap_label i = ap_label j \<longleftrightarrow> i = j)"
proof -
  have read: "read_digits 0 (takeWhile (\<lambda>ch. ch \<noteq> CHR '' '') (ap_label k)) = unat k" for k
  proof -
    have "unat k < 10 ^ 20" using unat_u64 [of k] by simp
    moreover have "takeWhile (\<lambda>ch. ch \<noteq> CHR '' '') (ap_label k) = digits_from 20 (unat k)"
      using digits_not_blank [of 20 "unat k"]
      by (auto simp: ap_label_def show_u64_def takeWhile_append takeWhile_eq_all_conv)
    ultimately show ?thesis using read_digits_from by simp
  qed
  have "i = j" if "ap_label i = ap_label j"
    using read [of i] read [of j] that by (simp add: word_unat_eq_iff)
  with read show ?thesis by blast
qed

text \<open>
  An upgrade keeps the books. A migration that succeeds leaves the complaints, the awaited
  complaint and the votes alone, keeps the dispute cost and the next id, and from then on the
  configuration can be read, also when it was written before version 0.6.3 and could not; the
  waiting period and the code id are replaced when the message gives a value above zero, and
  the code id is otherwise kept, unless it was not there before.
\<close>

theorem upgrade_keeps_books:
  assumes "ap_migrate AL code waiting s = Inr (s', r)"
  shows "\<exists>st c. as_config s = Some st \<and> ap_config_of s' = Inr c
     \<and> ac_dispute_cost c = ao_dispute_cost (ap_old_config st)
     \<and> ac_next_complaint_id c = ao_next_complaint_id (ap_old_config st)
     \<and> ac_waiting_period c = (if 0 < waiting then waiting else ao_waiting_period (ap_old_config st))
     \<and> (0 < code \<longrightarrow> ac_multisig_code_id c = code)
     \<and> (\<forall>name old v. as_version s = Some (name, old) \<and> code = 0 \<and> apl_ensure_older AL (as_version s)
            ''crates.io:tgrade_ap_voting'' ''0.15.0'' = Inr (v, old) \<and> \<not> apl_version_less AL old ''0.6.3''
          \<longrightarrow> st = PresentConfig (c\<lparr>ac_waiting_period := ao_waiting_period (ap_old_config st)\<rparr>))
     \<and> as_complaints s' = as_complaints s \<and> as_awaiting s' = as_awaiting s \<and> as_voting s' = as_voting s
     \<and> r_messages r = []"
proof -
  from assms obtain v old s1 where older: "apl_ensure_older AL (as_version s) ''crates.io:tgrade_ap_voting'' ''0.15.0'' = Inr (v, old)"
    and mig: "ap_migrate_config AL old code waiting (s\<lparr>as_version := v\<rparr>) = Inr s'" and r: "r = new_response"
    by (auto simp: ap_migrate_def)
  show ?thesis
  proof (cases "apl_version_less AL old ''0.6.3''")
    case True
    with mig older r show ?thesis by (auto simp: ap_migrate_config_def Let_def)
  next
    case False
    with mig older r show ?thesis by (auto simp: ap_migrate_config_def Let_def)
  qed
qed

lemma upgrade_keeps_books_witness:
  "\<exists>s' r c. ap_migrate ap_ex_lib 9 0 (ap_ex_new\<lparr>as_version := Some (''crates.io:tgrade_ap_voting'', ''0.6.2''),
       as_config := Some (OldConfig \<lparr>ao_dispute_cost = \<lparr>c_denom = ''utgd'', c_amount = 1000\<rparr>,
         ao_waiting_period = 100, ao_next_complaint_id = 5\<rparr>)\<rparr>) = Inr (s', r)
     \<and> ap_config_of s' = Inr c \<and> ac_next_complaint_id c = 5 \<and> ac_multisig_code_id c = 9"
proof -
  let ?s = "ap_ex_new\<lparr>as_version := Some (''crates.io:tgrade_ap_voting'', ''0.6.2''),
       as_config := Some (OldConfig \<lparr>ao_dispute_cost = \<lparr>c_denom = ''utgd'', c_amount = 1000\<rparr>,
         ao_waiting_period = 100, ao_next_complaint_id = 5\<rparr>)\<rparr>"
  have "\<exists>s' r. ap_migrate ap_ex_lib 9 0 ?s = Inr (s', r)"
    by (simp add: ap_migrate_def ap_migrate_config_def ap_eval_defs)
  then obtain s' r where "ap_migrate ap_ex_lib 9 0 ?s = Inr (s', r)" by blast
  from this upgrade_keeps_books [OF this] show ?thesis by fastforce
qed

end
