(* ===== verification/OC_Contract.thy ===== *)
theory OC_Contract
  imports Voting_Contract Paging
begin

text \<open>
  The proposals of the oversight community (\<open>contracts/tgrade-oc-proposals/src\<close>): what may be
  proposed, its validation, and the messages that an executed proposal sends to the engagement
  and validator set contracts. Voting is delegated to \<open>voting_lib\<close>. The contracts the messages
  go to are in other repositories; the parts of a configuration update that this contract
  passes on without looking at them are of a type \<open>'d\<close>.
\<close>

section \<open>Proposals\<close>

datatype jailing_duration = JailFor u64 | JailForever

record 'd config_update =
  cu_min_points :: "u64 option"
  cu_max_validators :: "u32 option"
  cu_scaling :: "u32 option"
  cu_epoch_reward :: "coin option"
  cu_fee_percentage :: "decimal option"
  cu_auto_unjail :: "bool option"
  cu_double_sign_slash_ratio :: "decimal option"
  cu_distribution_contracts :: "'d list option"
  cu_verify_validators :: "bool option"
  cu_offline_jail_duration :: "u64 option"

datatype 'd oc_proposal =
  GrantEngagement addr u64
| Punish addr decimal "jailing_duration option"
| Unjail addr
| UpdateConfig "'d config_update"
| OCText

datatype oc_error =
  OC_Std std_error
| OC_Voting voting_error
| OC_InvalidEngagementContract string
| OC_InvalidValsetContract string
| OC_WrongExecuteStatus
| OC_EmptyTitle
| OC_EmptyDescription
| OC_InvalidPoints u64
| OC_InvalidPortion decimal
| OC_InvalidDuration u64
| OC_InvalidMaxValidators u64
| OC_InvalidScaling u64
| OC_InvalidRewardDenom

fun oc_voting_error :: "voting_error \<Rightarrow> oc_error" where
  "oc_voting_error (VotingStd e) = OC_Std e"
| "oc_voting_error (VotingOther e) = OC_Voting (VotingOther e)"

text \<open>A check of an optional value.\<close>

definition oc_check :: "'a option \<Rightarrow> ('a \<Rightarrow> bool) \<Rightarrow> oc_error \<Rightarrow> oc_error + unit" where
  "oc_check x bad e = (case x of None \<Rightarrow> Inr () | Some v \<Rightarrow> if bad v then Inl e else Inr ())"

definition oc_check_member :: "cw_lib \<Rightarrow> addr \<Rightarrow> oc_error + unit" where
  "oc_check_member L member = bindE (map_err OC_Std (l_addr_validate L member)) (\<lambda>_. Inr ())"

definition oc_validate :: "cw_lib \<Rightarrow> 'd oc_proposal \<Rightarrow> oc_error + unit" where
  "oc_validate L p =
     (case p of
        GrantEngagement member points \<Rightarrow>
          bindE (oc_check_member L member) (\<lambda>_.
          if points = 0 then Inl (OC_InvalidPoints 0) else Inr ())
      | Punish member portion jailing \<Rightarrow>
          bindE (oc_check_member L member) (\<lambda>_.
          if portion = 0 \<or> decimal_one < portion then Inl (OC_InvalidPortion portion)
          else case jailing of
            Some (JailFor d) \<Rightarrow> if d = 0 then Inl (OC_InvalidDuration 0) else Inr ()
          | Some JailForever \<Rightarrow> Inr ()
          | None \<Rightarrow> Inr ())
      | Unjail member \<Rightarrow> oc_check_member L member
      | UpdateConfig u \<Rightarrow>
          bindE (oc_check (cu_min_points u) (\<lambda>n. n = 0) (OC_InvalidPoints 0)) (\<lambda>_.
          bindE (oc_check (cu_max_validators u) (\<lambda>n. n = 0) (OC_InvalidMaxValidators 0)) (\<lambda>_.
          bindE (oc_check (cu_scaling u) (\<lambda>n. n = 0) (OC_InvalidScaling 0)) (\<lambda>_.
          oc_check (cu_epoch_reward u) (\<lambda>c. length (c_denom c) < 2 \<or> 127 < length (c_denom c))
            OC_InvalidRewardDenom)))
      | OCText \<Rightarrow> Inr ())"

section \<open>State and messages\<close>

record oc_config =
  oc_engagement_contract :: addr
  oc_valset_contract :: addr

record 'v oc_state =
  os_version :: "(string \<times> string) option"
  os_config :: "oc_config option"
  os_voting :: 'v

definition oc_empty :: "'v \<Rightarrow> 'v oc_state" where
  "oc_empty v = \<lparr>os_version = None, os_config = None, os_voting = v\<rparr>"

datatype engagement_msg = AddPoints string u64

datatype 'd valset_msg =
  Slash string decimal
| Jail string jailing_duration
| UnjailMsg "string option"
| UpdateValsetConfig "'d config_update"

datatype 'd oc_msg = ToEngagement addr engagement_msg | ToValset addr "'d valset_msg"

record 'r oc_instantiate_msg =
  oi_rules :: 'r
  oi_group_addr :: string
  oi_engagement_addr :: string
  oi_valset_addr :: string

datatype 'd oc_execute_msg =
  OCPropose string string "'d oc_proposal"
| OCVote u64 vote
| OCExecute u64
| OCClose u64

type_synonym ('v, 'd) oc_result = "oc_error + ('v oc_state \<times> 'd oc_msg response)"

section \<open>Handlers\<close>

definition oc_instantiate ::
  "cw_lib \<Rightarrow> ('v, 'w, 'd oc_proposal, 'r, 'd oc_msg) voting_lib \<Rightarrow> 'r oc_instantiate_msg \<Rightarrow> 'v oc_state \<Rightarrow> ('v, 'd) oc_result" where
  "oc_instantiate L VL msg s =
     (let s = s\<lparr>os_version := Some (''crates.io:tgrade_oc_proposals'', ''0.15.0'')\<rparr> in
      bindE (map_err (\<lambda>_. OC_InvalidEngagementContract (oi_engagement_addr msg))
        (l_addr_validate L (oi_engagement_addr msg))) (\<lambda>engagement.
      bindE (map_err (\<lambda>_. OC_InvalidValsetContract (oi_valset_addr msg))
        (l_addr_validate L (oi_valset_addr msg))) (\<lambda>valset.
      let s = s\<lparr>os_config := Some \<lparr>oc_engagement_contract = engagement, oc_valset_contract = valset\<rparr>\<rparr> in
      bindE (map_err oc_voting_error (vl_instantiate VL (oi_rules msg) (oi_group_addr msg) (os_voting s))) (\<lambda>(v, res).
      Inr (s\<lparr>os_voting := v\<rparr>, res)))))"

definition oc_voting_call ::
  "voting_error + ('v \<times> 'd oc_msg response) \<Rightarrow> 'v oc_state \<Rightarrow> ('v, 'd) oc_result" where
  "oc_voting_call r s = bindE (map_err oc_voting_error r) (\<lambda>(v, res). Inr (s\<lparr>os_voting := v\<rparr>, res))"

definition oc_execute_execute ::
  "('v, 'w, 'd oc_proposal, 'r, 'd oc_msg) voting_lib \<Rightarrow> env \<Rightarrow> message_info \<Rightarrow> u64 \<Rightarrow> 'v oc_state \<Rightarrow> ('v, 'd) oc_result" where
  "oc_execute_execute VL env info proposal_id s =
     bindE (map_err oc_voting_error (vl_mark_executed VL env proposal_id (os_voting s))) (\<lambda>(v, proposal).
     let s = s\<lparr>os_voting := v\<rparr> in
     bindE (of_opt (OC_Std NotFound) (os_config s)) (\<lambda>config.
     let res = add_attr ''proposal_id'' (AU64 proposal_id) (add_attr ''sender'' (AStr (i_sender info))
           (add_attr ''action'' (AStr ''execute'') new_response))
     in case vl_content VL proposal of
          GrantEngagement member points \<Rightarrow>
            Inr (s, add_message (ToEngagement (oc_engagement_contract config) (AddPoints member points)) res)
        | Punish member portion jailing \<Rightarrow>
            let res = (if portion \<noteq> 0
                  then add_message (ToValset (oc_valset_contract config) (Slash member portion)) res else res);
                res = (case jailing of
                    Some duration \<Rightarrow> add_message (ToValset (oc_valset_contract config) (Jail member duration)) res
                  | None \<Rightarrow> res)
            in Inr (s, res)
        | Unjail member \<Rightarrow>
            Inr (s, add_message (ToValset (oc_valset_contract config) (UnjailMsg (Some member))) res)
        | UpdateConfig u \<Rightarrow>
            Inr (s, add_message (ToValset (oc_valset_contract config) (UpdateValsetConfig u)) res)
        | OCText \<Rightarrow>
            bindE (map_err oc_voting_error (vl_execute_text VL proposal_id proposal (os_voting s))) (\<lambda>v.
            Inr (s\<lparr>os_voting := v\<rparr>, res))))"

definition oc_execute ::
  "cw_lib \<Rightarrow> ('v, 'w, 'd oc_proposal, 'r, 'd oc_msg) voting_lib \<Rightarrow> env \<Rightarrow> message_info \<Rightarrow> 'd oc_execute_msg \<Rightarrow>
   'v oc_state \<Rightarrow> ('v, 'd) oc_result" where
  "oc_execute L VL env info msg s =
     (case msg of
        OCPropose title description proposal \<Rightarrow>
          if title = '''' then Inl OC_EmptyTitle
          else if description = '''' then Inl OC_EmptyDescription
          else
            bindE (oc_validate L proposal) (\<lambda>_.
            oc_voting_call (vl_propose VL env info title description proposal (os_voting s)) s)
      | OCVote proposal_id vote \<Rightarrow> oc_voting_call (vl_vote VL env info proposal_id vote (os_voting s)) s
      | OCExecute proposal_id \<Rightarrow> oc_execute_execute VL env info proposal_id s
      | OCClose proposal_id \<Rightarrow> oc_voting_call (vl_close VL env info proposal_id (os_voting s)) s)"

text \<open>The check of the stored version belongs to a package; it may also write the new one.\<close>

definition oc_migrate ::
  "((string \<times> string) option \<Rightarrow> string \<Rightarrow> string \<Rightarrow> std_error + (string \<times> string) option) \<Rightarrow>
   'v oc_state \<Rightarrow> ('v, 'd) oc_result" where
  "oc_migrate E s =
     bindE (map_err OC_Std (E (os_version s) ''crates.io:tgrade_oc_proposals'' ''0.15.0'')) (\<lambda>v.
     Inr (s\<lparr>os_version := v\<rparr>, new_response))"

section \<open>Queries\<close>

definition oc_align_limit :: "u32 option \<Rightarrow> nat" where
  "oc_align_limit limit = unat (min (case limit of None \<Rightarrow> 30 | Some l \<Rightarrow> l) 100)"

datatype oc_query_msg =
  OCQ_Configuration
| OCQ_Rules
| OCQ_Proposal u64
| OCQ_ListProposals "u64 option" "u32 option"
| OCQ_ReverseProposals "u64 option" "u32 option"
| OCQ_Vote u64 string
| OCQ_ListVotes u64 "string option" "u32 option"
| OCQ_ListVotesByVoter string "u64 option" "u32 option"
| OCQ_Voter string
| OCQ_ListVoters "string option" "u32 option"
| OCQ_GroupContract

datatype 'a oc_answer = OCA_Configuration oc_config | OCA_Voting 'a

definition oc_answer_with :: "('b \<Rightarrow> 'a oc_answer) \<Rightarrow> std_error + 'b \<Rightarrow> std_error + 'a oc_answer" where
  "oc_answer_with f r = bindE r (\<lambda>x. Inr (f x))"

definition oc_query ::
  "('v, 'a) voting_queries \<Rightarrow> env \<Rightarrow> oc_query_msg \<Rightarrow> 'v oc_state \<Rightarrow> std_error + 'a oc_answer" where
  "oc_query W env msg s =
     (let v = os_voting s in
      case msg of
        OCQ_Configuration \<Rightarrow> oc_answer_with OCA_Configuration (of_opt NotFound (os_config s))
      | OCQ_Rules \<Rightarrow> oc_answer_with OCA_Voting (vq_rules W v)
      | OCQ_Proposal i \<Rightarrow> oc_answer_with OCA_Voting (vq_proposal W env i v)
      | OCQ_Vote i voter \<Rightarrow> oc_answer_with OCA_Voting (vq_vote W i voter v)
      | OCQ_ListProposals start limit \<Rightarrow>
          oc_answer_with OCA_Voting (vq_list_proposals W env start (oc_align_limit limit) v)
      | OCQ_ReverseProposals start limit \<Rightarrow>
          oc_answer_with OCA_Voting (vq_reverse_proposals W env start (oc_align_limit limit) v)
      | OCQ_ListVotes i start limit \<Rightarrow>
          oc_answer_with OCA_Voting (vq_list_votes W i start (oc_align_limit limit) v)
      | OCQ_ListVotesByVoter voter start limit \<Rightarrow>
          oc_answer_with OCA_Voting (vq_list_votes_by_voter W voter start (oc_align_limit limit) v)
      | OCQ_Voter a \<Rightarrow> oc_answer_with OCA_Voting (vq_voter W a v)
      | OCQ_ListVoters start limit \<Rightarrow> oc_answer_with OCA_Voting (vq_list_voters W start limit v)
      | OCQ_GroupContract \<Rightarrow> oc_answer_with OCA_Voting (vq_group_contract W v))"

end
