(* ===== verification/OC_Correct.thy ===== *)
theory OC_Correct
  imports OC_Contract
begin

text \<open>
  The oversight community over its whole life: the messages it has sent are the effects of the
  proposals executed, each of which was accepted once, when it was valid.
\<close>

section \<open>What a proposal asks for\<close>

text \<open>The messages that a proposal stands for, whatever has happened to it since.\<close>

fun oc_effect :: "oc_config \<Rightarrow> 'd oc_proposal \<Rightarrow> 'd oc_msg list" where
  "oc_effect c (GrantEngagement member points) = [ToEngagement (oc_engagement_contract c) (AddPoints member points)]"
| "oc_effect c (Punish member portion None) = [ToValset (oc_valset_contract c) (Slash member portion)]"
| "oc_effect c (Punish member portion (Some d)) =
     [ToValset (oc_valset_contract c) (Slash member portion), ToValset (oc_valset_contract c) (Jail member d)]"
| "oc_effect c (Unjail member) = [ToValset (oc_valset_contract c) (UnjailMsg (Some member))]"
| "oc_effect c (UpdateConfig u) = [ToValset (oc_valset_contract c) (UpdateValsetConfig u)]"
| "oc_effect c OCText = []"

fun oc_proposed :: "'d oc_execute_msg \<Rightarrow> 'd oc_proposal list" where
  "oc_proposed (OCPropose _ _ p) = [p]"
| "oc_proposed _ = []"

section \<open>Runs\<close>

text \<open>\<open>oc_run L VL s ps ms\<close>: in state \<open>s\<close>, having accepted the proposals \<open>ps\<close> and sent the messages \<open>ms\<close>.\<close>

inductive oc_run ::
  "cw_lib \<Rightarrow> ('v, 'w, 'd oc_proposal, 'r, 'd oc_msg) voting_lib \<Rightarrow> 'v oc_state \<Rightarrow> 'd oc_proposal list \<Rightarrow>
   'd oc_msg list \<Rightarrow> bool" for L VL where
  oc_start: "oc_instantiate L VL msg (oc_empty v) = Inr (s, r) \<Longrightarrow> oc_run L VL s [] (r_messages r)"
| oc_step: "oc_run L VL s ps ms \<Longrightarrow> oc_execute L VL env info msg s = Inr (s', r) \<Longrightarrow>
     oc_run L VL s' (ps @ oc_proposed msg) (ms @ r_messages r)"

definition oc_books ::
  "cw_lib \<Rightarrow> ('v \<Rightarrow> 'd oc_proposal multiset) \<Rightarrow> oc_config \<Rightarrow> 'v \<Rightarrow> 'd oc_proposal list \<Rightarrow> 'd oc_msg list \<Rightarrow> bool" where
  "oc_books L C cfg v ps ms \<longleftrightarrow> (\<forall>p \<in> set ps. oc_validate L p = Inr ())
     \<and> (\<exists>xs. mset xs + C v \<subseteq># mset ps \<and> ms = concat (map (oc_effect cfg) xs))"

lemma oc_voting_call_shape:
  assumes "oc_voting_call x s = Inr (s', r)"
  obtains v where "x = Inr (v, r)" "s' = s\<lparr>os_voting := v\<rparr>"
  using assms by (auto simp: oc_voting_call_def)

text \<open>Executing a valid proposal sends its effect: its portion is not zero, so it is slashed first.\<close>

lemma oc_execute_shape:
  assumes "oc_execute_execute VL env info n s = Inr (s', r)" and "pending_law VL C" and "os_config s = Some cfg"
    and "\<And>p. p \<in># C (os_voting s) \<Longrightarrow> oc_validate L p = Inr ()"
  obtains p where "C (os_voting s) = add_mset p (C (os_voting s'))" "os_config s' = Some cfg"
    "r_messages r = oc_effect cfg p"
proof -
  from assms(1) obtain v w where mark: "vl_mark_executed VL env n (os_voting s) = Inr (v, w)"
    by (auto simp: oc_execute_execute_def)
  have C: "C (os_voting s) = add_mset (vl_content VL w) (C v)" by (rule pending_calls(5) [OF assms(2) mark])
  then have valid: "oc_validate L (vl_content VL w) = Inr ()" using assms(4) by simp
  show thesis
  proof (cases "vl_content VL w")
    case OCText
    then obtain v' where "vl_execute_text VL n w v = Inr v'" "s' = s\<lparr>os_voting := v'\<rparr>" "r_messages r = []"
      using assms(1,3) mark by (auto simp: oc_execute_execute_def Let_def)
    moreover from this have "C v' = C v" using pending_calls(6) [OF assms(2)] by blast
    ultimately show thesis using C OCText assms(3) by (intro that [of OCText]) auto
  next
    case (Punish m p j)
    then have "p \<noteq> 0" using valid by (auto simp: oc_validate_def split: if_splits)
    with assms(1,3) mark C Punish show thesis
      by (intro that [of "Punish m p j"]) (auto simp: oc_execute_execute_def Let_def split: option.splits)
  qed (use assms(1,3) mark C in \<open>auto simp: oc_execute_execute_def Let_def intro!: that\<close>)
qed

lemma oc_step_books:
  assumes "quiet_law VL" and "pending_law VL C" and "oc_execute L VL env info msg s = Inr (s', r)"
    and "os_config s = Some cfg" and "oc_books L C cfg (os_voting s) ps ms"
  shows "os_config s' = Some cfg \<and> oc_books L C cfg (os_voting s') (ps @ oc_proposed msg) (ms @ r_messages r)"
proof -
  from assms(5) obtain xs where xs: "mset xs + C (os_voting s) \<subseteq># mset ps" "ms = concat (map (oc_effect cfg) xs)"
    and valid: "\<forall>p \<in> set ps. oc_validate L p = Inr ()" by (auto simp: oc_books_def)
  have less: "mset xs + D \<subseteq># mset ps" if "D \<subseteq># C (os_voting s)" for D
    using that xs(1) by (meson mset_subset_eq_mono_add subset_mset.order_refl subset_mset.order_trans)
  show ?thesis
  proof (cases msg)
    case (OCPropose t d p)
    then obtain v where v: "oc_validate L p = Inr ()" "vl_propose VL env info t d p (os_voting s) = Inr (v, r)"
      "s' = s\<lparr>os_voting := v\<rparr>"
      using assms(3) by (auto simp: oc_execute_def split: if_splits elim!: oc_voting_call_shape)
    then have "C v = add_mset p (C (os_voting s))" "r_messages r = []"
      using pending_calls(2) [OF assms(2)] quiet_calls(2) [OF assms(1)] by fast+
    then have "mset xs + C v \<subseteq># mset (ps @ [p])" using xs(1) by simp
    then show ?thesis using OCPropose v xs(2) valid assms(4) \<open>r_messages r = []\<close>
      by (auto simp: oc_books_def)
  next
    case (OCVote n x)
    then obtain v where v: "vl_vote VL env info n x (os_voting s) = Inr (v, r)" "s' = s\<lparr>os_voting := v\<rparr>"
      using assms(3) by (auto simp: oc_execute_def elim!: oc_voting_call_shape)
    then have "C v = C (os_voting s)" "r_messages r = []"
      using pending_calls(3) [OF assms(2)] quiet_calls(3) [OF assms(1)] by fast+
    then show ?thesis using OCVote v xs valid assms(4) by (auto simp: oc_books_def)
  next
    case (OCClose n)
    then obtain v where v: "vl_close VL env info n (os_voting s) = Inr (v, r)" "s' = s\<lparr>os_voting := v\<rparr>"
      using assms(3) by (auto simp: oc_execute_def elim!: oc_voting_call_shape)
    then have "C v \<subseteq># C (os_voting s)" "r_messages r = []"
      using pending_calls(4) [OF assms(2)] quiet_calls(4) [OF assms(1)] by fast+
    then show ?thesis using OCClose v xs(2) less valid assms(4) by (auto simp: oc_books_def)
  next
    case (OCExecute n)
    then have call: "oc_execute_execute VL env info n s = Inr (s', r)" using assms(3) by (simp add: oc_execute_def)
    have "oc_validate L p = Inr ()" if "p \<in># C (os_voting s)" for p
    proof -
      have "p \<in># mset ps" using xs(1) that by (meson mset_subset_eqD subset_mset.le_add_same_cancel2 subset_mset.zero_le subset_mset.order_trans union_iff)
      then show ?thesis using valid by simp
    qed
    from oc_execute_shape [OF call assms(2,4) this] obtain p where
      "C (os_voting s) = add_mset p (C (os_voting s'))" "os_config s' = Some cfg" "r_messages r = oc_effect cfg p"
      by blast
    then show ?thesis
      using OCExecute xs valid by (auto simp: oc_books_def intro!: exI [of _ "xs @ [p]"])
  qed
qed

lemma oc_run_books:
  assumes "quiet_law VL" and "pending_law VL C" and "oc_run L VL s ps ms"
  shows "\<exists>cfg. os_config s = Some cfg \<and> oc_books L C cfg (os_voting s) ps ms"
  using assms(3)
proof (induction rule: oc_run.induct)
  case (oc_start msg v s r)
  then obtain v' where "vl_instantiate VL (oi_rules msg) (oi_group_addr msg) v = Inr (v', r)" "os_voting s = v'"
    "\<exists>cfg. os_config s = Some cfg"
    by (auto simp: oc_instantiate_def oc_empty_def Let_def)
  moreover from this have "C v' = {#}" "r_messages r = []"
    using pending_calls(1) [OF assms(2)] quiet_calls(1) [OF assms(1)] by fast+
  ultimately show ?case by (auto simp: oc_books_def intro: exI [of _ "[]"])
next
  case (oc_step s ps ms env info msg s' r)
  then show ?case using oc_step_books [OF assms(1,2) oc_step.hyps(2)] by blast
qed

end
