(* ===== verification/OC_Theorems.thy ===== *)
theory OC_Theorems
  imports OC_Correct
begin

text \<open>
  The properties of the oversight community's contract, with a witness each: a validator is
  punished by a proposal that is made, passed and executed.
\<close>

section \<open>An example\<close>

definition oc_ex_init :: "unit oc_instantiate_msg" where
  "oc_ex_init = \<lparr>oi_rules = (), oi_group_addr = ''group'', oi_engagement_addr = ''engagement'', oi_valset_addr = ''valset''\<rparr>"

definition oc_ex_config :: oc_config where
  "oc_ex_config = \<lparr>oc_engagement_contract = ''engagement'', oc_valset_contract = ''valset''\<rparr>"

definition oc_ex_env :: env where
  "oc_ex_env = \<lparr>e_block = \<lparr>b_height = 7, b_time = 7000000000\<rparr>, e_contract = ''oc''\<rparr>"

definition oc_ex_info :: message_info where
  "oc_ex_info = \<lparr>i_sender = ''member'', i_funds = []\<rparr>"

abbreviation oc_ex_punish :: "nat oc_proposal" where
  "oc_ex_punish \<equiv> Punish ''validator'' 100000000000000000 (Some JailForever)"

abbreviation oc_ex_voting :: "((nat oc_proposal option) list, nat oc_proposal, nat oc_proposal, unit, nat oc_msg) voting_lib" where
  "oc_ex_voting \<equiv> toy_voting"

definition oc_ex_state :: "(nat oc_proposal option) list \<Rightarrow> (nat oc_proposal option) list oc_state" where
  "oc_ex_state v = \<lparr>os_version = Some (''crates.io:tgrade_oc_proposals'', ''0.15.0''), os_config = Some oc_ex_config, os_voting = v\<rparr>"

lemmas oc_eval_defs =
  oc_ex_init_def oc_ex_config_def oc_ex_env_def oc_ex_info_def oc_ex_state_def oc_empty_def oc_instantiate_def
  oc_execute_def oc_execute_execute_def oc_voting_call_def oc_validate_def oc_check_member_def toy_voting_def
  std_lib_def response_defs Let_def

lemma oc_ex_run:
  "oc_run std_lib oc_ex_voting (oc_ex_state [None]) [oc_ex_punish]
     [ToValset ''valset'' (Slash ''validator'' 100000000000000000), ToValset ''valset'' (Jail ''validator'' JailForever)]"
proof -
  have "oc_instantiate std_lib oc_ex_voting oc_ex_init (oc_empty []) = Inr (oc_ex_state [], new_response)"
    by (simp add: oc_eval_defs)
  then have start: "oc_run std_lib oc_ex_voting (oc_ex_state []) [] []"
    using oc_run.oc_start by fastforce
  have "\<exists>r. oc_execute std_lib oc_ex_voting oc_ex_env oc_ex_info (OCPropose ''t'' ''d'' oc_ex_punish) (oc_ex_state [])
      = Inr (oc_ex_state [Some oc_ex_punish], r) \<and> r_messages r = []"
    by (simp add: oc_eval_defs)
  then have proposed: "oc_run std_lib oc_ex_voting (oc_ex_state [Some oc_ex_punish]) [oc_ex_punish] []"
    using oc_run.oc_step [OF start] by fastforce
  have "\<exists>r. oc_execute std_lib oc_ex_voting oc_ex_env oc_ex_info (OCExecute 0) (oc_ex_state [Some oc_ex_punish])
      = Inr (oc_ex_state [None], r)
      \<and> r_messages r = [ToValset ''valset'' (Slash ''validator'' 100000000000000000), ToValset ''valset'' (Jail ''validator'' JailForever)]"
    by (simp add: oc_eval_defs)
  then show ?thesis using oc_run.oc_step [OF proposed] by fastforce
qed

section \<open>Properties\<close>

text \<open>
  C10. The contract sends what was proposed, once. In every run the messages sent are those that
  the executed proposals stand for, one proposal after another: engagement points, a slash and
  then the jailing if one is asked for, an unjailing, a configuration update. Each executed
  proposal is one that was accepted, and no accepted proposal is executed twice.
\<close>

theorem oc_sends_what_was_accepted:
  assumes "quiet_law VL" and "pending_law VL C" and "oc_run L VL s ps ms"
  shows "\<exists>cfg xs. os_config s = Some cfg \<and> mset xs + C (os_voting s) \<subseteq># mset ps
     \<and> ms = concat (map (oc_effect cfg) xs)"
  using oc_run_books [OF assms] by (auto simp: oc_books_def)

lemma oc_sends_what_was_accepted_witness:
  "\<exists>xs. mset xs \<subseteq># {#oc_ex_punish#} \<and> concat (map (oc_effect oc_ex_config) xs) =
     [ToValset ''valset'' (Slash ''validator'' 100000000000000000), ToValset ''valset'' (Jail ''validator'' JailForever)]"
  using oc_sends_what_was_accepted [OF toy_quiet toy_pending_law oc_ex_run]
  by (auto simp: oc_ex_state_def toy_pending_def List.map_filter_def)

text \<open>What the receiving contracts may rely on.\<close>

fun oc_msg_ok :: "cw_lib \<Rightarrow> oc_config \<Rightarrow> 'd oc_msg \<Rightarrow> bool" where
  "oc_msg_ok L c (ToEngagement a (AddPoints m n)) \<longleftrightarrow> a = oc_engagement_contract c \<and> (\<exists>x. l_addr_validate L m = Inr x) \<and> n \<noteq> 0"
| "oc_msg_ok L c (ToValset a (Slash m p)) \<longleftrightarrow> a = oc_valset_contract c \<and> (\<exists>x. l_addr_validate L m = Inr x) \<and> 0 < p \<and> p \<le> decimal_one"
| "oc_msg_ok L c (ToValset a (Jail m d)) \<longleftrightarrow> a = oc_valset_contract c \<and> (\<exists>x. l_addr_validate L m = Inr x) \<and> d \<noteq> JailFor 0"
| "oc_msg_ok L c (ToValset a (UnjailMsg m)) \<longleftrightarrow> a = oc_valset_contract c \<and> (\<exists>m' x. m = Some m' \<and> l_addr_validate L m' = Inr x)"
| "oc_msg_ok L c (ToValset a (UpdateValsetConfig u)) \<longleftrightarrow> a = oc_valset_contract c
     \<and> cu_min_points u \<noteq> Some 0 \<and> cu_max_validators u \<noteq> Some 0 \<and> cu_scaling u \<noteq> Some 0
     \<and> (\<forall>r. cu_epoch_reward u = Some r \<longrightarrow> 2 \<le> length (c_denom r) \<and> length (c_denom r) \<le> 127)"

lemma valid_effect: "oc_validate L p = Inr () \<Longrightarrow> m \<in> set (oc_effect c p) \<Longrightarrow> oc_msg_ok L c m"
  by (cases "(c, p)" rule: oc_effect.cases)
     (auto simp: oc_validate_def oc_check_member_def oc_check_def word_neq_0_conv not_le not_less
       split: if_splits option.splits jailing_duration.splits)

text \<open>
  C35. Every message is fit for its receiver. In every run, what the contract has sent goes to the
  configured engagement or validator set contract, names an address that was validated, grants
  at least one point, slashes more than nothing and at most everything, never jails for no
  time, and never sets a minimum, a maximum or a scaling to zero.
\<close>

theorem oc_messages_well_formed:
  assumes "quiet_law VL" and "pending_law VL C" and "oc_run L VL s ps ms" and "m \<in> set ms"
  shows "\<exists>cfg. os_config s = Some cfg \<and> oc_msg_ok L cfg m"
proof -
  obtain cfg xs where cfg: "os_config s = Some cfg" and valid: "\<forall>p \<in> set ps. oc_validate L p = Inr ()"
    and xs: "mset xs + C (os_voting s) \<subseteq># mset ps" "ms = concat (map (oc_effect cfg) xs)"
    using oc_run_books [OF assms(1-3)] by (auto simp: oc_books_def)
  obtain p where "p \<in> set xs" "m \<in> set (oc_effect cfg p)" using assms(4) xs(2) by auto
  moreover from this have "p \<in> set ps"
    using xs(1) by (metis in_multiset_in_set mset_subset_eqD union_iff)
  ultimately show ?thesis using valid cfg valid_effect by blast
qed

lemma oc_messages_well_formed_witness:
  "oc_msg_ok std_lib oc_ex_config (ToValset ''valset'' (Slash ''validator'' 100000000000000000) :: nat oc_msg)"
  using oc_messages_well_formed [OF toy_quiet toy_pending_law oc_ex_run,
      of "ToValset ''valset'' (Slash ''validator'' 100000000000000000)"]
  by (simp add: oc_ex_state_def del: oc_msg_ok.simps)

end
