(* ===== verification/PAY_Contract.thy ===== *)
theory PAY_Contract
  imports Cosmwasm Paging
begin

text \<open>
  Payments (\<open>contracts/tgrade-tc-payments/src\<close>): the contract receives rewards, keeps a share of
  them while its reserves are low and forwards the rest; at the end of a block in the first hour
  of a period it pays what it holds to the oversight community and the arbiter pool.
\<close>

section \<open>What the contract calls\<close>

text \<open>
  The calendar of \<open>chrono\<close>, decimals, the admin controller and the version check are packages; what
  other contracts and the bank answer is a query. The admin controller stores an optional
  address.
\<close>

record pay_lib =
  pl_hour :: "u64 \<Rightarrow> nat"
  pl_day :: "u64 \<Rightarrow> nat"
  pl_month :: "u64 \<Rightarrow> nat"
  pl_from_ratio :: "u128 \<Rightarrow> u128 \<Rightarrow> decimal option"
  pl_admin_set :: "addr option \<Rightarrow> addr option option \<Rightarrow> std_error + addr option option"
  pl_admin_update :: "message_info \<Rightarrow> addr option \<Rightarrow> addr option option \<Rightarrow> string + (addr option option \<times> attr list)"
  pl_admin_assert :: "addr \<Rightarrow> addr option option \<Rightarrow> string + unit"
  pl_admin_query :: "addr option option \<Rightarrow> std_error + addr option"
  pl_ensure_older :: "(string \<times> string) option \<Rightarrow> string \<Rightarrow> string \<Rightarrow> std_error + ((string \<times> string) option \<times> string)"
  pl_version_le :: "string \<Rightarrow> string \<Rightarrow> bool"

record pay_queries =
  pq_is_tg4 :: "addr \<Rightarrow> bool"
  pq_total_points :: "addr \<Rightarrow> std_error + u64"
  pq_balance :: "addr \<Rightarrow> denom \<Rightarrow> std_error + coin"

section \<open>Data\<close>

datatype period = Daily | Monthly | Yearly

fun period_seconds :: "period \<Rightarrow> u64" where
  "period_seconds Daily = 86400"
| "period_seconds Monthly = 86400 * 28"
| "period_seconds Yearly = 86400 * 365"

record pay_config =
  pc_oc_addr :: addr
  pc_ap_addr :: addr
  pc_engagement_addr :: addr
  pc_denom :: denom
  pc_payment_amount :: u128
  pc_payment_period :: period
  pc_funds_ratio :: decimal

definition should_apply :: "cw_lib \<Rightarrow> pay_lib \<Rightarrow> pay_config \<Rightarrow> timestamp \<Rightarrow> bool" where
  "should_apply L PL c t =
     (let dt = l_seconds L t in
      case pc_payment_period c of
        Daily \<Rightarrow> pl_hour PL dt = 0
      | Monthly \<Rightarrow> pl_day PL dt = 1 \<and> pl_hour PL dt = 0
      | Yearly \<Rightarrow> pl_month PL dt = 1 \<and> pl_day PL dt = 1 \<and> pl_hour PL dt = 0)"

definition hour_after_midnight :: "cw_lib \<Rightarrow> pay_lib \<Rightarrow> timestamp \<Rightarrow> bool" where
  "hour_after_midnight L PL t \<longleftrightarrow> pl_hour PL (l_seconds L t) = 0"

record payment =
  py_payment_time :: u64
  py_payment_height :: u64
  py_num_members :: u32
  py_amount :: u128

datatype pay_error =
  PAY_Std std_error
| PAY_NotTg4 string
| PAY_UnknownSudoMsg
| PAY_Unauthorized string
| PAY_Admin string
| PAY_MissingDenom string
| PAY_ExtraDenoms string
| PAY_WrongFundsRatio
| PAY_Panic

definition pay_panic :: "'a option \<Rightarrow> pay_error + 'a" where
  "pay_panic r = of_opt PAY_Panic r"

lemma pay_panic_simps [simp]: "pay_panic r = Inr x \<longleftrightarrow> r = Some x" "pay_panic (Some x) = Inr x"
  by (simp_all add: pay_panic_def)

record pay_state =
  ps_version :: "(string \<times> string) option"
  ps_admin :: "addr option option"
  ps_config :: "pay_config option"
  ps_payments :: "(u64, payment) store"

definition pay_empty :: pay_state where
  "pay_empty = \<lparr>ps_version = None, ps_admin = None, ps_config = None, ps_payments = []\<rparr>"

definition pay_config_of :: "pay_state \<Rightarrow> pay_error + pay_config" where
  "pay_config_of s = of_opt (PAY_Std NotFound) (ps_config s)"

lemma pay_config_of_Inr [simp]: "pay_config_of s = Inr c \<longleftrightarrow> ps_config s = Some c"
  by (simp add: pay_config_of_def)

record pay_instantiate_msg =
  pi_admin :: "string option"
  pi_oc_addr :: string
  pi_ap_addr :: string
  pi_engagement_addr :: string
  pi_denom :: denom
  pi_payment_amount :: u128
  pi_payment_period :: period
  pi_funds_ratio :: decimal

datatype pay_execute_msg =
  PayUpdateAdmin "string option"
| PayUpdateConfig "u128 option"
| DistributeRewards "string option"

datatype pay_msg =
  PayExecute addr pay_execute_msg "coin list"
| PayRequestEndBlocker

type_synonym pay_result = "pay_error + (pay_state \<times> pay_msg response)"

section \<open>Recorded payments\<close>

definition create_payment ::
  "cw_lib \<Rightarrow> u32 \<Rightarrow> u128 \<Rightarrow> block_info \<Rightarrow> pay_state \<Rightarrow> std_error + pay_state" where
  "create_payment L num_members amount block s =
     (let payment_time = l_seconds L (b_time block);
          payment_height = b_height block
      in case sget (ps_payments s) payment_time of
           Some _ \<Rightarrow> Inl (GenericErr (''Payment already exists: '' @ show_u64 payment_time))
         | None \<Rightarrow> Inr (s\<lparr>ps_payments := sput payment_time
             \<lparr>py_payment_time = payment_time, py_payment_height = payment_height,
              py_num_members = num_members, py_amount = amount\<rparr> (ps_payments s)\<rparr>))"

definition last_payment :: "pay_state \<Rightarrow> u64 option" where
  "last_payment s = (if ps_payments s = [] then None else Some (fst (last (ps_payments s))))"

definition pay_page_limit :: "u32 option \<Rightarrow> nat" where
  "pay_page_limit limit = unat (min (case limit of None \<Rightarrow> 30 | Some l \<Rightarrow> l) 100)"

definition query_payments :: "u32 option \<Rightarrow> u64 option \<Rightarrow> pay_state \<Rightarrow> std_error + payment list" where
  "query_payments limit start_after s =
     Inr (take (pay_page_limit limit) (map snd (safter start_after (ps_payments s))))"

definition list_payments :: "u64 option \<Rightarrow> u32 option \<Rightarrow> pay_state \<Rightarrow> std_error + payment list" where
  "list_payments start_after limit s =
     Inr (map snd (page_of (pay_page_limit limit) start_after (ps_payments s)))"

section \<open>Instantiation\<close>

definition validate_opt :: "cw_lib \<Rightarrow> string option \<Rightarrow> pay_error + addr option" where
  "validate_opt L a =
     (case a of None \<Rightarrow> Inr None
      | Some a \<Rightarrow> bindE (map_err PAY_Std (l_addr_validate L a)) (\<lambda>a. Inr (Some a)))"

definition verify_tg4_input :: "cw_lib \<Rightarrow> pay_queries \<Rightarrow> string \<Rightarrow> pay_error + addr" where
  "verify_tg4_input L Q a =
     bindE (map_err PAY_Std (l_addr_validate L a)) (\<lambda>contract.
     if \<not> pq_is_tg4 Q contract then Inl (PAY_NotTg4 a) else Inr contract)"

definition pay_instantiate ::
  "cw_lib \<Rightarrow> pay_lib \<Rightarrow> pay_queries \<Rightarrow> pay_instantiate_msg \<Rightarrow> pay_state \<Rightarrow> pay_result" where
  "pay_instantiate L PL Q msg s =
     (let s = s\<lparr>ps_version := Some (''crates.io:tgrade-tc-payments'', ''0.15.0'')\<rparr> in
      bindE (validate_opt L (pi_admin msg)) (\<lambda>admin_addr.
      bindE (map_err PAY_Std (pl_admin_set PL admin_addr (ps_admin s))) (\<lambda>admin.
      let s = s\<lparr>ps_admin := admin\<rparr> in
      bindE (verify_tg4_input L Q (pi_oc_addr msg)) (\<lambda>oc_addr.
      bindE (verify_tg4_input L Q (pi_ap_addr msg)) (\<lambda>ap_addr.
      bindE (map_err PAY_Std (l_addr_validate L (pi_engagement_addr msg))) (\<lambda>engagement_addr.
      if percent 100 < pi_funds_ratio msg then Inl PAY_WrongFundsRatio
      else
        let s = s\<lparr>ps_config := Some \<lparr>pc_oc_addr = oc_addr, pc_ap_addr = ap_addr,
              pc_engagement_addr = engagement_addr, pc_denom = pi_denom msg,
              pc_payment_amount = pi_payment_amount msg, pc_payment_period = pi_payment_period msg,
              pc_funds_ratio = pi_funds_ratio msg\<rparr>\<rparr>
        in Inr (s, add_event \<lparr>ev_type = ''contract_data'',
             ev_attrs = [(''contract_kind'', AStr ''crates.io:tgrade-tc-payments'')]\<rparr> new_response)))))))"

section \<open>Rewards\<close>

fun validate_funds :: "coin list \<Rightarrow> denom \<Rightarrow> pay_error + u128" where
  "validate_funds [] distribute_denom = Inr 0"
| "validate_funds [c] distribute_denom =
     (if c_denom c = distribute_denom then Inr (c_amount c) else Inl (PAY_MissingDenom distribute_denom))"
| "validate_funds _ distribute_denom = Inl (PAY_ExtraDenoms distribute_denom)"

text \<open>\<open>Uint128\<close> and \<open>Decimal\<close> arithmetic aborts when the result does not fit.\<close>

definition funds_to_distribute ::
  "cw_lib \<Rightarrow> pay_config \<Rightarrow> u64 \<Rightarrow> u64 \<Rightarrow> u128 \<Rightarrow> u128 \<Rightarrow> pay_error + u128" where
  "funds_to_distribute L config oc_members ap_members current_funds funds_received =
     bindE (pay_panic (fit_mul (ucast oc_members + ucast ap_members) (pc_payment_amount config))) (\<lambda>required.
     bindE (pay_panic (fit_add required funds_received)) (\<lambda>enough.
     if enough \<le> current_funds then Inr funds_received
     else
       bindE (pay_panic (fit_sub (percent 100) (pc_funds_ratio config))) (\<lambda>share.
       pay_panic (l_mul_decimal L funds_received share))))"

definition pay_distribute_rewards ::
  "cw_lib \<Rightarrow> pay_queries \<Rightarrow> env \<Rightarrow> message_info \<Rightarrow> string option \<Rightarrow> pay_state \<Rightarrow> pay_result" where
  "pay_distribute_rewards L Q env info sender s =
     bindE (validate_opt L sender) (\<lambda>sender.
     let sender = (case sender of None \<Rightarrow> i_sender info | Some a \<Rightarrow> a) in
     bindE (pay_config_of s) (\<lambda>config.
     let denom = pc_denom config in
     bindE (validate_funds (i_funds info) denom) (\<lambda>funds_received.
     if funds_received = 0 then Inr (s, new_response)
     else
       bindE (map_err PAY_Std (pq_total_points Q (pc_oc_addr config))) (\<lambda>oc_members.
       bindE (map_err PAY_Std (pq_total_points Q (pc_ap_addr config))) (\<lambda>ap_members.
       bindE (map_err PAY_Std (pq_balance Q (e_contract env) denom)) (\<lambda>balance.
       bindE (funds_to_distribute L config oc_members ap_members (c_amount balance) funds_received) (\<lambda>amount.
       let distribute_msg = PayExecute (pc_engagement_addr config) (DistributeRewards (Some sender))
             [\<lparr>c_denom = denom, c_amount = amount\<rparr>]
       in Inr (s, add_message distribute_msg
            (add_attr ''amount'' (AU128 amount) (add_attr ''denom'' (AStr denom)
            (add_attr ''sender'' (AStr sender) (add_attr ''action'' (AStr ''distribute_rewards'') new_response)))))))))))) "

section \<open>Administration\<close>

definition pay_update_config :: "pay_lib \<Rightarrow> message_info \<Rightarrow> u128 option \<Rightarrow> pay_state \<Rightarrow> pay_result" where
  "pay_update_config PL info payment_amount s =
     bindE (map_err PAY_Admin (pl_admin_assert PL (i_sender info) (ps_admin s))) (\<lambda>_.
     bindE (pay_config_of s) (\<lambda>cfg.
     let cfg = (case payment_amount of None \<Rightarrow> cfg | Some a \<Rightarrow> cfg\<lparr>pc_payment_amount := a\<rparr>) in
     Inr (s\<lparr>ps_config := Some cfg\<rparr>, add_attr ''operator'' (AStr (i_sender info))
       (add_attr ''action'' (AStr ''update_config'') new_response))))"

definition pay_execute ::
  "cw_lib \<Rightarrow> pay_lib \<Rightarrow> pay_queries \<Rightarrow> env \<Rightarrow> message_info \<Rightarrow> pay_execute_msg \<Rightarrow> pay_state \<Rightarrow> pay_result" where
  "pay_execute L PL Q env info msg s =
     (case msg of
        PayUpdateAdmin admin \<Rightarrow>
          bindE (validate_opt L admin) (\<lambda>admin.
          bindE (map_err PAY_Admin (pl_admin_update PL info admin (ps_admin s))) (\<lambda>(d, attrs).
          Inr (s\<lparr>ps_admin := d\<rparr>, add_attrs attrs new_response)))
      | PayUpdateConfig payment_amount \<Rightarrow> pay_update_config PL info payment_amount s
      | DistributeRewards sender \<Rightarrow> pay_distribute_rewards L Q env info sender s)"

section \<open>The end of a block\<close>

definition privilege_promote :: "pay_state \<Rightarrow> pay_result" where
  "privilege_promote s = Inr (s, add_message PayRequestEndBlocker new_response)"

text \<open>The part of the funds that one group of the members gets.\<close>

definition group_amount :: "cw_lib \<Rightarrow> pay_lib \<Rightarrow> u128 \<Rightarrow> u128 \<Rightarrow> u128 \<Rightarrow> pay_error + u128" where
  "group_amount L PL total_funds members sum_of_members =
     (if sum_of_members = 0 then Inr 0
      else
        bindE (pay_panic (pl_from_ratio PL members sum_of_members)) (\<lambda>share.
        pay_panic (l_mul_decimal L total_funds share)))"

definition reward_msgs :: "addr \<Rightarrow> u128 \<Rightarrow> denom \<Rightarrow> pay_msg list" where
  "reward_msgs a amount denom =
     (if amount \<noteq> 0 then [PayExecute a (DistributeRewards None) [\<lparr>c_denom = denom, c_amount = amount\<rparr>]] else [])"

definition end_block :: "cw_lib \<Rightarrow> pay_lib \<Rightarrow> pay_queries \<Rightarrow> env \<Rightarrow> pay_state \<Rightarrow> pay_result" where
  "end_block L PL Q env s =
     (if \<not> hour_after_midnight L PL (b_time (e_block env)) then Inr (s, new_response)
      else
        bindE (pay_config_of s) (\<lambda>config.
        if \<not> should_apply L PL config (b_time (e_block env)) then Inr (s, new_response)
        else
          let period = period_seconds (pc_payment_period config) in
          if (case last_payment s of None \<Rightarrow> False
              | Some lp \<Rightarrow> l_seconds L (b_time (e_block env)) < lp + period - 3600) then Inr (s, new_response)
          else
            bindE (map_err PAY_Std (pq_balance Q (e_contract env) (pc_denom config))) (\<lambda>balance.
            let total_funds = c_amount balance in
            bindE (map_err PAY_Std (pq_total_points Q (pc_oc_addr config))) (\<lambda>oc_members.
            bindE (map_err PAY_Std (pq_total_points Q (pc_ap_addr config))) (\<lambda>ap_members.
            let oc = ucast oc_members :: u128; ap = ucast ap_members; sum_of_members = ap + oc in
            if total_funds = 0 then
              bindE (map_err PAY_Std (create_payment L 0 0 (e_block env) s)) (\<lambda>s. Inr (s, new_response))
            else
              bindE (group_amount L PL total_funds oc sum_of_members) (\<lambda>oc_amount.
              bindE (group_amount L PL total_funds ap sum_of_members) (\<lambda>ap_amount.
              let msgs = reward_msgs (pc_oc_addr config) oc_amount (pc_denom config)
                    @ reward_msgs (pc_ap_addr config) ap_amount (pc_denom config);
                  evt = \<lparr>ev_type = ''tc_payments'', ev_attrs =
                    [(''time'', ATime (b_time (e_block env))), (''height'', AU64 (b_height (e_block env))),
                     (''num_oc_members'', AU128 oc), (''num_ap_members'', AU128 ap),
                     (''member_pay'', AU128 (pc_payment_amount config)), (''denom'', AStr (pc_denom config))]\<rparr>
              in Inr (s, add_event evt (new_response\<lparr>r_messages := msgs\<rparr>)))))))))"

datatype pay_sudo_msg = SudoPromoted | SudoDemoted | SudoEndBlock | SudoOther

definition pay_sudo :: "cw_lib \<Rightarrow> pay_lib \<Rightarrow> pay_queries \<Rightarrow> env \<Rightarrow> pay_sudo_msg \<Rightarrow> pay_state \<Rightarrow> pay_result" where
  "pay_sudo L PL Q env msg s =
     (case msg of
        SudoPromoted \<Rightarrow> privilege_promote s
      | SudoEndBlock \<Rightarrow> end_block L PL Q env s
      | _ \<Rightarrow> Inl PAY_UnknownSudoMsg)"

section \<open>Migration and queries\<close>

definition pay_migrate_config ::
  "pay_lib \<Rightarrow> string \<Rightarrow> u128 option \<Rightarrow> decimal option \<Rightarrow> pay_state \<Rightarrow> pay_error + pay_state" where
  "pay_migrate_config PL version payment_amount funds_ratio s =
     bindE (pay_config_of s) (\<lambda>config.
     let config = (case payment_amount of None \<Rightarrow> config | Some a \<Rightarrow> config\<lparr>pc_payment_amount := a\<rparr>) in
     bindE (case funds_ratio of
         Some r \<Rightarrow> if percent 100 < r then Inl PAY_WrongFundsRatio else Inr (config\<lparr>pc_funds_ratio := r\<rparr>)
       | None \<Rightarrow> Inr (if pl_version_le PL version ''0.16.0'' then config\<lparr>pc_funds_ratio := percent 1\<rparr> else config)) (\<lambda>config.
     Inr (s\<lparr>ps_config := Some config\<rparr>)))"

definition pay_migrate :: "pay_lib \<Rightarrow> u128 option \<Rightarrow> decimal option \<Rightarrow> pay_state \<Rightarrow> pay_result" where
  "pay_migrate PL payment_amount funds_ratio s =
     bindE (map_err PAY_Std (pl_ensure_older PL (ps_version s) ''crates.io:tgrade-tc-payments'' ''0.15.0'')) (\<lambda>(stored, version).
     bindE (pay_migrate_config PL version payment_amount funds_ratio (s\<lparr>ps_version := stored\<rparr>)) (\<lambda>s.
     Inr (s, new_response)))"

datatype pay_query_msg = PQ_Configuration | PQ_ListPayments "u64 option" "u32 option" | PQ_Admin
datatype pay_answer = PA_Configuration pay_config | PA_Payments "payment list" | PA_Admin "addr option"

definition pay_query :: "pay_lib \<Rightarrow> pay_query_msg \<Rightarrow> pay_state \<Rightarrow> std_error + pay_answer" where
  "pay_query PL msg s =
     (case msg of
        PQ_Configuration \<Rightarrow> bindE (of_opt NotFound (ps_config s)) (\<lambda>c. Inr (PA_Configuration c))
      | PQ_ListPayments start limit \<Rightarrow> bindE (list_payments start limit s) (\<lambda>ps. Inr (PA_Payments ps))
      | PQ_Admin \<Rightarrow> bindE (pl_admin_query PL (ps_admin s)) (\<lambda>a. Inr (PA_Admin a)))"

end
