(* ===== verification/PAY_Correct.thy ===== *)
theory PAY_Correct
  imports PAY_Contract Voting_Math
begin

text \<open>
  The payments contract over its whole life: what it records, and what it sends of what it holds.
\<close>

section \<open>What the packages document\<close>

text \<open>A decimal from a ratio is rounded down; a zero denominator or a result that does not fit aborts.\<close>

definition ratio_law :: "pay_lib \<Rightarrow> bool" where
  "ratio_law PL \<longleftrightarrow> (\<forall>n d. pl_from_ratio PL n d =
     (if d = 0 \<or> 2 ^ 128 \<le> unat n * 10 ^ 18 div unat d then None else Some (of_nat (unat n * 10 ^ 18 div unat d))))"

section \<open>Runs\<close>

inductive pay_run :: "cw_lib \<Rightarrow> pay_lib \<Rightarrow> pay_state \<Rightarrow> bool" for L PL where
  pay_start: "pay_instantiate L PL Q msg pay_empty = Inr (s, r) \<Longrightarrow> pay_run L PL s"
| pay_call: "pay_run L PL s \<Longrightarrow> pay_execute L PL Q env info emsg s = Inr (s', r) \<Longrightarrow> pay_run L PL s'"
| pay_block: "pay_run L PL s \<Longrightarrow> pay_sudo L PL Q env smsg s = Inr (s', r) \<Longrightarrow> pay_run L PL s'"
| pay_upgrade: "pay_run L PL s \<Longrightarrow> pay_migrate PL a f s = Inr (s', r) \<Longrightarrow> pay_run L PL s'"

section \<open>The records\<close>

text \<open>Two payment times lie a period apart, less the hour that the code allows for drift.\<close>

abbreviation apart :: "period \<Rightarrow> u64 \<Rightarrow> u64 \<Rightarrow> bool" where
  "apart p t t' \<equiv> unat t + unat (period_seconds p) \<le> unat t' + 3600"

definition pay_inv :: "cw_lib \<Rightarrow> pay_lib \<Rightarrow> pay_state \<Rightarrow> bool" where
  "pay_inv L PL s \<longleftrightarrow> sorted_store (ps_payments s)
     \<and> (\<exists>c. ps_config s = Some c \<and> pc_funds_ratio c \<le> decimal_one
       \<and> sorted_wrt (apart (pc_payment_period c)) (map fst (ps_payments s))
       \<and> (\<forall>(k, p) \<in> set (ps_payments s). py_payment_time p = k \<and> py_num_members p = 0 \<and> py_amount p = 0
            \<and> (\<exists>t. k = l_seconds L t \<and> should_apply L PL c t)))"

lemma period_bounds: "3600 < unat (period_seconds p)" "unat (period_seconds p) < 2 ^ 25"
  by (cases p; simp)+

lemma sput_last: "\<forall>e \<in> set m. fst e < k \<Longrightarrow> sput k v m = m @ [(k, v)]"
  by (induction m) auto

lemma seconds_small: "clock_law L \<Longrightarrow> unat (l_seconds L t) < 2 ^ 35"
proof -
  assume "clock_law L"
  then have "unat (l_seconds L t) = unat t div 10 ^ 9" by (simp add: clock_law_def unat_div)
  moreover have "unat t div 10 ^ 9 < 2 ^ 35" using unat_u64 [of t] by (simp add: less_mult_imp_div_less)
  ultimately show ?thesis by simp
qed

text \<open>A block that is not too early for the last payment is a period away from all of them.\<close>

lemma not_paid_yet:
  assumes "clock_law L" and "pay_inv L PL s" and "ps_config s = Some c"
    and "\<not> (case last_payment s of None \<Rightarrow> False
              | Some lp \<Rightarrow> l_seconds L t < lp + period_seconds (pc_payment_period c) - 3600)"
    and "k \<in> fst ` set (ps_payments s)"
  shows "apart (pc_payment_period c) k (l_seconds L t)" and "k < l_seconds L t"
proof -
  let ?ps = "ps_payments s" and ?P = "period_seconds (pc_payment_period c)"
  obtain m lp p where ps: "?ps = m @ [(lp, p)]" using assms(5) by (cases ?ps rule: rev_cases) auto
  have inv: "sorted_store ?ps" "sorted_wrt (apart (pc_payment_period c)) (map fst ?ps)"
    "\<exists>t. lp = l_seconds L t"
    using assms(2,3) ps by (auto simp: pay_inv_def)
  have lp: "unat lp < 2 ^ 35" using inv(3) seconds_small [OF assms(1)] by auto
  have "\<not> l_seconds L t < lp + ?P - 3600" using assms(4) ps by (simp add: last_payment_def)
  moreover have "unat (lp + ?P - 3600) = unat lp + unat ?P - 3600"
    using lp period_bounds [of "pc_payment_period c"] by (simp add: unat_sub word_le_nat_alt unat_word_ariths)
  ultimately have last: "unat lp + unat ?P \<le> unat (l_seconds L t) + 3600"
    using period_bounds(1) [of "pc_payment_period c"] by (simp add: word_less_nat_alt not_less)
  have "unat k \<le> unat lp"
  proof (cases "k = lp")
    case False
    then have "k \<in> fst ` set m" using assms(5) ps by auto
    then have "k < lp" using inv(1) ps by (auto simp: sorted_store_def sorted_wrt_append)
    then show ?thesis by (simp add: word_less_nat_alt)
  qed simp
  with last show "apart (pc_payment_period c) k (l_seconds L t)" by linarith
  with period_bounds(1) [of "pc_payment_period c"] show "k < l_seconds L t" by (simp add: word_less_nat_alt)
qed

lemma end_block_shape:
  assumes "end_block L PL Q env s = Inr (s', r)"
  obtains (idle) "s' = s" "r_messages r = []"
    | (empty) c where "ps_config s = Some c" "should_apply L PL c (b_time (e_block env))"
      "\<not> (case last_payment s of None \<Rightarrow> False
           | Some lp \<Rightarrow> l_seconds L (b_time (e_block env)) < lp + period_seconds (pc_payment_period c) - 3600)"
      "create_payment L 0 0 (e_block env) s = Inr s'" "r_messages r = []"
      "\<exists>b. pq_balance Q (e_contract env) (pc_denom c) = Inr b \<and> c_amount b = 0"
    | (pays) c b oc ap x y where "ps_config s = Some c" "pq_balance Q (e_contract env) (pc_denom c) = Inr b"
      "pq_total_points Q (pc_oc_addr c) = Inr oc" "pq_total_points Q (pc_ap_addr c) = Inr ap" "s' = s"
      "group_amount L PL (c_amount b) (ucast oc) (ucast ap + ucast oc) = Inr x"
      "group_amount L PL (c_amount b) (ucast ap) (ucast ap + ucast oc) = Inr y"
      "r_messages r = reward_msgs (pc_oc_addr c) x (pc_denom c) @ reward_msgs (pc_ap_addr c) y (pc_denom c)"
proof -
  let ?t = "b_time (e_block env)"
  show thesis
  proof (cases "hour_after_midnight L PL ?t")
    case False
    then show thesis using assms by (intro idle) (auto simp: end_block_def)
  next
    case hour: True
    then obtain c where c: "ps_config s = Some c" using assms by (auto simp: end_block_def)
    show thesis
    proof (cases "should_apply L PL c ?t \<and> \<not> (case last_payment s of None \<Rightarrow> False
           | Some lp \<Rightarrow> l_seconds L ?t < lp + period_seconds (pc_payment_period c) - 3600)")
      case False
      then show thesis using assms hour c by (intro idle) (auto simp: end_block_def Let_def split: if_splits)
    next
      case True
      then obtain b oc ap where q: "pq_balance Q (e_contract env) (pc_denom c) = Inr b"
        "pq_total_points Q (pc_oc_addr c) = Inr oc" "pq_total_points Q (pc_ap_addr c) = Inr ap"
        using assms hour c by (auto simp: end_block_def Let_def split: if_splits)
      show thesis
      proof (cases "c_amount b = 0")
        case zero: True
        then show thesis using assms hour True c q by (intro empty [OF c]) (auto simp: end_block_def Let_def)
      next
        case False
        with assms hour True c q show thesis
          by (auto simp: end_block_def Let_def elim!: pays [OF c])
      qed
    qed
  qed
qed

lemma create_payment_shape:
  assumes "create_payment L n a b s = Inr s'"
  shows "sget (ps_payments s) (l_seconds L (b_time b)) = None \<and> s' = s\<lparr>ps_payments := sput (l_seconds L (b_time b))
     \<lparr>py_payment_time = l_seconds L (b_time b), py_payment_height = b_height b, py_num_members = n, py_amount = a\<rparr>
     (ps_payments s)\<rparr>"
  using assms by (auto simp: create_payment_def Let_def split: option.splits)

lemma end_block_inv:
  assumes "clock_law L" and "pay_inv L PL s" and "end_block L PL Q env s = Inr (s', r)"
  shows "pay_inv L PL s'"
  using assms(3)
proof (cases rule: end_block_shape)
  case idle
  with assms(2) show ?thesis by simp
next
  case (pays c b oc ap x y)
  with assms(2) show ?thesis by simp
next
  case (empty c)
  let ?t = "b_time (e_block env)" and ?ps = "ps_payments s"
  let ?p = "\<lparr>py_payment_time = l_seconds L ?t, py_payment_height = b_height (e_block env), py_num_members = 0, py_amount = 0\<rparr>"
  note later = not_paid_yet [OF assms(1,2) empty(1,3)]
  have "sput (l_seconds L ?t) ?p ?ps = ?ps @ [(l_seconds L ?t, ?p)]" using later(2) by (intro sput_last) auto
  then have s': "s' = s\<lparr>ps_payments := ?ps @ [(l_seconds L ?t, ?p)]\<rparr>"
    using create_payment_shape [OF empty(4)] by simp
  have "sorted_store (ps_payments s')"
    using assms(2) later(2) by (auto simp: s' pay_inv_def sorted_store_def sorted_wrt_append)
  moreover have "sorted_wrt (apart (pc_payment_period c)) (map fst (ps_payments s'))"
    using assms(2) empty(1) later(1) by (auto simp: s' pay_inv_def sorted_wrt_append)
  ultimately show ?thesis
    using assms(2) empty(1,2) by (auto simp: s' pay_inv_def)
qed

lemma pay_other_inv:
  "pay_instantiate L PL Q msg pay_empty = Inr (s', r) \<Longrightarrow> pay_inv L PL s'"
  "pay_inv L PL s \<Longrightarrow> pay_execute L PL Q env info emsg s = Inr (s', r) \<Longrightarrow> pay_inv L PL s'"
  "pay_inv L PL s \<Longrightarrow> pay_migrate PL a f s = Inr (s', r) \<Longrightarrow> pay_inv L PL s'"
proof -
  assume "pay_instantiate L PL Q msg pay_empty = Inr (s', r)"
  then show "pay_inv L PL s'"
    by (auto simp: pay_instantiate_def pay_inv_def pay_empty_def percent_def Let_def split: if_splits)
next
  assume inv: "pay_inv L PL s" and call: "pay_execute L PL Q env info emsg s = Inr (s', r)"
  show "pay_inv L PL s'"
  proof (cases emsg)
    case (PayUpdateAdmin a)
    with inv call show ?thesis by (auto simp: pay_execute_def pay_inv_def)
  next
    case (PayUpdateConfig a)
    with inv call show ?thesis
      by (cases a) (auto simp: pay_execute_def pay_update_config_def pay_inv_def Let_def should_apply_def)
  next
    case (DistributeRewards a)
    with inv call show ?thesis
      by (auto simp: pay_execute_def pay_distribute_rewards_def Let_def split: if_splits)
  qed
next
  assume inv: "pay_inv L PL s" and mig: "pay_migrate PL a f s = Inr (s', r)"
  then obtain c c' where c: "ps_config s = Some c" and s': "ps_config s' = Some c'" "ps_payments s' = ps_payments s"
    and c': "pc_payment_period c' = pc_payment_period c" "pc_funds_ratio c \<le> decimal_one \<longrightarrow> pc_funds_ratio c' \<le> decimal_one"
    by (cases a; cases f)
       (auto simp: pay_migrate_def pay_migrate_config_def Let_def percent_def not_less split: if_splits)
  have "should_apply L PL c' t = should_apply L PL c t" for t using c'(1) by (simp add: should_apply_def)
  with inv c c' s' show "pay_inv L PL s'" by (auto simp: pay_inv_def)
qed

lemma pay_run_inv:
  assumes "clock_law L" and "pay_run L PL s"
  shows "pay_inv L PL s"
  using assms(2)
proof (induction rule: pay_run.induct)
  case (pay_block s Q env smsg s' r)
  then show ?case
    by (cases smsg) (auto simp: pay_sudo_def privilege_promote_def intro: end_block_inv [OF assms(1)])
qed (blast intro: pay_other_inv)+

section \<open>What a block pays\<close>

definition pay_sent :: "pay_msg list \<Rightarrow> nat" where
  "pay_sent ms = sum_list (map (\<lambda>m. case m of PayExecute _ _ cs \<Rightarrow> coins_amount cs | _ \<Rightarrow> 0) ms)"

lemma pay_sent_simps [simp]:
  "pay_sent [] = 0" "pay_sent (PayExecute a m cs # ms) = coins_amount cs + pay_sent ms"
  "pay_sent (ms @ ns) = pay_sent ms + pay_sent ns"
  by (simp_all add: pay_sent_def)

lemma pay_sent_reward [simp]: "pay_sent (reward_msgs a x d) = unat x"
  by (simp add: reward_msgs_def)

lemma div_add_le: "0 < c \<Longrightarrow> (a + b) div c \<le> a div c + b div c + (1 :: nat)"
proof -
  assume c: "0 < c"
  then have "a mod c + b mod c < 2 * c" using mod_less_divisor [of c a] mod_less_divisor [of c b] by linarith
  then have "(a mod c + b mod c) div c < 2" by (simp add: less_mult_imp_div_less)
  then show ?thesis by (simp add: div_add1_eq [of a b c])
qed

lemma share_bounds:
  fixes T n d B :: nat
  assumes "0 < d" and "0 < B"
  shows "T * (n * B div d) div B \<le> T * n div d"
    and "T * n div d \<le> T * (n * B div d) div B + T div B + 1"
proof -
  let ?q = "n * B div d"
  have cancel: "x * d div B div d = x div B" "x * B div B div d = x div d" for x
    using assms by (simp_all add: div_mult2_eq [symmetric])
  have "T * (?q * d) \<le> T * (n * B)" by (intro mult_le_mono2) simp
  then have "T * ?q * d div B div d \<le> T * n * B div B div d" by (intro div_le_mono) (simp add: mult.assoc)
  then show "T * ?q div B \<le> T * n div d" by (simp only: cancel)
  have "n * B < (?q + 1) * d" using assms(1) by (simp add: dividend_less_div_times)
  then have "T * (n * B) \<le> T * ((?q + 1) * d)" by (intro mult_le_mono2) simp
  then have "T * n * B div B div d \<le> T * (?q + 1) * d div B div d"
    by (intro div_le_mono) (simp only: mult.assoc)
  then have "T * n div d \<le> (T * ?q + T) div B" by (simp only: cancel distrib_left mult_1_right)
  also have "\<dots> \<le> T * ?q div B + T div B + 1" using assms(2) by (rule div_add_le)
  finally show "T * n div d \<le> T * ?q div B + T div B + 1" .
qed

text \<open>The share of a group, rounded down twice: to a decimal, and to coins.\<close>

lemma group_amount_value:
  assumes "decimal_law L" and "ratio_law PL" and "n \<le> d" and "d \<noteq> 0"
  shows "\<exists>x. group_amount L PL T n d = Inr x \<and> unat x = unat T * (unat n * 10 ^ 18 div unat d) div 10 ^ 18
     \<and> unat T * (unat n * 10 ^ 18 div unat d) div 10 ^ 18 \<le> unat T * unat n div unat d
     \<and> unat T * unat n div unat d \<le> unat T * (unat n * 10 ^ 18 div unat d) div 10 ^ 18 + unat T div 10 ^ 18 + 1"
proof -
  let ?q = "unat n * 10 ^ 18 div unat d" and ?T = "unat T"
  have d: "0 < unat d" using assms(4) by (simp add: unat_gt_0)
  have nd: "unat n \<le> unat d" using assms(3) by (simp add: word_le_nat_alt)
  have "?q \<le> unat d * 10 ^ 18 div unat d" using nd by (intro div_le_mono mult_le_mono1)
  then have q: "?q \<le> 10 ^ 18" using d by simp
  then have share: "pl_from_ratio PL n d = Some (of_nat ?q)" "unat (of_nat ?q :: u128) = ?q"
    using assms(2,4) by (simp_all add: ratio_law_def unat_of_nat)
  have "?T * ?q div 10 ^ 18 \<le> ?T * 10 ^ 18 div 10 ^ 18" using q by (intro div_le_mono mult_le_mono2)
  then have fits: "?T * ?q div 10 ^ 18 < 2 ^ 128" using unat_u128 [of T] by simp
  obtain x where x: "l_mul_decimal L T (of_nat ?q) = Some x" "unat x = ?T * ?q div 10 ^ 18"
    using mul_decimal_total [OF assms(1), of T "of_nat ?q"] fits share(2) by auto
  have "0 < (10 ^ 18 :: nat)" by simp
  note share_bounds [OF d this, of ?T "unat n"]
  then show ?thesis using assms(4) share(1) x by (auto simp: group_amount_def)
qed

lemma create_payment_works:
  assumes "clock_law L" and "pay_inv L PL s" and "ps_config s = Some c"
    and "\<not> (case last_payment s of None \<Rightarrow> False
              | Some lp \<Rightarrow> l_seconds L (b_time b) < lp + period_seconds (pc_payment_period c) - 3600)"
  shows "\<exists>s'. create_payment L n a b s = Inr s'"
proof -
  have "l_seconds L (b_time b) \<notin> fst ` set (ps_payments s)"
    using not_paid_yet(2) [OF assms] by auto
  then have "sget (ps_payments s) (l_seconds L (b_time b)) = None" by (simp add: sget_def map_of_eq_None_iff)
  then show ?thesis by (simp add: create_payment_def Let_def)
qed

text \<open>Both groups together get at most the funds, and all but a little of them.\<close>

lemma groups_share:
  assumes "decimal_law L" and "ratio_law PL"
  shows "\<exists>x y. group_amount L PL T (ucast (oc :: u64)) (ucast (ap :: u64) + ucast oc) = Inr x
     \<and> group_amount L PL T (ucast ap) (ucast ap + ucast oc) = Inr y
     \<and> unat x + unat y \<le> unat T
     \<and> (oc \<noteq> 0 \<or> ap \<noteq> 0 \<longrightarrow> unat T \<le> unat x + unat y + 2 * (unat T div 10 ^ 18) + 3)"
proof -
  let ?n = "ucast oc :: u128" and ?m = "ucast ap :: u128"
  have n: "unat ?n = unat oc" "unat ?m = unat ap" by (simp_all add: unat_ucast_up)
  have d: "unat (?m + ?n) = unat ap + unat oc"
    using n unat_u64 [of oc] unat_u64 [of ap] by (simp add: unat_word_ariths)
  show ?thesis
  proof (cases "?m + ?n = 0")
    case True
    then have "oc = 0 \<and> ap = 0" using d by (auto simp: word_unat_eq_iff)
    with True show ?thesis by (simp add: group_amount_def)
  next
    case False
    have le: "?n \<le> ?m + ?n" "?m \<le> ?m + ?n" using n d by (simp_all add: word_le_nat_alt)
    let ?T = "unat T" and ?d = "unat ap + unat oc"
    have pos: "0 < ?d" using False d by (metis gr0I unat_eq_zero)
    obtain x where x: "group_amount L PL T ?n (?m + ?n) = Inr x" "unat x \<le> ?T * unat oc div ?d"
      "?T * unat oc div ?d \<le> unat x + ?T div 10 ^ 18 + 1"
      using group_amount_value [OF assms le(1) False, of T] by (auto simp: n d)
    obtain y where y: "group_amount L PL T ?m (?m + ?n) = Inr y" "unat y \<le> ?T * unat ap div ?d"
      "?T * unat ap div ?d \<le> unat y + ?T div 10 ^ 18 + 1"
      using group_amount_value [OF assms le(2) False, of T] by (auto simp: n d)
    have split: "(?T * unat oc + ?T * unat ap) div ?d = ?T"
      using pos by (simp only: distrib_left [symmetric] add.commute [of "unat oc"]) simp
    have "?T * unat oc div ?d + ?T * unat ap div ?d \<le> (?T * unat oc + ?T * unat ap) div ?d"
      by (simp add: div_add1_eq [of "?T * unat oc"])
    then have upper: "?T * unat oc div ?d + ?T * unat ap div ?d \<le> ?T" by (simp only: split)
    have "(?T * unat oc + ?T * unat ap) div ?d \<le> ?T * unat oc div ?d + ?T * unat ap div ?d + 1"
      by (rule div_add_le [OF pos])
    then have lower: "?T \<le> ?T * unat oc div ?d + ?T * unat ap div ?d + 1" by (simp only: split)
    show ?thesis using x(1) y(1) upper lower x(2,3) y(2,3)
      by (intro exI [of _ x] exI [of _ y] conjI impI) linarith+
  qed
qed

section \<open>How rewards are split\<close>

text \<open>What is forwarded and what is kept, rounded down and up, make the whole.\<close>

lemma quota_rest:
  assumes "d \<le> 10 ^ 18"
  shows "p * (10 ^ 18 - d) div 10 ^ 18 + exact_quota p d = p"
proof -
  have pd: "p * (10 ^ 18 - d) + p * d = p * 10 ^ 18" using assms by (simp add: distrib_left [symmetric])
  have "k \<le> p * (10 ^ 18 - d) div 10 ^ 18 \<longleftrightarrow> k + exact_quota p d \<le> p" for k
  proof -
    have "k \<le> p * (10 ^ 18 - d) div 10 ^ 18 \<longleftrightarrow> k * 10 ^ 18 \<le> p * (10 ^ 18 - d)"
      by (simp add: less_eq_div_iff_mult_less_eq)
    also have "\<dots> \<longleftrightarrow> k \<le> p \<and> p * d \<le> (p - k) * 10 ^ 18"
      using pd by (auto simp: diff_mult_distrib)
    also have "\<dots> \<longleftrightarrow> k + exact_quota p d \<le> p"
      using exact_quota_le_iff [of p d "p - k"] by auto
    finally show ?thesis .
  qed
  from this [of "p * (10 ^ 18 - d) div 10 ^ 18"] this [of "p - exact_quota p d"] exact_quota_le_iff [of p d p] assms
  show ?thesis by (auto intro!: mult_le_mono2)
qed

lemma funds_to_distribute_value:
  assumes "decimal_law L" and "pc_funds_ratio c \<le> decimal_one"
  shows "if (unat oc + unat ap) * unat (pc_payment_amount c) + unat a < 2 ^ 128
     then \<exists>f. funds_to_distribute L c oc ap held a = Inr f
       \<and> unat f + (if (unat oc + unat ap) * unat (pc_payment_amount c) + unat a \<le> unat held then 0
                   else exact_quota (unat a) (unat (pc_funds_ratio c))) = unat a
     else funds_to_distribute L c oc ap held a = Inl PAY_Panic"
proof -
  let ?ms = "ucast oc + ucast ap :: u128" and ?need = "(unat oc + unat ap) * unat (pc_payment_amount c)"
  have ms: "unat ?ms = unat oc + unat ap"
    using unat_u64 [of oc] unat_u64 [of ap] by (simp add: unat_word_ariths unat_ucast_up)
  show ?thesis
  proof (cases "?need + unat a < 2 ^ 128")
    case True
    then have req: "fit_mul ?ms (pc_payment_amount c) = Some (?ms * pc_payment_amount c)"
      "unat (?ms * pc_payment_amount c) = ?need"
      using ms by (simp_all add: fit_mul_def unat_word_ariths)
    have sum: "unat (x + a) = unat x + unat a" if "unat x = ?need" for x :: u128
      using True that by (simp add: unat_word_ariths)
    have enough: "fit_add (?ms * pc_payment_amount c) a = Some (?ms * pc_payment_amount c + a)"
      "unat (?ms * pc_payment_amount c + a) = ?need + unat a"
      unfolding fit_add_def word_le_nat_alt sum [OF req(2)] req(2) using True by simp_all
    let ?share = "percent 100 - pc_funds_ratio c"
    have p: "percent 100 = decimal_one" by (simp add: percent_def)
    have le: "unat (pc_funds_ratio c) \<le> 10 ^ 18" using assms(2) by (simp add: word_le_nat_alt)
    have share: "fit_sub (percent 100) (pc_funds_ratio c) = Some ?share" "unat ?share = 10 ^ 18 - unat (pc_funds_ratio c)"
      using le by (simp_all add: p fit_sub_def unat_sub word_le_nat_alt)
    have "unat a * unat ?share div 10 ^ 18 \<le> unat a * 10 ^ 18 div 10 ^ 18"
      unfolding share(2) by (intro div_le_mono mult_le_mono2) simp
    then have "unat a * unat ?share div 10 ^ 18 < 2 ^ 128" using unat_u128 [of a] by simp
    then obtain f where f: "l_mul_decimal L a ?share = Some f" "unat f = unat a * (10 ^ 18 - unat (pc_funds_ratio c)) div 10 ^ 18"
      using mul_decimal_total [OF assms(1), of a ?share] share(2) by auto
    then have "unat f + exact_quota (unat a) (unat (pc_funds_ratio c)) = unat a" using quota_rest [OF le] by simp
    moreover have "?ms * pc_payment_amount c + a \<le> held \<longleftrightarrow> ?need + unat a \<le> unat held"
      using enough(2) by (simp add: word_le_nat_alt)
    ultimately show ?thesis
      using True req(1) enough(1) share(1) f(1) by (simp add: funds_to_distribute_def)
  next
    case False
    then show ?thesis
    proof (cases "?need < 2 ^ 128")
      case True
      then have "fit_mul ?ms (pc_payment_amount c) = Some (?ms * pc_payment_amount c)"
        "unat (?ms * pc_payment_amount c) = ?need"
        using ms by (simp_all add: fit_mul_def unat_word_ariths)
      moreover from this have "fit_add (?ms * pc_payment_amount c) a = None"
        using False unat_u128 by (intro not_Some_eq [THEN iffD1] allI notI) (metis fit_add_Some)
      ultimately show ?thesis using False by (simp add: funds_to_distribute_def pay_panic_def)
    next
      case not: False
      then have "fit_mul ?ms (pc_payment_amount c) = None" using ms by (simp add: fit_mul_def)
      with not show ?thesis by (simp add: funds_to_distribute_def pay_panic_def)
    qed
  qed
qed

end
