(* ===== verification/PAY_Theorems.thy ===== *)
theory PAY_Theorems
  imports PAY_Correct Voting_Math
begin

text \<open>
  The properties of the payments contract, with witnesses in a small example: a daily payment
  to two members of the oversight community and one of the arbiter pool.
\<close>

section \<open>An example\<close>

text \<open>A calendar with months of thirty days, the number of the month counted on.\<close>

definition pay_ex_lib :: pay_lib where
  "pay_ex_lib = \<lparr>
     pl_hour = (\<lambda>t. unat t div 3600 mod 24),
     pl_day = (\<lambda>t. unat t div 86400 mod 30 + 1),
     pl_month = (\<lambda>t. unat t div 2592000 mod 12 + 1),
     pl_from_ratio = (\<lambda>n d. if d = 0 \<or> 2 ^ 128 \<le> unat n * 10 ^ 18 div unat d then None
        else Some (of_nat (unat n * 10 ^ 18 div unat d))),
     pl_admin_set = (\<lambda>a _. Inr (Some a)),
     pl_admin_update = (\<lambda>info a d. if d = Some (Some (i_sender info)) then Inr (Some a, []) else Inl ''not admin''),
     pl_admin_assert = (\<lambda>a d. if d = Some (Some a) then Inr () else Inl ''not admin''),
     pl_admin_query = (\<lambda>d. case d of None \<Rightarrow> Inl NotFound | Some a \<Rightarrow> Inr a),
     pl_ensure_older = (\<lambda>v name new. case v of
          None \<Rightarrow> Inl NotFound
        | Some (n, old) \<Rightarrow> if n = name then Inr (Some (name, new), old) else Inl (GenericErr ''other contract'')),
     pl_version_le = (\<lambda>v w. v \<le> w)\<rparr>"


definition pay_ex_queries :: "u128 \<Rightarrow> pay_queries" where
  "pay_ex_queries funds = \<lparr>pq_is_tg4 = (\<lambda>_. True), pq_total_points = (\<lambda>a. Inr (if a = ''oc'' then 2 else 1)),
     pq_balance = (\<lambda>_ d. Inr \<lparr>c_denom = d, c_amount = funds\<rparr>)\<rparr>"

definition pay_ex_env :: "u64 \<Rightarrow> env" where
  "pay_ex_env t = \<lparr>e_block = \<lparr>b_height = t, b_time = t * 1000000000\<rparr>, e_contract = ''pay''\<rparr>"

definition pay_ex_init :: pay_instantiate_msg where
  "pay_ex_init = \<lparr>pi_admin = Some ''admin'', pi_oc_addr = ''oc'', pi_ap_addr = ''ap'', pi_engagement_addr = ''engagement'',
     pi_denom = ''utgd'', pi_payment_amount = 100, pi_payment_period = Daily, pi_funds_ratio = 10000000000000000\<rparr>"

definition pay_ex_config :: pay_config where
  "pay_ex_config = \<lparr>pc_oc_addr = ''oc'', pc_ap_addr = ''ap'', pc_engagement_addr = ''engagement'', pc_denom = ''utgd'',
     pc_payment_amount = 100, pc_payment_period = Daily, pc_funds_ratio = 10000000000000000\<rparr>"

definition pay_ex_state :: "(u64, payment) store \<Rightarrow> pay_state" where
  "pay_ex_state ps = \<lparr>ps_version = Some (''crates.io:tgrade-tc-payments'', ''0.15.0''), ps_admin = Some (Some ''admin''),
     ps_config = Some pay_ex_config, ps_payments = ps\<rparr>"

definition pay_ex_record :: "u64 \<Rightarrow> payment" where
  "pay_ex_record t = \<lparr>py_payment_time = t, py_payment_height = t, py_num_members = 0, py_amount = 0\<rparr>"

lemmas pay_eval_defs =
  pay_ex_lib_def pay_ex_queries_def pay_ex_env_def pay_ex_init_def pay_ex_config_def pay_ex_state_def pay_ex_record_def
  pay_instantiate_def pay_empty_def validate_opt_def verify_tg4_input_def pay_sudo_def end_block_def
  hour_after_midnight_def should_apply_def last_payment_def create_payment_def sget_def percent_def
  std_lib_def response_defs Let_def pay_config_of_def

lemma pay_ex_start: "pay_run std_lib pay_ex_lib (pay_ex_state [])"
proof -
  have "\<exists>r. pay_instantiate std_lib pay_ex_lib (pay_ex_queries 0) pay_ex_init pay_empty = Inr (pay_ex_state [], r)"
    by (simp add: pay_eval_defs)
  then show ?thesis by (auto intro: pay_run.pay_start)
qed

lemma pay_ex_two: "pay_run std_lib pay_ex_lib (pay_ex_state [(86400, pay_ex_record 86400), (172800, pay_ex_record 172800)])"
proof -
  have "\<exists>r. pay_sudo std_lib pay_ex_lib (pay_ex_queries 0) (pay_ex_env 86400) SudoEndBlock (pay_ex_state [])
      = Inr (pay_ex_state [(86400, pay_ex_record 86400)], r)"
    by (simp add: pay_eval_defs cong: if_weak_cong)
  then have one: "pay_run std_lib pay_ex_lib (pay_ex_state [(86400, pay_ex_record 86400)])"
    using pay_run.pay_block [OF pay_ex_start] by blast
  have "\<exists>r. pay_sudo std_lib pay_ex_lib (pay_ex_queries 0) (pay_ex_env 172800) SudoEndBlock
      (pay_ex_state [(86400, pay_ex_record 86400)])
      = Inr (pay_ex_state [(86400, pay_ex_record 86400), (172800, pay_ex_record 172800)], r)"
    by (simp add: pay_eval_defs cong: if_weak_cong)
  then show ?thesis using pay_run.pay_block [OF one] by blast
qed

section \<open>Records\<close>

text \<open>
  C28. Recorded payments lie a period apart. In every run the times of the recorded payments, in
  ascending order, are a whole period apart less one hour (a day, 28 days, 365 days), and each
  lies in the first hour of a period as the calendar has it; an end of block can never record
  two payments for one period.
\<close>

theorem payments_one_period_apart:
  assumes "clock_law L" and "pay_run L PL s"
  shows "\<exists>c. ps_config s = Some c
     \<and> sorted_wrt (\<lambda>t t'. unat t + unat (period_seconds (pc_payment_period c)) \<le> unat t' + 3600) (map fst (ps_payments s))
     \<and> (\<forall>k \<in> fst ` set (ps_payments s). \<exists>t. k = l_seconds L t \<and> should_apply L PL c t)"
proof -
  obtain c where c: "ps_config s = Some c" "sorted_wrt (apart (pc_payment_period c)) (map fst (ps_payments s))"
    and all: "\<forall>(k, p) \<in> set (ps_payments s). py_payment_time p = k \<and> py_num_members p = 0 \<and> py_amount p = 0
            \<and> (\<exists>t. k = l_seconds L t \<and> should_apply L PL c t)"
    using pay_run_inv [OF assms] unfolding pay_inv_def by blast
  from all have "\<forall>k \<in> fst ` set (ps_payments s). \<exists>t. k = l_seconds L t \<and> should_apply L PL c t" by auto
  with c show ?thesis by blast
qed

lemma payments_one_period_apart_witness:
  "unat (86400 :: u64) + unat (period_seconds Daily) \<le> unat (172800 :: u64) + 3600"
  using payments_one_period_apart [OF std_clock_law pay_ex_two]
  by (simp add: pay_ex_state_def pay_ex_config_def)

text \<open>
  C29. Payments that are made are never recorded. In every run all that \<open>list_payments\<close> ever returns
  are payments of nothing to nobody; and an end of block that sends money leaves the storage as
  it was, so that the next block of the same hour pays again what has come in since.
\<close>

theorem payouts_leave_no_record:
  assumes "clock_law L" and "pay_run L PL s"
  shows "(\<forall>start limit ps. list_payments start limit s = Inr ps \<longrightarrow>
       (\<forall>p \<in> set ps. py_num_members p = 0 \<and> py_amount p = 0))
     \<and> (\<forall>Q env s' r. end_block L PL Q env s = Inr (s', r) \<longrightarrow> r_messages r \<noteq> [] \<longrightarrow> s' = s)"
proof -
  have zero: "\<forall>(k, p) \<in> set (ps_payments s). py_num_members p = 0 \<and> py_amount p = 0"
    using pay_run_inv [OF assms] by (auto simp: pay_inv_def)
  have "set (page_of n start (ps_payments s)) \<subseteq> set (ps_payments s)" for n start
    by (auto simp: page_of_def safter_def dest!: in_set_takeD split: option.splits)
  with zero have "list_payments start limit s = Inr ps \<Longrightarrow> \<forall>p \<in> set ps. py_num_members p = 0 \<and> py_amount p = 0"
    for start limit ps
    by (fastforce simp: list_payments_def)
  moreover have "s' = s" if "end_block L PL Q env s = Inr (s', r)" "r_messages r \<noteq> []" for Q env s' r
    using that(1) by (cases rule: end_block_shape) (use that(2) in auto)
  ultimately show ?thesis by blast
qed

lemma payouts_leave_no_record_witness:
  "\<exists>r. end_block std_lib pay_ex_lib (pay_ex_queries 1000) (pay_ex_env 86400) (pay_ex_state []) = Inr (pay_ex_state [], r)
     \<and> r_messages r = [PayExecute ''oc'' (DistributeRewards None) [\<lparr>c_denom = ''utgd'', c_amount = 666\<rparr>],
         PayExecute ''ap'' (DistributeRewards None) [\<lparr>c_denom = ''utgd'', c_amount = 333\<rparr>]]"
proof -
  have "\<exists>s' r. end_block std_lib pay_ex_lib (pay_ex_queries 1000) (pay_ex_env 86400) (pay_ex_state []) = Inr (s', r)
     \<and> r_messages r = [PayExecute ''oc'' (DistributeRewards None) [\<lparr>c_denom = ''utgd'', c_amount = 666\<rparr>],
         PayExecute ''ap'' (DistributeRewards None) [\<lparr>c_denom = ''utgd'', c_amount = 333\<rparr>]]"
    by (simp add: pay_eval_defs group_amount_def reward_msgs_def cong: if_weak_cong)
  with payouts_leave_no_record [OF std_clock_law pay_ex_start] show ?thesis by (metis list.distinct(1))
qed

section \<open>Money\<close>





end
