(* ===== verification/PAY_Circle.thy ===== *)
theory PAY_Circle
  imports PAY_Theorems TC_Accounts TC_Query
begin

text \<open>
  Payments and the trusted circle together: the messages that the end of a block sends to an
  oversight community are calls of \<open>DistributeRewards {}\<close> of the trusted circle, which shares
  what it holds beyond its withdrawable total among its voters. The chain between the two
  contracts appears only as the answers to their queries: the total points that the circle itself
  reports, and a balance into which the sent coins have been paid before the call.
\<close>

section \<open>What is sent\<close>



section \<open>The property\<close>



end
