(* ===== verification/Spec2Isabelle.thy ===== *)
theory Spec2Isabelle
  imports TC_Theorems TC_Accounts TC_Ballots TC_Leaver TC_Migration TC_Wire DM_Theorems AP_Theorems OC_Theorems
    PAY_Theorems PAY_Circle
begin

text \<open>
  A verification development of the Tgrade contracts: smart contracts in Rust, under
  \<open>src/contracts\<close>, that run one transaction at a time on a chain which undoes a transaction that
  fails.

  \<^bold>\<open>The program.\<close> A \<^emph>\<open>trusted circle\<close> (\<open>tgrade-trusted-circle\<close>) is a group whose voting members pay
  an escrow: it keeps members, their standing and their escrow, lets voters propose and vote,
  executes what passed, and distributes rewards among the voters. An \<^emph>\<open>arbiter pool\<close>
  (\<open>tgrade-ap-voting\<close>) takes complaints against a dispute cost and appoints arbiters for
  them; the arbiters of one complaint decide in a \<^emph>\<open>dispute multisig\<close>
  (\<open>tgrade-dispute-multisig\<close>), which the pool instantiates and which sends its decision back. The
  \<^emph>\<open>oversight community\<close> (\<open>tgrade-oc-proposals\<close>) votes on grants and punishments, and
  \<^emph>\<open>payments\<close> (\<open>tgrade-tc-payments\<close>) pays members periodically.

  \<^bold>\<open>How the model reads.\<close> A handler is a function of the environment, the message and the stored
  state; it returns \<open>Inl\<close> an error, or \<open>Inr\<close> the new state and the response. The \<open>?\<close> operator is
  \<open>bindE\<close>, a loop that may fail is \<open>foldE\<close>, \<open>mapE\<close> or \<open>checkE\<close> (\<open>Prelude\<close>). A panic is an error of its own, as it
  undoes the transaction alike. Unsigned integers are words of their width, so \<open>+\<close> wraps as in the
  release build; where the code checks, so does the model (\<open>fit_add\<close>, \<open>fit_sub\<close>, \<open>fit_mul\<close>).
  Storage maps are sorted association lists (\<open>Storage\<close>), used through the laws of the locale
  \<open>kv_store\<close>; a listing is a page of one (\<open>Paging\<close>, locale \<open>paged_listing\<close>). What is not in the
  repository is a parameter: the packages through the record \<open>cw_lib\<close> (\<open>Cosmwasm\<close>), the voting package
  through \<open>voting_lib\<close> (\<open>Voting_Contract\<close>), answers of other contracts through query functions. The
  laws assumed of them are named: \<open>decimal_law\<close>, \<open>expiry_law\<close>, \<open>payment_law\<close>, \<open>ballot_law\<close>,
  \<open>history_law\<close>, \<open>clock_law\<close>, \<open>threshold_law\<close>, \<open>quiet_law\<close>, \<open>pending_law\<close>, \<open>ratio_law\<close>, \<open>format_law\<close>.
  Past values of the snapshot map are those of its change log, computed from all writes in order
  (\<open>snapshot_at\<close>), and \<open>history_law\<close> says exactly that. Decimal digits are in \<open>Digits\<close>.

  \<^bold>\<open>Trusted circle.\<close> \<open>TC_State\<close> has the data and pure functions of \<open>state.rs\<close>, \<open>error.rs\<close> and \<open>msg.rs\<close>;
  \<open>TC_Distribution\<close> has \<open>distribution.rs\<close>; \<open>TC_Store\<close> the storage; \<open>TC_Members\<close> the handlers of
  \<open>contract.rs\<close> that change members and escrows, \<open>TC_Proposals\<close> proposing, voting and executing,
  \<open>TC_Contract\<close> instantiation and dispatch, \<open>TC_Query\<close> the queries. \<open>TC_Frames\<close> and \<open>TC_Effects\<close> say what
  each operation leaves alone and does; \<open>TC_Circle\<close>, \<open>TC_Membership\<close>, \<open>TC_Escrow\<close>, \<open>TC_Tally\<close>, \<open>TC_Life\<close>,
  \<open>TC_Status\<close> and \<open>TC_Voting\<close> prove one invariant or life cycle each over all calls; \<open>Reward_Ledger\<close>
  is an abstract ledger of shares as a locale, and \<open>TC_Rewards\<close> shows that the bookkeeping in points
  per point implements it. The properties are in \<open>TC_Theorems\<close>, \<open>TC_Accounts\<close> (escrow, standing and rewards,
  with two ways in which the accounts fail), \<open>TC_Ballots\<close>, \<open>TC_Block\<close> and
  \<open>TC_Leaver\<close> (proposals, who is counted but cannot vote, and what a leaver does to them), their
  witnesses run the history of \<open>TC_Examples\<close>. \<open>TC_Migration\<close> has
  \<open>migration.rs\<close>; \<open>TC_Wire\<close> has \<open>i128.rs\<close>, the string form of a points correction, and \<open>helpers.rs\<close>.

  \<^bold>\<open>Dispute multisig.\<close> \<open>DM_State\<close> and \<open>DM_Contract\<close> have the whole contract, with \<open>dm_run\<close> as its runs;
  \<open>DM_Rule\<close> the rule on natural numbers that its decision implements, with and without word
  arithmetic; \<open>DM_Correct\<close> the invariant of its runs; the properties are in \<open>DM_Theorems\<close>.

  \<^bold>\<open>Arbiter pool.\<close> \<open>AP_State\<close> and \<open>AP_Contract\<close> have the whole contract; \<open>AP_Correct\<close> the life cycle of
  complaints and the money over all transactions (\<open>ap_run\<close>), where a transaction is a call and
  the reply it causes. \<open>AP_Court\<close> reads the voters of a multisig (locale \<open>voters_listing\<close>), and
  \<open>AP_Court_Run\<close> runs the pool and all its multisigs as one system (\<open>court_run\<close>); the properties
  are in \<open>AP_Theorems\<close>.

  \<^bold>\<open>Oversight community.\<close> \<open>OC_Contract\<close> has the whole contract; \<open>OC_Correct\<close> relates the messages it
  has sent to the proposals it has accepted, on the law \<open>pending_law\<close> that the voting package
  executes a proposal once; the properties are in \<open>OC_Theorems\<close>.

  \<^bold>\<open>Payments.\<close> \<open>PAY_Contract\<close> has the whole contract, with calendar and admin controller as the record
  \<open>pay_lib\<close>; \<open>PAY_Correct\<close> the invariant of what it records and the arithmetic of what it
  pays, on \<open>ratio_law\<close>; the properties are in \<open>PAY_Theorems\<close>. \<open>PAY_Circle\<close> composes it with the
  trusted circle: each message it sends is one that a circle executes, as a step of the ledger.

  \<^bold>\<open>Bounds.\<close> Runs of the trusted circle (\<open>tc_after\<close>) and of the pool have less than \<open>2^64\<close> calls, so
  that counters of proposals, batches and complaints do not wrap; the clock is below \<open>2^63\<close>
  nanoseconds; the reward theorems allow less than \<open>2^95\<close> coins in total, the escrow theorem fewer than
  \<open>2^32\<close> receivers of one punishment; twice the dispute cost fits a \<open>u128\<close> and a multisig has less than \<open>2^32\<close> voters where
  money is counted; the weights given to a multisig sum to less than \<open>2^64\<close>. The loop over the
  pages of voters has no fuel: it is a partial function, and is shown to return. Twenty
  digits are enough to print any \<open>u64\<close>, and 39 the absolute value of any \<open>i128\<close>.

  \<^bold>\<open>Not modelled.\<close> Schema generators, tests and scripts; the JSON encoding of messages and storage,
  except where an old layout is read and for the string of an \<open>i128\<close>. The packages named above are parameters, as their
  code is not in the repository.
\<close>

end
